(* ===== verification/Prelude.thy ===== *)
theory Prelude
  imports Main "HOL-Library.Word" "HOL-Library.AList" "HOL-Library.Multiset"
begin

text \<open>
  Shared vocabulary of the development: errors and results, Go maps as
  association lists, the order in which a \<open>range\<close> loop visits a map, and
  the generic lemmas the component theories use.
\<close>

named_theorems go_simps \<open>unfolding rules for the Go library model\<close>
named_theorems pool_simps \<open>rules that reduce the prefix pool to arithmetic on prefixes\<close>
named_theorems api_simps \<open>unfolding rules for the message validators\<close>
named_theorems model_simps \<open>unfolding rules for the in-memory model\<close>
named_theorems nsm_simps \<open>unfolding rules for the network service manager\<close>

text \<open>
  An error value of the program. \<open>Errorf m\<close> is an error returned by the code,
  identified by its format string; \<open>Panic m\<close> is a run-time panic (a nil
  dereference, an index out of range, a failed type assertion).
\<close>

datatype error = Errorf string | Panic string

type_synonym 'a result = "error + 'a"

definition is_panic :: "error option \<Rightarrow> bool" where
  "is_panic e = (case e of Some (Panic _) \<Rightarrow> True | _ \<Rightarrow> False)"

text \<open>A Go map: an association list with distinct keys.\<close>

type_synonym ('k, 'v) gomap = "('k \<times> 'v) list"

definition gomap_ok :: "('k, 'v) gomap \<Rightarrow> bool" where
  "gomap_ok m \<longleftrightarrow> distinct (map fst m)"

text \<open>
  \<open>range\<close> over a Go map visits the entries in an unspecified order. Loops over
  maps take that order as an argument; \<open>is_order f\<close> says that \<open>f\<close> lists
  every entry exactly once.
\<close>

definition is_order :: "('a list \<Rightarrow> 'a list) \<Rightarrow> bool" where
  "is_order f \<longleftrightarrow> (\<forall>xs. mset (f xs) = mset xs)"

subsection \<open>Generic lemmas\<close>

lemma is_order_id [simp]: "is_order (\<lambda>xs. xs)"
  by (simp add: is_order_def)

lemma is_order_rev [simp]: "is_order rev"
  by (simp add: is_order_def)

lemma is_order_mset: "is_order f \<Longrightarrow> mset (f xs) = mset xs"
  by (simp add: is_order_def)

lemma is_order_set: "is_order f \<Longrightarrow> set (f xs) = set xs"
  by (metis is_order_mset mset_eq_setD)

lemma is_order_length: "is_order f \<Longrightarrow> length (f xs) = length xs"
  by (metis is_order_mset mset_eq_length)

lemma is_order_distinct: "is_order f \<Longrightarrow> distinct (f xs) = distinct xs"
  by (metis is_order_mset mset_eq_imp_distinct_iff)

lemma is_order_Nil: "is_order f \<Longrightarrow> f [] = []"
  by (metis is_order_mset mset_zero_iff)

lemma gomap_ok_Nil [simp]: "gomap_ok []"
  by (simp add: gomap_ok_def)

lemma gomap_ok_update [simp]: "gomap_ok m \<Longrightarrow> gomap_ok (AList.update k v m)"
  by (simp add: gomap_ok_def distinct_update)

lemma gomap_ok_delete [simp]: "gomap_ok m \<Longrightarrow> gomap_ok (AList.delete k m)"
  by (simp add: gomap_ok_def distinct_delete)

lemma gomap_map_of_iff:
  "gomap_ok m \<Longrightarrow> map_of m k = Some v \<longleftrightarrow> (k, v) \<in> set m"
  by (simp add: gomap_ok_def)

lemma map_of_update [simp]: "map_of (AList.update k v m) = (map_of m)(k \<mapsto> v)"
  by (simp add: update_conv')

lemma update_fresh: "map_of m k = None \<Longrightarrow> AList.update k v m = m @ [(k, v)]"
  by (induction m) (auto split: if_splits)

lemma update_same: "map_of m k = Some v \<Longrightarrow> AList.update k v m = m"
  by (induction m) (auto split: if_splits)

lemma delete_fresh: "map_of m k = None \<Longrightarrow> AList.delete k m = m"
  by (simp add: delete_idem map_of_eq_None_iff)

lemma delete_update_fresh: "map_of m k = None \<Longrightarrow> AList.delete k (AList.update k v m) = m"
  by (simp add: update_fresh AList.delete_eq filter_id_conv) (metis delete_fresh AList.delete_eq filter_id_conv case_prod_conv)

lemma entries_update: "set (AList.update k v m) \<subseteq> insert (k, v) (set m)"
  by (induction m) auto

lemma entries_delete: "set (AList.delete k m) \<subseteq> set m"
  by (auto simp: AList.delete_eq)

lemma map_of_delete [simp]: "map_of (AList.delete k m) = (map_of m)(k := None)"
  by (simp add: delete_conv')

end
