(* ===== verification/GoNet.thy ===== *)
theory GoNet
  imports Prelude
begin

unbundle bit_operations_syntax

text \<open>
  The parts of Go's standard library the program relies on: decimal and
  hexadecimal conversions (\<open>strconv\<close>), big integers as bytes (\<open>math/big\<close>) and
  IP addresses, masks and CIDR notation (\<open>net\<close>), as of Go 1.11, the version the
  build uses. The section on round trips shows that \<open>ParseCIDR\<close> reads back what
  \<open>IPNet.String\<close> prints for IPv4 networks.
\<close>

subsection \<open>Digits\<close>

type_synonym byte = "8 word"

text \<open>\<open>net.IP\<close> and \<open>net.IPMask\<close> are byte slices; the empty list is also nil.\<close>

type_synonym net_IP = "byte list"
type_synonym net_IPMask = "byte list"

record IPNet =
  IP :: net_IP
  Mask :: net_IPMask

definition digit_char :: "nat \<Rightarrow> char" where
  "digit_char n = (if n < 10 then char_of (48 + n) else char_of (87 + n))"

definition is_dec :: "char \<Rightarrow> bool" where
  "is_dec c \<longleftrightarrow> 48 \<le> (of_char c :: nat) \<and> (of_char c :: nat) \<le> 57"

definition dec_val :: "char \<Rightarrow> nat" where
  "dec_val c = of_char c - 48"

definition hex_val :: "char \<Rightarrow> nat option" where
  "hex_val c = (let n = of_char c :: nat in
     if 48 \<le> n \<and> n \<le> 57 then Some (n - 48)
     else if 97 \<le> n \<and> n \<le> 102 then Some (n - 87)
     else if 65 \<le> n \<and> n \<le> 70 then Some (n - 55)
     else None)"

text \<open>\<open>strconv.FormatUint(n, base)\<close>: no leading zeros, lower-case digits.\<close>

function FormatUint :: "nat \<Rightarrow> nat \<Rightarrow> string" where
  "FormatUint base n =
     (if base < 2 \<or> n < base then [digit_char n]
      else FormatUint base (n div base) @ [digit_char (n mod base)])"
  by auto
termination
  by (relation "measure snd") (auto intro: div_less_dividend)

declare FormatUint.simps [simp del]

text \<open>\<open>net.dtoi\<close> and \<open>net.xtoi\<close>: value, number of characters read, success.\<close>

definition big :: nat where
  "big = 0xFFFFFF"

fun dtoi_from :: "nat \<Rightarrow> nat \<Rightarrow> string \<Rightarrow> nat \<times> nat \<times> bool" where
  "dtoi_from n i [] = (if i = 0 then (0, 0, False) else (n, i, True))"
| "dtoi_from n i (c # s) =
     (if is_dec c then
        (if n * 10 + dec_val c \<ge> big then (big, i, False)
         else dtoi_from (n * 10 + dec_val c) (Suc i) s)
      else if i = 0 then (0, 0, False) else (n, i, True))"

definition dtoi :: "string \<Rightarrow> nat \<times> nat \<times> bool" where
  "dtoi s = dtoi_from 0 0 s"

fun xtoi_from :: "nat \<Rightarrow> nat \<Rightarrow> string \<Rightarrow> nat \<times> nat \<times> bool" where
  "xtoi_from n i [] = (if i = 0 then (0, i, False) else (n, i, True))"
| "xtoi_from n i (c # s) =
     (case hex_val c of
        Some d \<Rightarrow> (if n * 16 + d \<ge> big then (0, i, False)
                   else xtoi_from (n * 16 + d) (Suc i) s)
      | None \<Rightarrow> (if i = 0 then (0, i, False) else (n, i, True)))"

definition xtoi :: "string \<Rightarrow> nat \<times> nat \<times> bool" where
  "xtoi s = xtoi_from 0 0 s"

subsection \<open>Big integers and bytes\<close>

text \<open>\<open>big.Int.SetBytes\<close> (big-endian) and a fixed-width big-endian encoding.\<close>

fun be_nat :: "byte list \<Rightarrow> nat" where
  "be_nat [] = 0"
| "be_nat (b # bs) = unat b * 256 ^ length bs + be_nat bs"

fun to_be :: "nat \<Rightarrow> nat \<Rightarrow> byte list" where
  "to_be 0 n = []"
| "to_be (Suc k) n = of_nat (n div 256 ^ k) # to_be k n"

text \<open>\<open>big.Int.Bytes\<close>: the shortest big-endian encoding.\<close>

fun big_Bytes :: "nat \<Rightarrow> byte list" where
  "big_Bytes n = (if n = 0 then [] else big_Bytes (n div 256) @ [of_nat n])"

declare big_Bytes.simps [simp del]

subsection \<open>Addresses and masks\<close>

definition v4InV6Prefix :: "byte list" where
  "v4InV6Prefix = replicate 10 0 @ [255, 255]"

text \<open>\<open>IP.To4\<close>: nil (the empty list) when the address is not an IPv4 address.\<close>

definition To4 :: "net_IP \<Rightarrow> net_IP" where
  "To4 ip = (if length ip = 4 then ip
             else if length ip = 16 \<and> take 12 ip = v4InV6Prefix then drop 12 ip
             else [])"

fun cidr_bytes :: "nat \<Rightarrow> nat \<Rightarrow> byte list" where
  "cidr_bytes 0 n = []"
| "cidr_bytes (Suc k) n =
     (if n \<ge> 8 then 255 # cidr_bytes k (n - 8)
      else NOT (drop_bit n 255) # cidr_bytes k 0)"

definition CIDRMask :: "int \<Rightarrow> int \<Rightarrow> net_IPMask" where
  "CIDRMask ones bits =
     (if bits \<noteq> 32 \<and> bits \<noteq> 128 then []
      else if ones < 0 \<or> ones > bits then []
      else cidr_bytes (nat (bits div 8)) (nat ones))"

text \<open>
  The inner loop of \<open>simpleMaskLength\<close> shifts a byte left while its top bit is
  set; eight shifts empty a byte, so eight rounds are enough.
\<close>

fun leading_ones :: "nat \<Rightarrow> nat \<Rightarrow> byte \<Rightarrow> nat \<times> byte" where
  "leading_ones 0 n v = (n, v)"
| "leading_ones (Suc k) n v =
     (if v AND 0x80 \<noteq> 0 then leading_ones k (Suc n) (push_bit 1 v) else (n, v))"

fun simpleMaskLength_from :: "nat \<Rightarrow> net_IPMask \<Rightarrow> int" where
  "simpleMaskLength_from n [] = int n"
| "simpleMaskLength_from n (v # vs) =
     (if v = 255 then simpleMaskLength_from (n + 8) vs
      else (case leading_ones 8 n v of (n', v') \<Rightarrow>
              if v' \<noteq> 0 then -1
              else if \<exists>w \<in> set vs. w \<noteq> 0 then -1
              else int n'))"

definition simpleMaskLength :: "net_IPMask \<Rightarrow> int" where
  "simpleMaskLength m = simpleMaskLength_from 0 m"

text \<open>\<open>IPMask.Size\<close>: the number of leading ones and the number of bits.\<close>

definition Mask_Size :: "net_IPMask \<Rightarrow> int \<times> int" where
  "Mask_Size m = (let ones = simpleMaskLength m in
     if ones = -1 then (0, 0) else (ones, int (length m) * 8))"

text \<open>\<open>IP.Mask\<close>.\<close>

definition IP_Mask :: "net_IP \<Rightarrow> net_IPMask \<Rightarrow> net_IP" where
  "IP_Mask ip m =
     (let m' = (if length m = 16 \<and> length ip = 4 \<and> take 12 m = replicate 12 255
                then drop 12 m else m);
          ip' = (if length m' = 4 \<and> length ip = 16 \<and> take 12 ip = v4InV6Prefix
                 then drop 12 ip else ip)
      in if length ip' \<noteq> length m' then [] else map2 (AND) ip' m')"

text \<open>\<open>networkNumberAndMask\<close>: the IPv4 form of a network where it has one.\<close>

definition networkNumberAndMask :: "IPNet \<Rightarrow> net_IP \<times> net_IPMask" where
  "networkNumberAndMask n =
     (let ip = (if To4 (IP n) \<noteq> [] then To4 (IP n) else IP n) in
      if length ip \<noteq> 4 \<and> length ip \<noteq> 16 then ([], [])
      else if length (Mask n) = 4 then
        (if length ip \<noteq> 4 then ([], []) else (ip, Mask n))
      else if length (Mask n) = 16 then
        (if length ip = 4 then (ip, drop 12 (Mask n)) else (ip, Mask n))
      else ([], []))"

definition Contains :: "IPNet \<Rightarrow> net_IP \<Rightarrow> bool" where
  "Contains n ip =
     (case networkNumberAndMask n of (nn, m) \<Rightarrow>
        let x = (if To4 ip \<noteq> [] then To4 ip else ip) in
        length x = length nn \<and> map2 (AND) nn m = map2 (AND) x m)"

subsection \<open>Reading addresses\<close>

text \<open>\<open>parseIPv4\<close> reads four decimal fields; the result has the 16-byte form.\<close>

fun parseIPv4_fields :: "nat \<Rightarrow> nat \<Rightarrow> string \<Rightarrow> byte list option" where
  "parseIPv4_fields 0 i s = (if s = [] then Some [] else None)"
| "parseIPv4_fields (Suc k) i s =
     (if s = [] then None
      else if i > 0 \<and> hd s \<noteq> CHR ''.'' then None
      else (let s' = (if i > 0 then tl s else s) in
            case dtoi s' of (n, c, ok) \<Rightarrow>
              if \<not> ok \<or> n > 255 then None
              else (case parseIPv4_fields k (Suc i) (drop c s') of
                      None \<Rightarrow> None
                    | Some bs \<Rightarrow> Some (of_nat n # bs))))"

definition parseIPv4 :: "string \<Rightarrow> net_IP" where
  "parseIPv4 s = (case parseIPv4_fields 4 0 s of
                    None \<Rightarrow> [] | Some p \<Rightarrow> v4InV6Prefix @ p)"

text \<open>
  \<open>parseIPv6\<close>: the loop reads one group per round, so eight rounds fill the
  address. The bytes read so far are \<open>acc\<close>; \<open>ell\<close> is the position of the
  ellipsis. The result is the pair of both, with the unread input.
\<close>

fun parseIPv6_loop :: "nat \<Rightarrow> byte list \<Rightarrow> nat option \<Rightarrow> string \<Rightarrow>
    (byte list \<times> nat option \<times> string) option" where
  "parseIPv6_loop 0 acc ell s = Some (acc, ell, s)"
| "parseIPv6_loop (Suc k) acc ell s =
     (if length acc \<ge> 16 then Some (acc, ell, s)
      else case xtoi s of (n, c, ok) \<Rightarrow>
        if \<not> ok \<or> n > 0xFFFF then None
        else if c < length s \<and> s ! c = CHR ''.'' then
          (if ell = None \<and> length acc \<noteq> 12 then None
           else if length acc + 4 > 16 then None
           else if parseIPv4 s = [] then None
           else Some (acc @ drop 12 (parseIPv4 s), ell, []))
        else
          (let acc' = acc @ to_be 2 n; s1 = drop c s in
           if s1 = [] then Some (acc', ell, [])
           else if hd s1 \<noteq> CHR '':'' \<or> length s1 = 1 then None
           else (let s2 = tl s1 in
             if hd s2 = CHR '':'' then
               (if ell \<noteq> None then None
                else if tl s2 = [] then Some (acc', Some (length acc'), [])
                else parseIPv6_loop k acc' (Some (length acc')) (tl s2))
             else parseIPv6_loop k acc' ell s2)))"

definition parseIPv6 :: "string \<Rightarrow> net_IP" where
  "parseIPv6 s =
     (let lead = (take 2 s = ''::'') in
      if lead \<and> length s = 2 then replicate 16 0
      else case parseIPv6_loop 8 [] (if lead then Some 0 else None)
                  (if lead then drop 2 s else s) of
        None \<Rightarrow> []
      | Some (acc, ell, rest) \<Rightarrow>
          (if rest \<noteq> [] then []
           else if length acc < 16 then
             (case ell of None \<Rightarrow> []
              | Some e \<Rightarrow> take e acc @ replicate (16 - length acc) 0 @ drop e acc)
           else if ell \<noteq> None then [] else acc))"

definition ParseIP :: "string \<Rightarrow> net_IP" where
  "ParseIP s =
     (case dropWhile (\<lambda>c. c \<noteq> CHR ''.'' \<and> c \<noteq> CHR '':'') s of
        [] \<Rightarrow> []
      | c # _ \<Rightarrow> (if c = CHR ''.'' then parseIPv4 s else parseIPv6 s))"

text \<open>
  \<open>ParseCIDR\<close>: the address in 16-byte form and the network it lies in. The
  string is split at its first slash.
\<close>

definition ParseCIDR :: "string \<Rightarrow> (net_IP \<times> IPNet) result" where
  "ParseCIDR s =
     (let addr = takeWhile (\<lambda>c. c \<noteq> CHR ''/'') s;
          rest = dropWhile (\<lambda>c. c \<noteq> CHR ''/'') s;
          err = Inl (Errorf ''invalid CIDR address'')
      in if rest = [] then err
         else
           (let mask = tl rest;
                ip4 = parseIPv4 addr;
                iplen = (if ip4 \<noteq> [] then 4 else 16);
                ip = (if ip4 \<noteq> [] then ip4 else parseIPv6 addr)
            in case dtoi mask of (n, i, ok) \<Rightarrow>
                 if ip = [] \<or> \<not> ok \<or> i \<noteq> length mask \<or> n > 8 * iplen then err
                 else (let m = CIDRMask (int n) (8 * int iplen)
                       in Inr (ip, \<lparr>IP = IP_Mask ip m, Mask = m\<rparr>))))"

subsection \<open>Printing addresses\<close>

fun join :: "string \<Rightarrow> string list \<Rightarrow> string" where
  "join sep [] = []"
| "join sep [s] = s"
| "join sep (s # t # r) = s @ sep @ join sep (t # r)"

definition v4_String :: "net_IP \<Rightarrow> string" where
  "v4_String p = join ''.'' (map (\<lambda>b. FormatUint 10 (unat b)) p)"

fun groups :: "byte list \<Rightarrow> nat list" where
  "groups (a # b # r) = (unat a * 256 + unat b) # groups r"
| "groups _ = []"

text \<open>
  The longest run of zero groups, the first of the longest ones: the search of
  \<open>IP.String\<close> over start positions, with its jump to the end of a new run.
\<close>

definition zero_run :: "nat list \<Rightarrow> nat \<Rightarrow> nat" where
  "zero_run gs i = length (takeWhile (\<lambda>g. g = 0) (drop i gs))"

fun find_run :: "nat \<Rightarrow> nat list \<Rightarrow> nat \<Rightarrow> nat \<times> nat \<Rightarrow> nat \<times> nat" where
  "find_run 0 gs i best = best"
| "find_run (Suc k) gs i best =
     (if i \<ge> 8 then best
      else (let r = zero_run gs i in
            if r > 0 \<and> r > snd best then find_run k gs (Suc (i + r)) (i, r)
            else find_run k gs (Suc i) best))"

definition v6_String :: "net_IP \<Rightarrow> string" where
  "v6_String p =
     (let gs = groups p; hex = map (FormatUint 16) in
      case find_run 8 gs 0 (0, 0) of (e, r) \<Rightarrow>
        if r \<le> 1 then join '':'' (hex gs)
        else join '':'' (hex (take e gs)) @ ''::'' @ join '':'' (hex (drop (e + r) gs)))"

definition hexString :: "byte list \<Rightarrow> string" where
  "hexString bs = concat (map (\<lambda>b. [digit_char (unat b div 16), digit_char (unat b mod 16)]) bs)"

definition IP_String :: "net_IP \<Rightarrow> string" where
  "IP_String ip =
     (if ip = [] then ''<nil>''
      else if To4 ip \<noteq> [] then v4_String (To4 ip)
      else if length ip \<noteq> 16 then CHR ''?'' # hexString ip
      else v6_String ip)"

definition IPNet_String :: "IPNet \<Rightarrow> string" where
  "IPNet_String n =
     (case networkNumberAndMask n of (nn, m) \<Rightarrow>
        if nn = [] \<or> m = [] then ''<nil>''
        else if simpleMaskLength m = -1 then IP_String nn @ ''/'' @ hexString m
        else IP_String nn @ ''/'' @ FormatUint 10 (nat (simpleMaskLength m)))"

text \<open>
  Vocabulary of the round trips: \<open>stops P s\<close> says that a scan over characters
  of \<open>P\<close> ends at \<open>s\<close>; \<open>mknet k a l\<close> is the network of \<open>k\<close>-byte addresses with
  base address \<open>a\<close> and prefix length \<open>l\<close>.
\<close>

definition stops :: "(char \<Rightarrow> bool) \<Rightarrow> string \<Rightarrow> bool" where
  "stops P s \<longleftrightarrow> s = [] \<or> \<not> P (hd s)"

definition mknet :: "nat \<Rightarrow> nat \<Rightarrow> nat \<Rightarrow> IPNet" where
  "mknet k a l = \<lparr>IP = to_be k a, Mask = CIDRMask (int l) (8 * int k)\<rparr>"

subsection \<open>Round trips\<close>

lemma of_char_digit [simp]:
  "n < 10 \<Longrightarrow> (of_char (digit_char n) :: nat) = 48 + n"
  by (simp add: digit_char_def)

lemma digit_char_dec [simp]:
  "n < 10 \<Longrightarrow> is_dec (digit_char n)"
  "n < 10 \<Longrightarrow> dec_val (digit_char n) = n"
  by (simp_all add: is_dec_def dec_val_def)

lemma FormatUint_nonempty [simp]: "FormatUint b n \<noteq> []"
  by (subst FormatUint.simps) simp

lemma FormatUint_small: "n < b \<Longrightarrow> FormatUint b n = [digit_char n]"
  by (subst FormatUint.simps) simp

lemma FormatUint_step:
  "2 \<le> b \<Longrightarrow> b \<le> n \<Longrightarrow> FormatUint b n = FormatUint b (n div b) @ [digit_char (n mod b)]"
  by (subst FormatUint.simps) simp

lemma dtoi_from_stop:
  "stops is_dec s \<Longrightarrow> dtoi_from n (Suc i) s = (n, Suc i, True)"
  by (cases s) (auto simp: stops_def)

lemma dtoi_from_append:
  assumes "n < big"
  shows "dtoi_from 0 0 (FormatUint 10 n @ s) =
         dtoi_from n (length (FormatUint 10 n)) s"
  using assms
proof (induction n arbitrary: s rule: less_induct)
  case (less n)
  show ?case
  proof (cases "n < 10")
    case True
    with less.prems show ?thesis by (simp add: FormatUint_small)
  next
    case False
    have "n div 10 < n" "n div 10 < big" using False less.prems by auto
    then have "dtoi_from 0 0 (FormatUint 10 (n div 10) @ digit_char (n mod 10) # s)
        = dtoi_from (n div 10) (length (FormatUint 10 (n div 10))) (digit_char (n mod 10) # s)"
      by (rule less.IH)
    moreover have "n div 10 * 10 + n mod 10 = n" by simp
    ultimately show ?thesis
      using False less.prems by (simp add: FormatUint_step)
  qed
qed

lemma dtoi_FormatUint:
  assumes "n < big" "stops is_dec s"
  shows "dtoi (FormatUint 10 n @ s) = (n, length (FormatUint 10 n), True)"
proof -
  obtain k where k: "length (FormatUint 10 n) = Suc k"
    by (metis FormatUint_nonempty length_0_conv not0_implies_Suc)
  then show ?thesis
    by (simp add: dtoi_def dtoi_from_append [OF assms(1)] dtoi_from_stop [OF assms(2)])
qed

lemma length_to_be [simp]: "length (to_be k n) = k"
  by (induction k) auto

lemma be_nat_to_be: "be_nat (to_be k n) = n mod 256 ^ k"
proof (induction k)
  case (Suc k)
  have "n mod 256 ^ Suc k = n mod (256 ^ k * 256)" by (simp add: mult.commute)
  also have "\<dots> = 256 ^ k * (n div 256 ^ k mod 256) + n mod 256 ^ k"
    by (rule mod_mult2_eq)
  finally show ?case using Suc by (simp add: unat_of_nat mult.commute)
qed simp

lemma be_nat_to_be_id [simp]: "n < 256 ^ k \<Longrightarrow> be_nat (to_be k n) = n"
  by (simp add: be_nat_to_be)

lemma be_nat_less: "be_nat bs < 256 ^ length bs"
proof (induction bs)
  case (Cons b bs)
  have "unat b < 256" using unsigned_less [of b] by simp
  then have "unat b * 256 ^ length bs + be_nat bs < (unat b + 1) * 256 ^ length bs"
    using Cons by simp
  also have "\<dots> \<le> 256 * 256 ^ length bs"
    using \<open>unat b < 256\<close> by (intro mult_right_mono) auto
  finally show ?case by simp
qed simp

lemma to_be_add_mult: "to_be k (m * 256 ^ k + n) = to_be k n"
proof (induction k arbitrary: m n)
  case (Suc k)
  have e: "m * 256 ^ Suc k + n = n + (m * 256) * 256 ^ k" by simp
  have "(m * 256 ^ Suc k + n) div 256 ^ k = n div 256 ^ k + m * 256"
    unfolding e by (subst div_mult_self1) simp_all
  moreover have "(of_nat (n div 256 ^ k + m * 256) :: byte) = of_nat (n div 256 ^ k)"
  proof -
    have "(of_nat (m * 256) :: byte) = 0" unfolding word_of_nat_eq_0_iff by simp
    then show ?thesis by (simp only: of_nat_add add_0_right)
  qed
  moreover have "to_be k (m * 256 ^ Suc k + n) = to_be k n"
    using Suc [of "m * 256" n] by (simp add: mult.assoc)
  ultimately show ?case by simp
qed simp

lemma to_be_be_nat [simp]: "to_be (length bs) (be_nat bs) = bs"
proof (induction bs)
  case (Cons b bs)
  have "(unat b * 256 ^ length bs + be_nat bs) div 256 ^ length bs = unat b"
    using be_nat_less [of bs] by simp
  then show ?case using Cons by (simp add: to_be_add_mult)
qed simp

lemma length_big_Bytes: "n < 256 ^ k \<Longrightarrow> length (big_Bytes n) \<le> k"
proof (induction k arbitrary: n)
  case 0 then show ?case by (simp add: big_Bytes.simps)
next
  case (Suc k)
  then have "n div 256 < 256 ^ k" by (simp add: less_mult_imp_div_less mult.commute)
  from Suc.IH [OF this] show ?case by (subst big_Bytes.simps) simp
qed

lemma to_be_append: "to_be (Suc k) n = to_be k (n div 256) @ [of_nat n]"
proof (induction k arbitrary: n)
  case (Suc k)
  have "n div 256 ^ Suc k = n div 256 div 256 ^ k" by (simp add: div_mult2_eq)
  then show ?case using Suc [of n] by simp
qed simp

lemma pad_big_Bytes:
  "n < 256 ^ k \<Longrightarrow> replicate (k - length (big_Bytes n)) 0 @ big_Bytes n = to_be k n"
proof (induction k arbitrary: n)
  case 0 then show ?case by (simp add: big_Bytes.simps)
next
  case (Suc k)
  have z: "to_be j 0 = replicate j 0" for j by (induction j) auto
  show ?case
  proof (cases "n = 0")
    case True then show ?thesis by (simp add: big_Bytes.simps z)
  next
    case False
    have less: "n div 256 < 256 ^ k"
      using Suc.prems by (simp add: less_mult_imp_div_less mult.commute)
    from Suc.IH [OF this] False show ?thesis
      by (subst (1 2) big_Bytes.simps) (simp add: to_be_append del: to_be.simps)
  qed
qed

lemma length_cidr_bytes [simp]: "length (cidr_bytes k n) = k"
  by (induction k n rule: cidr_bytes.induct) auto

lemma leading_ones_shift:
  "leading_ones k m v = (m + fst (leading_ones k 0 v), snd (leading_ones k 0 v))"
proof (induction k arbitrary: m v)
  case (Suc k)
  show ?case using Suc [of "Suc m" "push_bit 1 v"] Suc [of "Suc 0" "push_bit 1 v"] by simp
qed simp

lemma cidr_byte_table:
  "\<forall>n \<in> set [0..<8]. (NOT (drop_bit n 255) \<noteq> (255 :: byte))
     \<and> leading_ones 8 0 (NOT (drop_bit n 255)) = (n, 0)
     \<and> (NOT (drop_bit n 255) = (NOT (mask (8 - n)) :: byte))"
  by code_simp

lemma cidr_byte:
  assumes "n < 8"
  shows "NOT (drop_bit n 255) \<noteq> (255 :: byte)"
    and "leading_ones 8 m (NOT (drop_bit n 255)) = (m + n, 0)"
    and "NOT (drop_bit n 255) = (NOT (mask (8 - n)) :: byte)"
proof -
  have t: "(NOT (drop_bit n 255) \<noteq> (255 :: byte))
     \<and> leading_ones 8 0 (NOT (drop_bit n 255)) = (n, 0)
     \<and> (NOT (drop_bit n 255) = (NOT (mask (8 - n)) :: byte))"
    by (rule bspec [OF cidr_byte_table]) (use assms in simp)
  show "NOT (drop_bit n 255) \<noteq> (255 :: byte)" using t by (rule conjunct1)
  show "leading_ones 8 m (NOT (drop_bit n 255)) = (m + n, 0)"
    by (subst leading_ones_shift)
      (simp only: conjunct1 [OF conjunct2 [OF t]] fst_conv snd_conv)
  show "NOT (drop_bit n 255) = (NOT (mask (8 - n)) :: byte)" using t by (simp only:)
qed

lemma cidr_bytes_zero: "cidr_bytes k 0 = replicate k 0"
  by (induction k) auto

lemma simpleMaskLength_from_zeros: "simpleMaskLength_from n (replicate k 0) = int n"
proof (cases k)
  case (Suc j)
  have "leading_ones (Suc 7) n 0 = (n, 0)" by (simp only: leading_ones.simps) simp
  then show ?thesis by (simp add: Suc)
qed simp

lemma simpleMaskLength_cidr_from:
  "l \<le> 8 * k \<Longrightarrow> simpleMaskLength_from n (cidr_bytes k l) = int (n + l)"
proof (induction k l arbitrary: n rule: cidr_bytes.induct)
  case (2 k l)
  show ?case
  proof (cases "l \<ge> 8")
    case True
    with 2 show ?thesis by simp
  next
    case False
    then show ?thesis
      by (simp add: cidr_byte(1,2) cidr_bytes_zero)
  qed
qed simp

lemma byte_and_not_mask:
  "(of_nat x :: byte) AND NOT (mask n) = of_nat (2 ^ n * (x div 2 ^ n))"
proof -
  have "(of_nat x :: byte) AND NOT (mask n) = of_nat (push_bit n (drop_bit n x))"
    by (rule bit_eqI) (auto simp: bit_simps)
  then show ?thesis by (simp add: push_bit_eq_mult drop_bit_eq_div mult.commute)
qed

lemma div_coarser:
  assumes "d dvd p" "0 < p"
  shows "(a - a mod d) div p = a div (p :: nat)"
proof -
  obtain q where p: "p = d * q" using assms(1) by (rule dvdE)
  have "0 < d" using assms(2) p by simp
  then have "(d * (a div d)) div (d * q) = (a div d) div q" by simp
  then show ?thesis by (simp add: p minus_mod_eq_mult_div div_mult2_eq)
qed

text \<open>Masking keeps the leading bits: the host part becomes zero.\<close>

lemma to_be_0: "to_be k 0 = replicate k 0"
  by (induction k) auto

lemma to_be_mult: "to_be k (256 ^ k * q) = replicate k 0"
  using to_be_add_mult [of k q 0] by (simp add: to_be_0 mult.commute)

lemma mask_to_be:
  assumes "l \<le> 8 * k"
  shows "map2 (AND) (to_be k a) (cidr_bytes k l) = to_be k (a - a mod 2 ^ (8 * k - l))"
  using assms
proof (induction k arbitrary: l)
  case (Suc k)
  let ?h = "8 * Suc k - l"
  have pw: "(256 :: nat) ^ k = 2 ^ (8 * k)" by (simp add: power_mult)
  show ?case
  proof (cases "l \<ge> 8")
    case True
    have h: "?h = 8 * k - (l - 8)" using True by simp
    have le: "l - 8 \<le> 8 * k" using Suc.prems by simp
    have "2 ^ ?h dvd (256 :: nat) ^ k" unfolding pw h by (rule le_imp_power_dvd) simp
    then have d: "(a - a mod 2 ^ ?h) div 256 ^ k = a div 256 ^ k"
      by (rule div_coarser) simp
    have m: "(255 :: byte) = - 1" by simp
    have "x AND (255 :: byte) = x" for x unfolding m by (rule and.right_neutral)
    then show ?thesis using Suc.IH [OF le] True unfolding h [symmetric]
      by (simp add: d [simplified])
  next
    case False
    let ?m = "8 - l"
    have h: "(2 :: nat) ^ ?h = 256 ^ k * 2 ^ ?m" unfolding pw using False
      by (simp add: power_add [symmetric])
    have e: "a - a mod 2 ^ ?h = 256 ^ k * (2 ^ ?m * (a div 256 ^ k div 2 ^ ?m))"
      unfolding h by (simp add: minus_mod_eq_mult_div div_mult2_eq mult.assoc)
    have "map2 (AND) (to_be k a) (replicate k 0) = replicate k 0"
      by (simp add: zip_replicate2 list_eq_iff_nth_eq)
    then show ?thesis unfolding e using False
      by (simp add: cidr_byte(3) byte_and_not_mask cidr_bytes_zero to_be_mult)
  qed
qed simp

lemma stops_simps [simp]: "stops P []" "stops P (c # s) \<longleftrightarrow> \<not> P c"
  by (simp_all add: stops_def)

lemma not_is_dec [simp]: "\<not> is_dec CHR ''.''" "\<not> is_dec CHR ''/''" "\<not> is_dec CHR '':''"
  by (simp_all add: is_dec_def)

lemma is_dec_digit_set: "c \<in> set (FormatUint 10 n) \<Longrightarrow> is_dec c"
proof (induction n rule: less_induct)
  case (less n)
  show ?case
  proof (cases "n < 10")
    case True with less.prems show ?thesis by (simp add: FormatUint_small)
  next
    case False
    then have "n div 10 < n" by simp
    from less.IH [OF this] less.prems False show ?thesis by (auto simp: FormatUint_step)
  qed
qed

lemma unat_byte_less: "unat (b :: byte) < 256"
  using unsigned_less [of b, where 'a = nat] by simp

lemma big_ge: "n < 256 \<Longrightarrow> n < big"
  by (simp add: big_def)

lemma parseIPv4_field_first:
  "stops is_dec s \<Longrightarrow>
   parseIPv4_fields (Suc k) 0 (FormatUint 10 (unat (b :: byte)) @ s) =
     map_option (Cons b) (parseIPv4_fields k 1 s)"
  using unat_byte_less [of b]
  by (simp add: dtoi_FormatUint big_ge not_less split: option.split)

lemma parseIPv4_field_next:
  "stops is_dec s \<Longrightarrow> 0 < i \<Longrightarrow>
   parseIPv4_fields (Suc k) i (CHR ''.'' # FormatUint 10 (unat (b :: byte)) @ s) =
     map_option (Cons b) (parseIPv4_fields k (Suc i) s)"
  using unat_byte_less [of b]
  by (simp add: dtoi_FormatUint big_ge not_less split: option.split)

lemma parseIPv4_v4_String:
  assumes "length bs = 4"
  shows "parseIPv4 (v4_String bs) = v4InV6Prefix @ bs"
proof -
  obtain a b c d where bs: "bs = [a, b, c, d]"
    using assms by (auto simp: eval_nat_numeral length_Suc_conv)
  have "parseIPv4_fields (Suc (Suc (Suc (Suc 0)))) 0 (v4_String bs) = Some bs"
    by (simp add: v4_String_def bs parseIPv4_field_first parseIPv4_field_next
          parseIPv4_field_next [where s = "[]", unfolded append_Nil2]
          del: parseIPv4_fields.simps(2))
  then show ?thesis by (simp add: parseIPv4_def numeral_eq_Suc)
qed

lemma v4_String_no_slash:
  assumes "length bs = 4" "c \<in> set (v4_String bs)"
  shows "c \<noteq> CHR ''/''"
proof -
  obtain x y z w where bs: "bs = [x, y, z, w]"
    using assms by (auto simp: eval_nat_numeral length_Suc_conv)
  have "is_dec c \<or> c = CHR ''.''"
    using assms(2) by (auto simp: bs v4_String_def dest: is_dec_digit_set)
  then show ?thesis by (auto simp: is_dec_def)
qed

lemma takeWhile_sep:
  "(\<And>c. c \<in> set s \<Longrightarrow> P c) \<Longrightarrow> \<not> P d \<Longrightarrow>
   takeWhile P (s @ d # r) = s \<and> dropWhile P (s @ d # r) = d # r"
  by (simp add: takeWhile_append2 dropWhile_append2)

lemma CIDRMask_cidr [simp]:
  "l \<le> 8 * k \<Longrightarrow> k = 4 \<or> k = 16 \<Longrightarrow> CIDRMask (int l) (8 * int k) = cidr_bytes k l"
  by (auto simp: CIDRMask_def)

lemma simpleMaskLength_cidr [simp]:
  "l \<le> 8 * k \<Longrightarrow> simpleMaskLength (cidr_bytes k l) = int l"
  by (simp add: simpleMaskLength_def simpleMaskLength_cidr_from)

lemma Mask_Size_cidr [simp]:
  "l \<le> 8 * k \<Longrightarrow> Mask_Size (cidr_bytes k l) = (int l, 8 * int k)"
  by (simp add: Mask_Size_def)

lemma To4_4 [simp]: "length ip = 4 \<Longrightarrow> To4 ip = ip"
  by (simp add: To4_def)

lemma length_v4InV6Prefix [simp]: "length v4InV6Prefix = 12"
  by (simp add: v4InV6Prefix_def)

lemma To4_v4InV6 [simp]: "length ip = 4 \<Longrightarrow> To4 (v4InV6Prefix @ ip) = ip"
  by (simp add: To4_def)

lemma IPNet_String_v4:
  assumes "l \<le> 32"
  shows "IPNet_String (mknet 4 a l) = v4_String (to_be 4 a) @ ''/'' @ FormatUint 10 l"
proof -
  have m: "CIDRMask (int l) (8 * int 4) = cidr_bytes 4 l" using assms by (intro CIDRMask_cidr) auto
  have ne: "to_be 4 a \<noteq> []" "cidr_bytes 4 l \<noteq> []"
    using length_to_be [of 4 a] length_cidr_bytes [of 4 l] by fastforce+
  show ?thesis using assms ne
    by (simp add: IPNet_String_def networkNumberAndMask_def mknet_def m IP_String_def
        del: length_greater_0_conv of_nat_numeral)
qed

lemma ParseCIDR_IPNet_String_v4:
  assumes "a < 2 ^ 32" "l \<le> 32" "2 ^ (32 - l) dvd a"
  shows "ParseCIDR (IPNet_String (mknet 4 a l)) = Inr (v4InV6Prefix @ to_be 4 a, mknet 4 a l)"
proof -
  let ?s = "v4_String (to_be 4 a)"
  have split: "takeWhile (\<lambda>c. c \<noteq> CHR ''/'') (?s @ CHR ''/'' # FormatUint 10 l) = ?s \<and>
      dropWhile (\<lambda>c. c \<noteq> CHR ''/'') (?s @ CHR ''/'' # FormatUint 10 l) = CHR ''/'' # FormatUint 10 l"
    by (rule takeWhile_sep) (auto dest: v4_String_no_slash [rotated])
  have p: "parseIPv4 ?s = v4InV6Prefix @ to_be 4 a" by (simp add: parseIPv4_v4_String)
  have d: "dtoi (FormatUint 10 l) = (l, length (FormatUint 10 l), True)"
    using dtoi_FormatUint [of l "[]"] assms(2) by (simp add: big_def)
  have m: "CIDRMask (int l) 32 = cidr_bytes 4 l"
    using CIDRMask_cidr [of l 4] assms by simp
  have "map2 (AND) (to_be 4 a) (cidr_bytes 4 l) = to_be 4 a"
    using mask_to_be [of l 4 a] assms by (simp add: dvd_imp_mod_0)
  then have im: "IP_Mask (v4InV6Prefix @ to_be 4 a) (cidr_bytes 4 l) = to_be 4 a"
    by (simp add: IP_Mask_def)
  have "v4InV6Prefix \<noteq> []" by (simp add: v4InV6Prefix_def)
  moreover have s: "IPNet_String (mknet 4 a l) = ?s @ CHR ''/'' # FormatUint 10 l"
    using assms(2) by (simp add: IPNet_String_v4)
  ultimately show ?thesis
    using assms(2) unfolding ParseCIDR_def s by (simp add: split p d m im mknet_def)
qed

lemma ParseIP_v4_String:
  assumes "length p = 4"
  shows "ParseIP (v4_String p) = v4InV6Prefix @ p"
proof -
  obtain b bs where p: "p = b # bs" "bs \<noteq> []"
    using assms by (cases p; cases "tl p") auto
  have "v4_String p = FormatUint 10 (unat b) @ CHR ''.'' # join ''.'' (map (\<lambda>b. FormatUint 10 (unat b)) bs)"
    using p by (cases bs) (simp_all add: v4_String_def)
  moreover have "\<And>x. x \<in> set (FormatUint 10 (unat b)) \<Longrightarrow> x \<noteq> CHR ''.'' \<and> x \<noteq> CHR '':''"
    using is_dec_digit_set by fastforce
  ultimately have "dropWhile (\<lambda>c. c \<noteq> CHR ''.'' \<and> c \<noteq> CHR '':'') (v4_String p) =
      CHR ''.'' # join ''.'' (map (\<lambda>b. FormatUint 10 (unat b)) bs)"
    by (simp add: dropWhile_append2)
  then show ?thesis using assms by (simp add: ParseIP_def parseIPv4_v4_String)
qed

subsection \<open>Evaluation\<close>

lemma digit_chars [go_simps]:
  "digit_char 0 = CHR ''0''" "digit_char (Suc 0) = CHR ''1''" "digit_char 1 = CHR ''1''"
  "digit_char 2 = CHR ''2''" "digit_char 3 = CHR ''3''" "digit_char 4 = CHR ''4''"
  "digit_char 5 = CHR ''5''" "digit_char 6 = CHR ''6''" "digit_char 7 = CHR ''7''"
  "digit_char 8 = CHR ''8''" "digit_char 9 = CHR ''9''" "digit_char 10 = CHR ''a''"
  "digit_char 11 = CHR ''b''" "digit_char 12 = CHR ''c''" "digit_char 13 = CHR ''d''"
  "digit_char 14 = CHR ''e''" "digit_char 15 = CHR ''f''"
  by code_simp+

lemma to_be_4 [go_simps]:
  "to_be 4 a = [of_nat (a div 16777216), of_nat (a div 65536), of_nat (a div 256), of_nat a]"
proof -
  have e: "(4::nat) = Suc (Suc (Suc (Suc 0)))" by simp
  show ?thesis unfolding e by simp
qed

lemma eval_IPNet_String_v4 [go_simps]:
  "l \<le> 32 \<Longrightarrow> IPNet_String (mknet 4 a l) = v4_String (to_be 4 a) @ ''/'' @ FormatUint 10 l"
  by (rule IPNet_String_v4)

lemmas eval_strings [go_simps] = v4_String_def FormatUint.simps

end
