(* ===== verification/Api.thy ===== *)
theory Api
  imports GoNet
begin

text \<open>
  The messages of the control plane (\<open>controlplane/pkg/apis\<close>) and their
  validation: connection contexts, local and remote connections and mechanisms,
  cross connects, requests and the registry messages. A nil message pointer is
  \<open>None\<close>; a validator returns \<open>None\<close> for a nil error. A repeated field is a list,
  with nil and the empty slice identified. A \<open>oneof\<close> wrapper always carries a
  message: no code path of the program builds one around nil, and decoding
  never does.
\<close>

subsection \<open>Connection context\<close>

datatype IpFamily_Family = IPV4 | IPV6

record IpNeighbor =
  Ip :: string
  HardwareAddress :: string

record Route =
  Route_Prefix :: string

record ExtraPrefixRequest =
  AddrFamily :: "IpFamily_Family option"
  PrefixLen :: "32 word"
  RequiredNumber :: "32 word"
  RequestedNumber :: "32 word"

record ConnectionContext =
  SrcIpAddr :: string
  DstIpAddr :: string
  SrcIpRequired :: bool
  DstIpRequired :: bool
  Routes :: "Route list"
  ExcludedPrefixes :: "string list"
  IpNeighbors :: "IpNeighbor list"
  ExtraPrefixRequests :: "ExtraPrefixRequest list"
  ExtraPrefixes :: "string list"

text \<open>The zero value of the context message.\<close>

definition empty_context :: ConnectionContext where
  "empty_context = \<lparr>SrcIpAddr = '''', DstIpAddr = '''', SrcIpRequired = False,
     DstIpRequired = False, Routes = [], ExcludedPrefixes = [], IpNeighbors = [],
     ExtraPrefixRequests = [], ExtraPrefixes = []\<rparr>"

fun routes_error :: "Route list \<Rightarrow> error option" where
  "routes_error [] = None"
| "routes_error (r # rs) =
     (if Route_Prefix r = '''' then
        Some (Errorf ''ConnectionContext.Route.Prefix is required and cannot be empty/nil: %v'')
      else case ParseCIDR (Route_Prefix r) of
        Inl _ \<Rightarrow> Some (Errorf ''ConnectionContext.Route.Prefix should be a valid CIDR address: %v'')
      | Inr _ \<Rightarrow> routes_error rs)"

fun neighbors_error :: "IpNeighbor list \<Rightarrow> error option" where
  "neighbors_error [] = None"
| "neighbors_error (n # ns) =
     (if Ip n = '''' then
        Some (Errorf ''ConnectionContext.IpNeighbors.Ip is required and cannot be empty/nil: %v'')
      else neighbors_error ns)"

definition Context_IsComplete :: "ConnectionContext option \<Rightarrow> error option" where
  "Context_IsComplete c =
     (case c of
        None \<Rightarrow> Some (Errorf ''ConnectionContext should not be nil...'')
      | Some ctx \<Rightarrow>
          (case routes_error (Routes ctx) of
             Some e \<Rightarrow> Some e
           | None \<Rightarrow> neighbors_error (IpNeighbors ctx)))"

definition MeetsRequirements ::
    "ConnectionContext option \<Rightarrow> ConnectionContext option \<Rightarrow> error option" where
  "MeetsRequirements c original =
     (case c of
        None \<Rightarrow> Some (Errorf ''ConnectionContext should not be nil...'')
      | Some ctx \<Rightarrow>
          (case Context_IsComplete c of
             Some e \<Rightarrow> Some e
           | None \<Rightarrow>
               (let dstReq = (case original of None \<Rightarrow> False | Some o1 \<Rightarrow> DstIpRequired o1);
                    srcReq = (case original of None \<Rightarrow> False | Some o1 \<Rightarrow> SrcIpRequired o1)
                in if dstReq \<and> DstIpAddr ctx = '''' then
                     Some (Errorf ''ConnectionContext.DestIp is required and cannot be empty/nil: %v'')
                   else if srcReq \<and> SrcIpAddr ctx = '''' then
                     Some (Errorf ''ConnectionContext.SrcIp is required cannot be empty/nil: %v'')
                   else None)))"

definition ExtraPrefixRequest_IsValid :: "ExtraPrefixRequest option \<Rightarrow> error option" where
  "ExtraPrefixRequest_IsValid c =
     (case c of
        None \<Rightarrow> Some (Errorf ''ExtraPrefixRequest should not be nil...'')
      | Some r \<Rightarrow>
          if RequiredNumber r < 1 then
            Some (Errorf ''ExtraPrefixRequest.RequiredNumber should be positive number >=1: %v'')
          else if RequestedNumber r < 1 then
            Some (Errorf ''ExtraPrefixRequest.RequestedNumber should be positive number >=1: %v'')
          else if RequiredNumber r > RequestedNumber r then
            Some (Errorf ''ExtraPrefixRequest.RequiredNumber should be less or equal to ExtraPrefixRequest.RequestedNumber >=1: %v'')
          else if PrefixLen r < 1 then
            Some (Errorf ''ExtraPrefixRequest.PrefixLen should be positive number >=1: %v'')
          else (case AddrFamily r of
              None \<Rightarrow> Some (Errorf ''ExtraPrefixRequest.AfFamily should not be nil...'')
            | Some IPV4 \<Rightarrow>
                (if PrefixLen r > 32 then
                   Some (Errorf ''ExtraPrefixRequest.PrefixLen should be positive number >=1 and <=32 for IPv4 %v'')
                 else None)
            | Some IPV6 \<Rightarrow>
                (if PrefixLen r > 128 then
                   Some (Errorf ''ExtraPrefixRequest.PrefixLen should be positive number >=1 and <=32 for IPv6 %v'')
                 else None)))"

subsection \<open>Local connections\<close>

datatype State = UP | DOWN

datatype LocalMechanismType =
    DEFAULT_INTERFACE | KERNEL_INTERFACE | VHOST_INTERFACE | MEM_INTERFACE
  | SRIOV_INTERFACE | HW_INTERFACE

text \<open>A mechanism: its type and its parameter map (\<open>None\<close>: a nil map).\<close>

record LocalMechanism =
  LM_Type :: LocalMechanismType
  LM_Parameters :: "(string, string) gomap option"

record LocalConnection =
  L_Id :: string
  L_NetworkService :: string
  L_Mechanism :: "LocalMechanism option"
  L_Context :: "ConnectionContext option"
  L_Labels :: "(string, string) gomap"
  L_State :: State

definition NetNsInodeKey :: string where "NetNsInodeKey = ''netnsInode''"
definition InterfaceNameKey :: string where "InterfaceNameKey = ''name''"
definition InterfaceDescriptionKey :: string where "InterfaceDescriptionKey = ''description''"
definition LinuxIfMaxLength :: nat where "LinuxIfMaxLength = 15"
definition SocketFilename :: string where "SocketFilename = ''socketfile''"
definition Workspace :: string where "Workspace = ''workspace''"
definition MemifSocket :: string where "MemifSocket = ''memif.sock''"

text \<open>\<open>strconv.ParseUint(s, 10, bits)\<close>.\<close>

definition ParseUint :: "string \<Rightarrow> nat \<Rightarrow> nat result" where
  "ParseUint s bits =
     (if s = [] \<or> \<not> list_all is_dec s then Inl (Errorf ''invalid syntax'')
      else (let n = foldl (\<lambda>n c. n * 10 + dec_val c) 0 s in
            if n \<ge> 2 ^ bits then Inl (Errorf ''value out of range'') else Inr n))"

definition LocalMechanism_IsValid :: "LocalMechanism option \<Rightarrow> error option" where
  "LocalMechanism_IsValid m0 =
     (case m0 of
        None \<Rightarrow> Some (Errorf ''Mechanism cannot be nil'')
      | Some m \<Rightarrow>
          (case LM_Parameters m of
             None \<Rightarrow> Some (Errorf ''Mechanism.Parameters cannot be nil: %v'')
           | Some ps \<Rightarrow>
               (let kernel =
                  (if LM_Type m = KERNEL_INTERFACE then
                     (case map_of ps NetNsInodeKey of
                        None \<Rightarrow> Some (Errorf ''Mechanism.Type %s requires Mechanism.Parameters[%s] for network namespace'')
                      | Some inode \<Rightarrow>
                          (case ParseUint inode 64 of
                             Inl _ \<Rightarrow> Some (Errorf ''Mechanism.Parameters[%s] must be an unsigned int, instead was: %s: %v'')
                           | Inr _ \<Rightarrow>
                               (case map_of ps InterfaceNameKey of
                                  None \<Rightarrow> Some (Errorf ''Mechanism.Type %s Mechanism.Parameters[%s] cannot be empty'')
                                | Some iface \<Rightarrow>
                                    (if length iface > LinuxIfMaxLength then
                                       Some (Errorf ''Mechanism.Type %s Mechanism.Parameters[%s]: %s may not exceed %d characters'')
                                     else None))))
                   else None)
                in case kernel of
                     Some e \<Rightarrow> Some e
                   | None \<Rightarrow>
                       (if LM_Type m = MEM_INTERFACE \<and> map_of ps InterfaceNameKey = None then
                          Some (Errorf ''Mechanism.Type %s Mechanism.Parameters[%s] cannot be empty'')
                        else None))))"

definition LocalConnection_IsValid :: "LocalConnection option \<Rightarrow> error option" where
  "LocalConnection_IsValid c0 =
     (case c0 of
        None \<Rightarrow> Some (Errorf ''Connection cannot be nil'')
      | Some c \<Rightarrow>
          if L_NetworkService c = '''' then
            Some (Errorf ''Connection.NetworkService cannot be empty: %v'')
          else if L_Mechanism c \<noteq> None \<and> LocalMechanism_IsValid (L_Mechanism c) \<noteq> None then
            Some (Errorf ''Invalid Mechanism in %v: %s'')
          else None)"

text \<open>
  \<open>UpdateContext\<close> of a local connection: the connection after the call and the
  error it returns. The new context stays in place also when it is rejected.
\<close>

definition LocalConnection_UpdateContext ::
    "LocalConnection \<Rightarrow> ConnectionContext option \<Rightarrow> LocalConnection \<times> error option" where
  "LocalConnection_UpdateContext c newContext =
     (let oldCtx = L_Context c; c' = c\<lparr>L_Context := newContext\<rparr> in
      case LocalConnection_IsValid (Some c') of
        Some e \<Rightarrow> (c', Some e)
      | None \<Rightarrow> (c', MeetsRequirements (L_Context c') oldCtx))"

definition LocalConnection_IsComplete :: "LocalConnection option \<Rightarrow> error option" where
  "LocalConnection_IsComplete c0 =
     (case LocalConnection_IsValid c0 of
        Some e \<Rightarrow> Some e
      | None \<Rightarrow>
          (case c0 of
             None \<Rightarrow> None
           | Some c \<Rightarrow>
               if L_Id c = '''' then Some (Errorf ''Connection.Id cannot be empty: %v'')
               else Context_IsComplete (L_Context c)))"

text \<open>The parameter getters of a local mechanism: the empty string when absent.\<close>

definition LM_parameter :: "LocalMechanism option \<Rightarrow> string \<Rightarrow> string" where
  "LM_parameter m k =
     (case m of
        None \<Rightarrow> ''''
      | Some m \<Rightarrow> (case LM_Parameters m of
                     None \<Rightarrow> ''''
                   | Some ps \<Rightarrow> (case map_of ps k of None \<Rightarrow> '''' | Some v \<Rightarrow> v)))"

definition GetSocketFilename :: "LocalMechanism option \<Rightarrow> string" where
  "GetSocketFilename m = LM_parameter m SocketFilename"

definition GetInterfaceName :: "LocalMechanism option \<Rightarrow> string" where
  "GetInterfaceName m = LM_parameter m InterfaceNameKey"

definition GetNetNsInode :: "LocalMechanism option \<Rightarrow> string" where
  "GetNetNsInode m = LM_parameter m NetNsInodeKey"

definition GetDescription :: "LocalMechanism option \<Rightarrow> string" where
  "GetDescription m = LM_parameter m InterfaceDescriptionKey"

definition GetWorkspace :: "LocalMechanism option \<Rightarrow> string" where
  "GetWorkspace m = LM_parameter m Workspace"

definition IsMemif :: "LocalMechanism option \<Rightarrow> bool" where
  "IsMemif m = (case m of None \<Rightarrow> False | Some m \<Rightarrow> LM_Type m = MEM_INTERFACE)"

definition IsKernelInterface :: "LocalMechanism option \<Rightarrow> bool" where
  "IsKernelInterface m = (case m of None \<Rightarrow> False | Some m \<Rightarrow> LM_Type m = KERNEL_INTERFACE)"

subsection \<open>Remote connections\<close>

datatype RemoteMechanismType =
    NONE | VXLAN | VXLAN_GPE | GRE | SRV6 | MPLSoEthernet | MPLSoGRE | MPLSoUDP

record RemoteMechanism =
  RM_Type :: RemoteMechanismType
  RM_Parameters :: "(string, string) gomap option"

record RemoteConnection =
  R_Id :: string
  R_NetworkService :: string
  R_Mechanism :: "RemoteMechanism option"
  R_Context :: "ConnectionContext option"
  R_Labels :: "(string, string) gomap"
  R_SourceNetworkServiceManagerName :: string
  R_DestinationNetworkServiceManagerName :: string
  R_NetworkServiceEndpointName :: string
  R_State :: State

definition VXLANSrcIP :: string where "VXLANSrcIP = ''src_ip''"
definition VXLANDstIP :: string where "VXLANDstIP = ''dst_ip''"
definition VXLANVNI :: string where "VXLANVNI = ''vni''"

definition getIPParameter :: "RemoteMechanism option \<Rightarrow> string \<Rightarrow> string result" where
  "getIPParameter m0 name =
     (case m0 of
        None \<Rightarrow> Inl (Errorf ''Mechanism cannot be nil'')
      | Some m \<Rightarrow>
          (case RM_Parameters m of
             None \<Rightarrow> Inl (Errorf ''Mechanism.Parameters cannot be nil: %v'')
           | Some ps \<Rightarrow>
               (case map_of ps name of
                  None \<Rightarrow> Inl (Errorf ''Mechanism.Type %s requires Mechanism.Parameters[%s] for the VXLAN tunnel'')
                | Some ip \<Rightarrow>
                    (if ParseIP ip = [] then
                       Inl (Errorf ''Mechanism.Parameters[%s] must be a valid IPv4 or IPv6 address, instead was: %s: %v'')
                     else Inr ip))))"

definition SrcIP :: "RemoteMechanism option \<Rightarrow> string result" where
  "SrcIP m = getIPParameter m VXLANSrcIP"

definition DstIP :: "RemoteMechanism option \<Rightarrow> string result" where
  "DstIP m = getIPParameter m VXLANDstIP"

definition VNI :: "RemoteMechanism option \<Rightarrow> (32 word) result" where
  "VNI m0 =
     (case m0 of
        None \<Rightarrow> Inl (Errorf ''Mechanism cannot be nil'')
      | Some m \<Rightarrow>
          (case RM_Parameters m of
             None \<Rightarrow> Inl (Errorf ''Mechanism.Parameters cannot be nil: %v'')
           | Some ps \<Rightarrow>
               (case map_of ps VXLANVNI of
                  None \<Rightarrow> Inl (Errorf ''Mechanism.Type %s requires Mechanism.Parameters[%s]'')
                | Some vxlanvni \<Rightarrow>
                    (case ParseUint vxlanvni 24 of
                       Inl _ \<Rightarrow> Inl (Errorf ''Mechanism.Parameters[%s] must be a valid 24-bit unsigned integer, instead was: %s: %v'')
                     | Inr vni \<Rightarrow> Inr (of_nat vni)))))"

definition RemoteMechanism_isValid :: "RemoteMechanism option \<Rightarrow> error option" where
  "RemoteMechanism_isValid m0 =
     (case m0 of
        None \<Rightarrow> Some (Errorf ''Mechanism cannot be nil'')
      | Some m \<Rightarrow>
          (case RM_Parameters m of
             None \<Rightarrow> Some (Errorf ''Mechanism.Parameters cannot be nil: %v'')
           | Some _ \<Rightarrow>
               (let e = Errorf ''Mechanism.Type %s requires Mechanism.Parameters[%s] for VXLAN tunnel, caused by: %+v'' in
                if RM_Type m = VXLAN then
                  (case SrcIP m0 of
                     Inl _ \<Rightarrow> Some e
                   | Inr _ \<Rightarrow>
                       (case DstIP m0 of
                          Inl _ \<Rightarrow> Some e
                        | Inr _ \<Rightarrow>
                            (case VNI m0 of Inl _ \<Rightarrow> Some e | Inr _ \<Rightarrow> None)))
                else None)))"

definition RemoteConnection_IsValid :: "RemoteConnection option \<Rightarrow> error option" where
  "RemoteConnection_IsValid c0 =
     (case c0 of
        None \<Rightarrow> Some (Errorf ''Connection cannot be nil'')
      | Some c \<Rightarrow>
          if R_NetworkService c = '''' then
            Some (Errorf ''Connection.NetworkService cannot be empty: %v'')
          else if R_Mechanism c \<noteq> None \<and> RemoteMechanism_isValid (R_Mechanism c) \<noteq> None then
            Some (Errorf ''Invalid Mechanism in %v: %s'')
          else None)"

text \<open>
  \<open>UpdateContext\<close> of a remote connection puts the old context back when the
  connection is invalid, and keeps the new one when only the requirements fail.
\<close>

definition RemoteConnection_UpdateContext ::
    "RemoteConnection \<Rightarrow> ConnectionContext option \<Rightarrow> RemoteConnection \<times> error option" where
  "RemoteConnection_UpdateContext c newContext =
     (let oldCtx = R_Context c; c' = c\<lparr>R_Context := newContext\<rparr> in
      case RemoteConnection_IsValid (Some c') of
        Some e \<Rightarrow> (c'\<lparr>R_Context := oldCtx\<rparr>, Some e)
      | None \<Rightarrow> (c', MeetsRequirements (R_Context c') oldCtx))"

definition RemoteConnection_IsComplete :: "RemoteConnection option \<Rightarrow> error option" where
  "RemoteConnection_IsComplete c0 =
     (case RemoteConnection_IsValid c0 of
        Some e \<Rightarrow> Some e
      | None \<Rightarrow>
          (case c0 of
             None \<Rightarrow> None
           | Some c \<Rightarrow>
               if R_Id c = '''' then Some (Errorf ''Connection.Id cannot be empty: %v'')
               else if R_Context c = None then Some (Errorf ''Connection.Context cannot be nil: %v'')
               else None))"

subsection \<open>The unified connection interface and cross connects\<close>

text \<open>\<open>nsm.NSMConnection\<close>: a local or a remote connection.\<close>

datatype NSMConnection = Local LocalConnection | Remote RemoteConnection

fun GetId :: "NSMConnection \<Rightarrow> string" where
  "GetId (Local c) = L_Id c"
| "GetId (Remote c) = R_Id c"

fun GetNetworkService :: "NSMConnection \<Rightarrow> string" where
  "GetNetworkService (Local c) = L_NetworkService c"
| "GetNetworkService (Remote c) = R_NetworkService c"

fun GetContext :: "NSMConnection \<Rightarrow> ConnectionContext option" where
  "GetContext (Local c) = L_Context c"
| "GetContext (Remote c) = R_Context c"

fun GetLabels :: "NSMConnection \<Rightarrow> (string, string) gomap" where
  "GetLabels (Local c) = L_Labels c"
| "GetLabels (Remote c) = R_Labels c"

fun GetNetworkServiceEndpointName :: "NSMConnection \<Rightarrow> string" where
  "GetNetworkServiceEndpointName (Local c) = ''''"
| "GetNetworkServiceEndpointName (Remote c) = R_NetworkServiceEndpointName c"

fun SetId :: "NSMConnection \<Rightarrow> string \<Rightarrow> NSMConnection" where
  "SetId (Local c) i = Local (c\<lparr>L_Id := i\<rparr>)"
| "SetId (Remote c) i = Remote (c\<lparr>R_Id := i\<rparr>)"

fun SetNetworkServiceName :: "NSMConnection \<Rightarrow> string \<Rightarrow> NSMConnection" where
  "SetNetworkServiceName (Local c) s = Local (c\<lparr>L_NetworkService := s\<rparr>)"
| "SetNetworkServiceName (Remote c) s = Remote (c\<lparr>R_NetworkService := s\<rparr>)"

fun SetContext :: "NSMConnection \<Rightarrow> ConnectionContext option \<Rightarrow> NSMConnection" where
  "SetContext (Local c) x = Local (c\<lparr>L_Context := x\<rparr>)"
| "SetContext (Remote c) x = Remote (c\<lparr>R_Context := x\<rparr>)"

fun NSMConnection_IsValid :: "NSMConnection \<Rightarrow> error option" where
  "NSMConnection_IsValid (Local c) = LocalConnection_IsValid (Some c)"
| "NSMConnection_IsValid (Remote c) = RemoteConnection_IsValid (Some c)"

fun NSMConnection_IsComplete :: "NSMConnection \<Rightarrow> error option" where
  "NSMConnection_IsComplete (Local c) = LocalConnection_IsComplete (Some c)"
| "NSMConnection_IsComplete (Remote c) = RemoteConnection_IsComplete (Some c)"

fun UpdateContext ::
    "NSMConnection \<Rightarrow> ConnectionContext option \<Rightarrow> NSMConnection \<times> error option" where
  "UpdateContext (Local c) x = map_prod Local id (LocalConnection_UpdateContext c x)"
| "UpdateContext (Remote c) x = map_prod Remote id (RemoteConnection_UpdateContext c x)"

record CrossConnect =
  X_Id :: string
  X_Payload :: string
  X_Source :: "NSMConnection option"
  X_Destination :: "NSMConnection option"

fun as_local :: "NSMConnection option \<Rightarrow> LocalConnection option" where
  "as_local (Some (Local c)) = Some c"
| "as_local _ = None"

fun as_remote :: "NSMConnection option \<Rightarrow> RemoteConnection option" where
  "as_remote (Some (Remote c)) = Some c"
| "as_remote _ = None"

text \<open>The getters accept a nil cross connect.\<close>

definition XC_GetId :: "CrossConnect option \<Rightarrow> string" where
  "XC_GetId x = (case x of None \<Rightarrow> '''' | Some x \<Rightarrow> X_Id x)"

definition GetSource :: "CrossConnect option \<Rightarrow> NSMConnection option" where
  "GetSource x = (case x of None \<Rightarrow> None | Some x \<Rightarrow> X_Source x)"

definition GetDestination :: "CrossConnect option \<Rightarrow> NSMConnection option" where
  "GetDestination x = (case x of None \<Rightarrow> None | Some x \<Rightarrow> X_Destination x)"

definition GetLocalSource :: "CrossConnect option \<Rightarrow> LocalConnection option" where
  "GetLocalSource x = as_local (GetSource x)"

definition GetRemoteSource :: "CrossConnect option \<Rightarrow> RemoteConnection option" where
  "GetRemoteSource x = as_remote (GetSource x)"

definition GetLocalDestination :: "CrossConnect option \<Rightarrow> LocalConnection option" where
  "GetLocalDestination x = as_local (GetDestination x)"

definition GetRemoteDestination :: "CrossConnect option \<Rightarrow> RemoteConnection option" where
  "GetRemoteDestination x = as_remote (GetDestination x)"

definition CrossConnect_IsValid :: "CrossConnect option \<Rightarrow> error option" where
  "CrossConnect_IsValid c0 =
     (case c0 of
        None \<Rightarrow> Some (Errorf ''CrossConnect cannot be nil'')
      | Some c \<Rightarrow>
          if X_Id c = '''' then Some (Errorf ''CrossConnect.Id cannot be empty: %v'')
          else if GetSource c0 = None then
            Some (Errorf ''CrossConnect.Source cannot be nil: %v'')
          else if GetLocalSource c0 \<noteq> None \<and> LocalConnection_IsValid (GetLocalSource c0) \<noteq> None then
            Some (Errorf ''CrossConnect.Source %v invalid: %s'')
          else if GetRemoteSource c0 \<noteq> None \<and> RemoteConnection_IsValid (GetRemoteSource c0) \<noteq> None then
            Some (Errorf ''CrossConnect.Source %v invalid: %s'')
          else if GetDestination c0 = None then
            Some (Errorf ''CrossConnect.Destination cannot be nil: %v'')
          else if GetLocalDestination c0 \<noteq> None \<and> LocalConnection_IsValid (GetLocalDestination c0) \<noteq> None then
            Some (Errorf ''CrossConnect.Destination %v invalid: %s'')
          else if GetRemoteDestination c0 \<noteq> None \<and> RemoteConnection_IsValid (GetRemoteDestination c0) \<noteq> None then
            Some (Errorf ''CrossConnect.Destination %v invalid: %s'')
          else if X_Payload c = '''' then
            Some (Errorf ''CrossConnect.Payload cannot be empty: %v'')
          else None)"

definition CrossConnect_IsComplete :: "CrossConnect option \<Rightarrow> error option" where
  "CrossConnect_IsComplete c0 =
     (case CrossConnect_IsValid c0 of
        Some e \<Rightarrow> Some e
      | None \<Rightarrow>
          if GetLocalSource c0 \<noteq> None \<and> LocalConnection_IsComplete (GetLocalSource c0) \<noteq> None then
            Some (Errorf ''CrossConnect.Source %v invalid: %s'')
          else if GetRemoteSource c0 \<noteq> None \<and> RemoteConnection_IsComplete (GetRemoteSource c0) \<noteq> None then
            Some (Errorf ''CrossConnect.Source %v invalid: %s'')
          else if GetLocalDestination c0 \<noteq> None \<and> LocalConnection_IsComplete (GetLocalDestination c0) \<noteq> None then
            Some (Errorf ''CrossConnect.Destination %v invalid: %s'')
          else if GetRemoteDestination c0 \<noteq> None \<and> RemoteConnection_IsComplete (GetRemoteDestination c0) \<noteq> None then
            Some (Errorf ''CrossConnect.Destination %v invalid: %s'')
          else None)"

subsection \<open>Requests\<close>

record LocalRequest =
  LQ_Connection :: "LocalConnection option"
  LQ_MechanismPreferences :: "LocalMechanism list"

record RemoteRequest =
  RQ_Connection :: "RemoteConnection option"
  RQ_MechanismPreferences :: "RemoteMechanism list"

text \<open>\<open>nsm.NSMRequest\<close>: a local or a remote network service request.\<close>

datatype NSMRequest = LocalReq LocalRequest | RemoteReq RemoteRequest

fun LocalRequest_IsValid :: "LocalRequest option \<Rightarrow> error option" where
  "LocalRequest_IsValid None = Some (Errorf ''NetorkServiceRequest cannot be nil'')"
| "LocalRequest_IsValid (Some r) =
     (if LQ_Connection r = None then
        Some (Errorf ''NetworkServiceRequest.Connection cannot be nil %v'')
      else if LocalConnection_IsValid (LQ_Connection r) \<noteq> None then
        Some (Errorf ''NetworkServiceRequest.Connection is invalid: %s: %v'')
      else if LQ_MechanismPreferences r = [] then
        Some (Errorf ''NetworkServiceRequest.MechanismPreferences cannot be nil: %v'')
      else None)"

fun RemoteRequest_IsValid :: "RemoteRequest option \<Rightarrow> error option" where
  "RemoteRequest_IsValid None = Some (Errorf ''NetorkServiceRequest cannot be nil'')"
| "RemoteRequest_IsValid (Some r) =
     (if RQ_Connection r = None then
        Some (Errorf ''NetworkServiceRequest.Connection cannot be nil %v'')
      else if RemoteConnection_IsValid (RQ_Connection r) \<noteq> None then
        Some (Errorf ''NetworkServiceRequest.Connection is invalid: %s: %v'')
      else if RQ_MechanismPreferences r = [] then
        Some (Errorf ''NetworkServiceRequest.MechanismPreferences cannot be nil: %v'')
      else None)"

fun NSMRequest_IsValid :: "NSMRequest \<Rightarrow> error option" where
  "NSMRequest_IsValid (LocalReq r) = LocalRequest_IsValid (Some r)"
| "NSMRequest_IsValid (RemoteReq r) = RemoteRequest_IsValid (Some r)"

fun IsRemote :: "NSMRequest \<Rightarrow> bool" where
  "IsRemote (LocalReq r) = False"
| "IsRemote (RemoteReq r) = True"

fun GetConnectionId :: "NSMRequest \<Rightarrow> string" where
  "GetConnectionId (LocalReq r) = (case LQ_Connection r of None \<Rightarrow> '''' | Some c \<Rightarrow> L_Id c)"
| "GetConnectionId (RemoteReq r) = (case RQ_Connection r of None \<Rightarrow> '''' | Some c \<Rightarrow> R_Id c)"

text \<open>\<open>SetConnection\<close> asserts the kind of the connection; a mismatch panics.\<close>

fun SetConnection :: "NSMRequest \<Rightarrow> NSMConnection \<Rightarrow> NSMRequest result" where
  "SetConnection (LocalReq r) (Local c) = Inr (LocalReq (r\<lparr>LQ_Connection := Some c\<rparr>))"
| "SetConnection (RemoteReq r) (Remote c) = Inr (RemoteReq (r\<lparr>RQ_Connection := Some c\<rparr>))"
| "SetConnection _ _ = Inl (Panic ''interface conversion'')"

subsection \<open>Registry messages\<close>

record NetworkServiceEndpoint =
  NSE_NetworkServiceName :: string
  NSE_Payload :: string
  NSE_NetworkServiceManagerName :: string
  NSE_EndpointName :: string
  NSE_Labels :: "(string, string) gomap"
  NSE_State :: string

record Destination =
  DestinationSelector :: "(string, string) gomap"
  Weight :: "32 word"

record Match =
  SourceSelector :: "(string, string) gomap"
  Match_Routes :: "Destination list"

record NetworkService =
  NS_Name :: string
  NS_Payload :: string
  NS_Matches :: "Match list"

record NetworkServiceManager =
  NSM_Name :: string
  NSM_Url :: string
  NSM_State :: string

record NSERegistration =
  Reg_NetworkService :: "NetworkService option"
  Reg_NetworkServiceManager :: "NetworkServiceManager option"
  Reg_NetworkserviceEndpoint :: "NetworkServiceEndpoint option"

record FindNetworkServiceResponse =
  F_Payload :: string
  F_NetworkService :: "NetworkService option"
  F_NetworkServiceManagers :: "(string, NetworkServiceManager) gomap"
  F_NetworkServiceEndpoints :: "NetworkServiceEndpoint list"

end
