(* ===== verification/PrefixPool.thy ===== *)
theory PrefixPool
  imports Api
begin

unbundle bit_operations_syntax

text \<open>
  The prefix pool of \<open>controlplane/pkg/prefix_pool/prefixpool.go\<close>: splitting a
  list of CIDR prefixes to serve a request, merging released prefixes back, and
  the pool that keeps one record per connection. Prefixes are strings, as in
  the code. Go's map iteration order enters the merge as an argument
  (\<open>range_orders\<close>), so that the lemmas hold for every order.
\<close>

subsection \<open>Arithmetic on addresses\<close>

definition fromIP :: "net_IP \<Rightarrow> nat \<times> int" where
  "fromIP ip = (be_nat ip, if length ip = 4 then 32 else 128)"

text \<open>\<open>toIP\<close> indexes below zero when the value does not fit.\<close>

definition toIP :: "nat \<Rightarrow> int \<Rightarrow> net_IP result" where
  "toIP ipInt bits =
     (let ipBytes = big_Bytes ipInt; len = nat (bits div 8) in
      if length ipBytes > len then Inl (Panic ''index out of range'')
      else Inr (replicate (len - length ipBytes) 0 @ ipBytes))"

definition setNetIndexInIP :: "net_IP \<Rightarrow> nat \<Rightarrow> int \<Rightarrow> net_IP result" where
  "setNetIndexInIP ip num prefixLen =
     (case fromIP ip of (ipInt, totalBits) \<Rightarrow>
        if totalBits - prefixLen < 0 then Inl (Panic ''makeslice: len out of range'')
        else toIP (ipInt OR push_bit (nat (totalBits - prefixLen)) num) totalBits)"

definition clearNetIndexInIP :: "net_IP \<Rightarrow> int \<Rightarrow> net_IP result" where
  "clearNetIndexInIP ip prefixLen =
     (case fromIP ip of (ipInt, totalBits) \<Rightarrow>
        if totalBits - prefixLen < 0 then Inl (Panic ''negative bit index'')
        else toIP (unset_bit (nat (totalBits - prefixLen)) ipInt) totalBits)"

definition subnet :: "IPNet \<Rightarrow> int \<Rightarrow> IPNet result" where
  "subnet ipnet subnet_index =
     (case Mask_Size (Mask ipnet) of (parentLen, addrLen) \<Rightarrow>
        let newPrefixLen = parentLen + 1 in
        if newPrefixLen > addrLen then
          Inl (Errorf ''insufficient address space to extend prefix of %d'')
        else if subnet_index < 0 \<or> subnet_index > 2 then
          Inl (Errorf ''prefix extension does not accommodate a subnet numbered %d'')
        else (case setNetIndexInIP (IP ipnet) (nat subnet_index) newPrefixLen of
                Inl e \<Rightarrow> Inl e
              | Inr ip \<Rightarrow> Inr \<lparr>IP = ip, Mask = CIDRMask newPrefixLen addrLen\<rparr>))"

definition addressCount :: "string \<Rightarrow> (64 word) result" where
  "addressCount pr =
     (case ParseCIDR pr of
        Inl _ \<Rightarrow> Inl (Panic ''invalid memory address or nil pointer dereference'')
      | Inr (_, network) \<Rightarrow>
          (case Mask_Size (Mask network) of (prefixLen, bits) \<Rightarrow>
             Inr (push_bit (unat (word_of_int bits - word_of_int prefixLen :: 64 word)) 1)))"

fun AddressCount :: "string list \<Rightarrow> (64 word) result" where
  "AddressCount [] = Inr 0"
| "AddressCount (pr # prs) =
     (case addressCount pr of
        Inl e \<Rightarrow> Inl e
      | Inr n \<Rightarrow> (case AddressCount prs of Inl e \<Rightarrow> Inl e | Inr c \<Rightarrow> Inr (n + c)))"

definition AddressRange :: "IPNet \<Rightarrow> (net_IP \<times> net_IP) result" where
  "AddressRange network =
     (let firstIP = IP network in
      case Mask_Size (Mask network) of (prefixLen, bits) \<Rightarrow>
        if prefixLen = bits then Inr (firstIP, firstIP)
        else (case fromIP firstIP of (firstIPInt, bits2) \<Rightarrow>
                if bits2 - prefixLen < 0 then Inl (Panic ''makeslice: len out of range'')
                else (let lastIPInt = (2 ^ nat (bits2 - prefixLen) - 1) OR firstIPInt
                      in case toIP lastIPInt bits2 of
                           Inl e \<Rightarrow> Inl e
                         | Inr lastIP \<Rightarrow> Inr (firstIP, lastIP))))"

text \<open>The byte loop of \<open>IncrementIP\<close>, from the last byte towards the first.\<close>

fun increment_bytes :: "byte list \<Rightarrow> byte list \<times> bool" where
  "increment_bytes [] = ([], True)"
| "increment_bytes (b # bs) =
     (case increment_bytes bs of (bs', carry) \<Rightarrow>
        if carry then ((b + 1) # bs', b + 1 = 0) else (b # bs', False))"

definition IncrementIP :: "net_IP \<Rightarrow> IPNet \<Rightarrow> net_IP result" where
  "IncrementIP sourceIp ipNet =
     (let ip = fst (increment_bytes sourceIp) in
      if \<not> Contains ipNet ip then Inl (Errorf ''Overflowed CIDR while incrementing IP'')
      else Inr ip)"

subsection \<open>Extracting one prefix\<close>

text \<open>
  The scan over the list: \<open>Inl i\<close> when entry \<open>i\<close> has the wanted length, otherwise
  the longest shorter prefix seen and its index.
\<close>

fun scan_prefixes :: "32 word \<Rightarrow> nat \<Rightarrow> int \<Rightarrow> nat option \<Rightarrow> string list \<Rightarrow> nat + (int \<times> nat option)" where
  "scan_prefixes prefixLen idx mx mi [] = Inr (mx, mi)"
| "scan_prefixes prefixLen idx mx mi (prefix # ps) =
     (case ParseCIDR prefix of
        Inl _ \<Rightarrow> scan_prefixes prefixLen (Suc idx) mx mi ps
      | Inr (_, netip) \<Rightarrow>
          (let parentLen = fst (Mask_Size (Mask netip)) in
           if prefixLen = word_of_int parentLen then Inl idx
           else if word_of_int parentLen < prefixLen \<and> (parentLen > mx \<or> mx = 0)
           then scan_prefixes prefixLen (Suc idx) parentLen (Some idx) ps
           else scan_prefixes prefixLen (Suc idx) mx mi ps))"

definition Reverse :: "'a list \<Rightarrow> 'a list" where
  "Reverse values = map (\<lambda>i. values ! (length values - 1 - i)) [0..<length values]"

text \<open>
  The split loop: halve the root until it has the wanted length, collecting the
  right halves. The prefix length grows in every round and is bounded by the
  length of the address.
\<close>

function split_root :: "32 word \<Rightarrow> IPNet \<Rightarrow> string list \<Rightarrow> (IPNet \<times> string list) result" where
  "split_root prefixLen root right_parts =
     (if word_of_int (fst (Mask_Size (Mask root))) = prefixLen then Inr (root, right_parts)
      else (case subnet root 0 of
              Inl e \<Rightarrow> Inl e
            | Inr sub1 \<Rightarrow>
                (case subnet root 1 of
                   Inl e \<Rightarrow> Inl e
                 | Inr sub2 \<Rightarrow>
                     split_root prefixLen sub1 (right_parts @ [IPNet_String sub2]))))"
  by auto
termination
proof (relation "measure (\<lambda>(_, n, _). case Mask_Size (Mask n) of (l, a) \<Rightarrow> nat (a + 1 - l))")
  fix prefixLen root right_parts sub1 sub2
  assume s: "subnet root 0 = Inr sub1"
  obtain l a where la: "Mask_Size (Mask root) = (l, a)" by fastforce
  have le: "l + 1 \<le> a" and m: "Mask sub1 = CIDRMask (l + 1) a"
    using s la by (auto simp: subnet_def Let_def split: if_splits sum.splits)
  have pos: "0 \<le> l"
  proof -
    have "simpleMaskLength_from n vs \<ge> -1" for n vs
      by (induction n vs rule: simpleMaskLength_from.induct) (auto split: prod.splits)
    then have "simpleMaskLength (Mask root) \<ge> -1" by (simp add: simpleMaskLength_def)
    then show ?thesis using la
      by (cases "simpleMaskLength (Mask root) = -1") (simp_all add: Mask_Size_def Let_def)
  qed
  have "case Mask_Size (Mask sub1) of (l', a') \<Rightarrow> nat (a' + 1 - l') < nat (a + 1 - l)"
  proof (cases "a = 32 \<or> a = 128")
    case True
    then obtain k where k: "a = 8 * int k" "k = 4 \<or> k = 16" by fastforce
    have "Mask sub1 = cidr_bytes k (nat (l + 1))" and "nat (l + 1) \<le> 8 * k"
      using m k le pos CIDRMask_cidr [of "nat (l + 1)" k] by auto
    then show ?thesis using k le pos by simp
  next
    case False
    then have "Mask sub1 = []" using m by (simp add: CIDRMask_def)
    then have "Mask_Size (Mask sub1) = (0, 0)" by (simp add: Mask_Size_def simpleMaskLength_def)
    then show ?thesis using le by simp
  qed
  then show "((prefixLen, sub1, right_parts @ [IPNet_String sub2]), prefixLen, root, right_parts)
      \<in> measure (\<lambda>(_, n, _). case Mask_Size (Mask n) of (l, a) \<Rightarrow> nat (a + 1 - l))"
    by (simp add: la split: prod.splits)
qed simp

declare split_root.simps [simp del]

definition ExtractPrefix :: "string list \<Rightarrow> 32 word \<Rightarrow> (string \<times> string list) result" where
  "ExtractPrefix prefixes prefixLen =
     (case scan_prefixes prefixLen 0 0 None prefixes of
        Inl idx \<Rightarrow> Inr (prefixes ! idx, take idx prefixes @ drop (Suc idx) prefixes)
      | Inr (_, None) \<Rightarrow> Inl (Errorf ''Failed to find room to have prefix len %d at %v'')
      | Inr (_, Some max_prefix_idx) \<Rightarrow>
          (case ParseCIDR (prefixes ! max_prefix_idx) of
             Inl _ \<Rightarrow> Inl (Panic ''invalid memory address or nil pointer dereference'')
           | Inr (_, rootCIDRNet) \<Rightarrow>
               (case split_root prefixLen rootCIDRNet [] of
                  Inl e \<Rightarrow> Inl e
                | Inr (root, right_parts) \<Rightarrow>
                    Inr (IPNet_String root,
                         take max_prefix_idx prefixes @ Reverse right_parts @
                           drop (Suc max_prefix_idx) prefixes))))"

subsection \<open>Extracting the prefixes of a request\<close>

text \<open>First failing request of the validation loop.\<close>

fun requests_error :: "ExtraPrefixRequest list \<Rightarrow> error option" where
  "requests_error [] = None"
| "requests_error (r # rs) =
     (case ExtraPrefixRequest_IsValid (Some r) of Some e \<Rightarrow> Some e | None \<Rightarrow> requests_error rs)"

text \<open>The loops over one request: required prefixes must fit, further ones may.\<close>

fun extract_required :: "nat \<Rightarrow> 32 word \<Rightarrow> string list \<Rightarrow> string list \<Rightarrow> (string list \<times> string list) result" where
  "extract_required 0 prefixLen result newPrefixes = Inr (result, newPrefixes)"
| "extract_required (Suc n) prefixLen result newPrefixes =
     (case ExtractPrefix newPrefixes prefixLen of
        Inl e \<Rightarrow> Inl e
      | Inr (prefix, leftPrefixes) \<Rightarrow>
          extract_required n prefixLen (result @ [prefix]) leftPrefixes)"

fun extract_extra :: "nat \<Rightarrow> 32 word \<Rightarrow> string list \<Rightarrow> string list \<Rightarrow> string list \<times> string list" where
  "extract_extra 0 prefixLen result newPrefixes = (result, newPrefixes)"
| "extract_extra (Suc n) prefixLen result newPrefixes =
     (case ExtractPrefix newPrefixes prefixLen of
        Inl e \<Rightarrow> (result, newPrefixes)
      | Inr (prefix, leftPrefixes) \<Rightarrow>
          extract_extra n prefixLen (result @ [prefix]) leftPrefixes)"

fun extract_all_required :: "ExtraPrefixRequest list \<Rightarrow> string list \<Rightarrow> string list \<Rightarrow> (string list \<times> string list) result" where
  "extract_all_required [] result newPrefixes = Inr (result, newPrefixes)"
| "extract_all_required (r # rs) result newPrefixes =
     (case extract_required (unat (RequiredNumber r)) (PrefixLen r) result newPrefixes of
        Inl e \<Rightarrow> Inl e
      | Inr (result', newPrefixes') \<Rightarrow> extract_all_required rs result' newPrefixes')"

fun extract_all_extra :: "ExtraPrefixRequest list \<Rightarrow> string list \<Rightarrow> string list \<Rightarrow> string list \<times> string list" where
  "extract_all_extra [] result newPrefixes = (result, newPrefixes)"
| "extract_all_extra (r # rs) result newPrefixes =
     (case extract_extra (unat (RequestedNumber r) - unat (RequiredNumber r)) (PrefixLen r)
             result newPrefixes of
        (result', newPrefixes') \<Rightarrow> extract_all_extra rs result' newPrefixes')"

text \<open>The requested and the remaining prefixes.\<close>

definition ExtractPrefixes :: "string list \<Rightarrow> ExtraPrefixRequest list \<Rightarrow> (string list \<times> string list) result" where
  "ExtractPrefixes prefixes requests =
     (case requests_error requests of
        Some e \<Rightarrow> Inl e
      | None \<Rightarrow>
          (case extract_all_required requests [] prefixes of
             Inl e \<Rightarrow> Inl e
           | Inr (result1, newPrefixes1) \<Rightarrow>
               (case extract_all_extra requests result1 newPrefixes1 of
                  (result, newPrefixes) \<Rightarrow>
                    if result = [] then
                      Inl (Errorf ''Failed to extract prefixes, there is no available %v'')
                    else Inr (result, newPrefixes))))"

subsection \<open>Releasing prefixes\<close>

fun dedup_from :: "string list \<Rightarrow> string list \<Rightarrow> string list" where
  "dedup_from encountered [] = []"
| "dedup_from encountered (e # es) =
     (if e \<in> set encountered then dedup_from encountered es
      else e # dedup_from (e # encountered) es)"

definition removeDuplicates :: "string list \<Rightarrow> string list" where
  "removeDuplicates elements = dedup_from [] elements"

text \<open>
  The iteration orders of the three \<open>range\<close> loops over maps: over the levels in
  pass \<open>n\<close>, over the unmerged networks of a level, and over the final map.
\<close>

record range_orders =
  ord_levels :: "nat \<Rightarrow> (int \<times> IPNet list) list \<Rightarrow> (int \<times> IPNet list) list"
  ord_base :: "nat \<Rightarrow> int \<Rightarrow> (string \<times> IPNet) list \<Rightarrow> (string \<times> IPNet) list"
  ord_result :: "(int \<times> IPNet list) list \<Rightarrow> (int \<times> IPNet list) list"

definition orders_ok :: "range_orders \<Rightarrow> bool" where
  "orders_ok o1 \<longleftrightarrow> (\<forall>n. is_order (ord_levels o1 n)) \<and> (\<forall>n b. is_order (ord_base o1 n b))
     \<and> is_order (ord_result o1)"

text \<open>A missing key of a map of slices reads as the empty slice.\<close>

definition get_nets :: "(int, IPNet list) gomap \<Rightarrow> int \<Rightarrow> IPNet list" where
  "get_nets m b = (case map_of m b of None \<Rightarrow> [] | Some ns \<Rightarrow> ns)"

fun group_prefixes :: "string list \<Rightarrow> (int, IPNet list) gomap \<Rightarrow> (int, IPNet list) gomap result" where
  "group_prefixes [] m = Inr m"
| "group_prefixes (prefix # ps) m =
     (case ParseCIDR prefix of
        Inl e \<Rightarrow> Inl e
      | Inr (_, ipnet) \<Rightarrow>
          (let parentLen = fst (Mask_Size (Mask ipnet)) in
           group_prefixes ps (AList.update parentLen (get_nets m parentLen @ [ipnet]) m)))"

text \<open>
  The loop over the networks of one level: networks are keyed by their base
  address; a second network with the same base is joined with the first.
\<close>

fun merge_level :: "int \<Rightarrow> IPNet list \<Rightarrow> (string, IPNet) gomap \<Rightarrow> IPNet list \<Rightarrow> nat \<Rightarrow>
    ((string, IPNet) gomap \<times> IPNet list \<times> nat) result" where
  "merge_level basePrefix [] base parentPrefix changes = Inr (base, parentPrefix, changes)"
| "merge_level basePrefix (netValue # ns) base parentPrefix changes =
     (case clearNetIndexInIP (IP netValue) basePrefix of
        Inl e \<Rightarrow> Inl e
      | Inr ip \<Rightarrow>
          (let baseIp = \<lparr>IP = ip, Mask = Mask netValue\<rparr>;
               key = IPNet_String baseIp
           in case Mask_Size (Mask baseIp) of (parentLen, addrLen) \<Rightarrow>
             (case map_of base key of
                None \<Rightarrow> merge_level basePrefix ns (AList.update key netValue base) parentPrefix changes
              | Some _ \<Rightarrow>
                  merge_level basePrefix ns (AList.delete key base)
                    (parentPrefix @ [\<lparr>IP = ip, Mask = CIDRMask (parentLen - 1) addrLen\<rparr>])
                    (Suc changes))))"

fun merge_pass :: "range_orders \<Rightarrow> nat \<Rightarrow> (int \<times> IPNet list) list \<Rightarrow> (int, IPNet list) gomap \<Rightarrow> nat \<Rightarrow>
    ((int, IPNet list) gomap \<times> nat) result" where
  "merge_pass o1 n [] newP changes = Inr (newP, changes)"
| "merge_pass o1 n ((basePrefix, value) # rest) newP changes =
     (let cvalue = get_nets newP basePrefix @ value in
      if length cvalue < 2 then
        merge_pass o1 n rest (AList.update basePrefix cvalue newP) changes
      else (case merge_level basePrefix cvalue [] [] changes of
              Inl e \<Rightarrow> Inl e
            | Inr (base, parentPrefix, changes') \<Rightarrow>
                (let leftPrefixes = map snd (ord_base o1 n basePrefix base);
                     newP1 = AList.update basePrefix leftPrefixes newP;
                     newP2 = AList.update (basePrefix - 1)
                               (get_nets newP1 (basePrefix - 1) @ parentPrefix) newP1
                 in merge_pass o1 n rest newP2 changes')))"

text \<open>
  The outer loop, until a pass changes nothing. \<open>None\<close>: still running when the
  fuel is used up. Every pass but the last joins two networks into one, so one
  round more than the number of networks is enough.
\<close>

fun release_loop :: "nat \<Rightarrow> range_orders \<Rightarrow> nat \<Rightarrow> (int, IPNet list) gomap \<Rightarrow> string list result option" where
  "release_loop 0 o1 n m = None"
| "release_loop (Suc fuel) o1 n m =
     (case merge_pass o1 n (ord_levels o1 n m) [] 0 of
        Inl e \<Rightarrow> Some (Inl e)
      | Inr (newP, changes) \<Rightarrow>
          (if changes = 0
           then Some (Inr (concat (map (\<lambda>(_, v). map IPNet_String v) (ord_result o1 newP))))
           else release_loop fuel o1 (Suc n) newP))"

definition ReleasePrefixes :: "range_orders \<Rightarrow> string list \<Rightarrow> string list \<Rightarrow> string list result option" where
  "ReleasePrefixes o1 prefixes released =
     (if released = [] then Some (Inr prefixes)
      else (let result = removeDuplicates (prefixes @ released) in
            case group_prefixes result [] of
              Inl e \<Rightarrow> Some (Inl e)
            | Inr m \<Rightarrow> release_loop (Suc (length result)) o1 0 m))"

subsection \<open>The pool\<close>

record connectionRecord =
  ipNet :: IPNet
  cr_prefixes :: "string list"

record prefixPool =
  basePrefixes :: "string list"
  pool_prefixes :: "string list"
  connections :: "(string, connectionRecord) gomap"

definition NewPrefixPool :: "string list \<Rightarrow> prefixPool" where
  "NewPrefixPool ps = \<lparr>basePrefixes = ps, pool_prefixes = ps, connections = []\<rparr>"

definition GetPrefixes :: "prefixPool \<Rightarrow> string list" where
  "GetPrefixes impl = pool_prefixes impl"

definition Extract :: "prefixPool \<Rightarrow> string \<Rightarrow> IpFamily_Family \<Rightarrow> ExtraPrefixRequest list \<Rightarrow>
    prefixPool \<times> (IPNet \<times> IPNet \<times> string list) result" where
  "Extract impl connectionId family requests =
     (let prefixLen = (if family = IPV6 then 126 else 30) in
      case ExtractPrefixes (pool_prefixes impl)
             [\<lparr>AddrFamily = Some family, PrefixLen = prefixLen,
               RequiredNumber = 1, RequestedNumber = 1\<rparr>] of
        Inl e \<Rightarrow> (impl, Inl e)
      | Inr (result, remaining) \<Rightarrow>
          (case result of
             [] \<Rightarrow> (impl, Inl (Panic ''index out of range''))
           | r0 # _ \<Rightarrow>
               (case ParseCIDR r0 of
                  Inl e \<Rightarrow> (impl, Inl e)
                | Inr (ip, net) \<Rightarrow>
                    (case IncrementIP ip net of
                       Inl e \<Rightarrow> (impl, Inl e)
                     | Inr src \<Rightarrow>
                         (case IncrementIP src net of
                            Inl e \<Rightarrow> (impl, Inl e)
                          | Inr dst \<Rightarrow>
                              (case (if requests = [] then Inr ([], remaining)
                                     else ExtractPrefixes remaining requests) of
                                 Inl e \<Rightarrow> (impl, Inl e)
                               | Inr (requested, remaining') \<Rightarrow>
                                   (impl\<lparr>pool_prefixes := remaining',
                                         connections := AList.update connectionId
                                           \<lparr>ipNet = net, cr_prefixes = requested\<rparr> (connections impl)\<rparr>,
                                    Inr (\<lparr>IP = src, Mask = Mask net\<rparr>,
                                         \<lparr>IP = dst, Mask = Mask net\<rparr>, requested))))))))"

text \<open>
  \<open>Release\<close>: the record of the connection goes first, the prefixes are merged
  back in two steps. \<open>None\<close>: a merge that does not return.
\<close>

definition Release :: "range_orders \<Rightarrow> prefixPool \<Rightarrow> string \<Rightarrow> (prefixPool \<times> error option) option" where
  "Release o1 impl connectionId =
     (case map_of (connections impl) connectionId of
        None \<Rightarrow> Some (impl, Some (Errorf ''Failed to release connection infomration: %s''))
      | Some conn \<Rightarrow>
          (let impl1 = impl\<lparr>connections := AList.delete connectionId (connections impl)\<rparr> in
           case ReleasePrefixes o1 (pool_prefixes impl) (cr_prefixes conn) of
             None \<Rightarrow> None
           | Some (Inl e) \<Rightarrow> Some (impl1, Some e)
           | Some (Inr remaining) \<Rightarrow>
               (case ReleasePrefixes o1 remaining [IPNet_String (ipNet conn)] of
                  None \<Rightarrow> None
                | Some (Inl e) \<Rightarrow> Some (impl1, Some e)
                | Some (Inr remaining') \<Rightarrow> Some (impl1\<lparr>pool_prefixes := remaining'\<rparr>, None))))"

definition GetConnectionInformation :: "prefixPool \<Rightarrow> string \<Rightarrow> (string \<times> string list) result" where
  "GetConnectionInformation impl connectionId =
     (case map_of (connections impl) connectionId of
        None \<Rightarrow> Inl (Errorf ''No connection with id: %s is found'')
      | Some conn \<Rightarrow> Inr (IPNet_String (ipNet conn), cr_prefixes conn))"

subsection \<open>Vocabulary of the specification\<close>

text \<open>
  A canonical IPv4 prefix prints as the network it parses to. \<open>cover ps ip\<close> is
  the number of prefixes of the list that contain an address, as reported by
  \<open>IPNet.Contains\<close>: a list is free of overlaps when no address is covered twice,
  and two lists describe the same address space when they cover alike.
\<close>

definition v4_canonical :: "string \<Rightarrow> bool" where
  "v4_canonical s =
     (case ParseCIDR s of
        Inl _ \<Rightarrow> False
      | Inr (_, n) \<Rightarrow> length (Mask n) = 4 \<and> IPNet_String n = s)"

definition prefix_contains :: "string \<Rightarrow> net_IP \<Rightarrow> bool" where
  "prefix_contains s ip = (case ParseCIDR s of Inl _ \<Rightarrow> False | Inr (_, n) \<Rightarrow> Contains n ip)"

definition cover :: "string list \<Rightarrow> net_IP \<Rightarrow> nat" where
  "cover ps ip = length (filter (\<lambda>p. prefix_contains p ip) ps)"

definition prefix_length :: "string \<Rightarrow> int" where
  "prefix_length s = (case ParseCIDR s of Inl _ \<Rightarrow> -1 | Inr (_, n) \<Rightarrow> fst (Mask_Size (Mask n)))"

definition overlap_free :: "string list \<Rightarrow> bool" where
  "overlap_free ps \<longleftrightarrow> (\<forall>ip. length ip = 4 \<longrightarrow> cover ps ip \<le> 1)"

text \<open>
  The block two sibling prefixes would be joined into; a list is aggregated when
  no two of its prefixes have the same one.
\<close>

definition joined_base :: "string \<Rightarrow> net_IP result \<times> int" where
  "joined_base s =
     (case ParseCIDR s of
        Inl e \<Rightarrow> (Inl e, -1)
      | Inr (_, n) \<Rightarrow> (clearNetIndexInIP (IP n) (fst (Mask_Size (Mask n))), fst (Mask_Size (Mask n))))"

definition aggregated :: "string list \<Rightarrow> bool" where
  "aggregated ps \<longleftrightarrow> distinct (map joined_base ps)"

definition record_prefixes :: "connectionRecord \<Rightarrow> string list" where
  "record_prefixes r = IPNet_String (ipNet r) # cr_prefixes r"

definition all_prefixes :: "prefixPool \<Rightarrow> string list" where
  "all_prefixes p = pool_prefixes p @ concat (map (\<lambda>(_, r). record_prefixes r) (connections p))"

text \<open>
  The steps of a pool: any call of \<open>Extract\<close> or \<open>Release\<close>, successful or not.
  \<open>reuse\<close> says whether \<open>Extract\<close> may be called for a connection that already has
  a record.
\<close>

inductive pool_step :: "bool \<Rightarrow> prefixPool \<Rightarrow> prefixPool \<Rightarrow> bool" for reuse where
  do_extract: "Extract p c f rqs = (p', r) \<Longrightarrow> reuse \<or> map_of (connections p) c = None \<Longrightarrow>
            pool_step reuse p p'"
| do_release: "orders_ok o1 \<Longrightarrow> Release o1 p c = Some (p', e) \<Longrightarrow> pool_step reuse p p'"

inductive pool_reach :: "bool \<Rightarrow> prefixPool \<Rightarrow> prefixPool \<Rightarrow> bool" for reuse p where
  start: "pool_reach reuse p p"
| step: "pool_reach reuse p q \<Longrightarrow> pool_step reuse q r \<Longrightarrow> pool_reach reuse p r"

end
