(* ===== verification/Cidr.thy ===== *)
theory Cidr
  imports PrefixPool
begin

unbundle bit_operations_syntax

text \<open>
  Prefixes as pairs of a base address and a length, for addresses of \<open>w\<close> bits.
  The lemmas are the arithmetic the prefix pool rests on: a prefix is the
  disjoint union of its halves, two different prefixes with one parent are its
  halves, and a list in which no two prefixes can be joined is determined by
  the addresses it covers.
\<close>

type_synonym anet = "nat \<times> nat"

definition anet_wf :: "nat \<Rightarrow> anet \<Rightarrow> bool" where
  "anet_wf w n \<longleftrightarrow> snd n \<le> w \<and> fst n < 2 ^ w \<and> 2 ^ (w - snd n) dvd fst n"

definition holds :: "nat \<Rightarrow> nat \<Rightarrow> anet \<Rightarrow> bool" where
  "holds w x n \<longleftrightarrow> fst n \<le> x \<and> x < fst n + 2 ^ (w - snd n)"

definition cnt :: "nat \<Rightarrow> anet list \<Rightarrow> nat \<Rightarrow> nat" where
  "cnt w ns x = length (filter (holds w x) ns)"

definition anet_net :: "nat \<Rightarrow> anet \<Rightarrow> IPNet" where
  "anet_net k n = mknet k (fst n) (snd n)"

definition anet_str :: "nat \<Rightarrow> anet \<Rightarrow> string" where
  "anet_str k n = IPNet_String (anet_net k n)"

definition left_half :: "anet \<Rightarrow> anet" where
  "left_half n = (fst n, Suc (snd n))"

definition right_half :: "nat \<Rightarrow> anet \<Rightarrow> anet" where
  "right_half w n = (fst n + 2 ^ (w - Suc (snd n)), Suc (snd n))"

definition parent_base :: "nat \<Rightarrow> anet \<Rightarrow> nat" where
  "parent_base w n = fst n - fst n mod 2 ^ (w - snd n + 1)"

definition base_key :: "nat \<Rightarrow> anet \<Rightarrow> anet" where
  "base_key w n = (parent_base w n, snd n)"

definition merged :: "nat \<Rightarrow> anet list \<Rightarrow> bool" where
  "merged w ns \<longleftrightarrow> distinct (map (base_key w) ns)"

subsection \<open>Halves, siblings and counting\<close>

lemma cnt_simps [simp]:
  "cnt w [] x = 0"
  "cnt w (n # ns) x = (if holds w x n then 1 else 0) + cnt w ns x"
  "cnt w (ns @ ms) x = cnt w ns x + cnt w ms x"
  by (simp_all add: cnt_def)

lemma cnt_mset: "mset ns = mset ms \<Longrightarrow> cnt w ns x = cnt w ms x"
  unfolding cnt_def by (metis mset_filter size_mset)

lemma cnt_rev [simp]: "cnt w (rev ns) x = cnt w ns x"
  by (rule cnt_mset) simp

lemma pow_halves: "l < w \<Longrightarrow> (2::nat) ^ (w - l) = 2 ^ (w - Suc l) + 2 ^ (w - Suc l)"
  by (metis Suc_diff_Suc mult_2 power_Suc)

lemma aligned_fits:
  assumes "anet_wf w n"
  shows "fst n + 2 ^ (w - snd n) \<le> 2 ^ w"
proof -
  obtain q where q: "fst n = 2 ^ (w - snd n) * q" using assms by (auto simp: anet_wf_def)
  have p: "(2::nat) ^ w = 2 ^ (w - snd n) * 2 ^ snd n"
    using assms by (simp add: anet_wf_def power_add [symmetric])
  have "q < 2 ^ snd n" using assms q p by (simp add: anet_wf_def)
  then have "2 ^ (w - snd n) * (q + 1) \<le> 2 ^ (w - snd n) * 2 ^ snd n" by (intro mult_left_mono) auto
  then show ?thesis using q p by simp
qed

lemma halves_wf:
  assumes "anet_wf w n" "snd n < w"
  shows "anet_wf w (left_half n)" "anet_wf w (right_half w n)"
proof -
  have e: "(2::nat) ^ (w - snd n) = 2 ^ (w - Suc (snd n)) * 2"
    using assms(2) by (simp add: pow_halves)
  have d: "2 ^ (w - Suc (snd n)) dvd fst n"
    using assms(1) unfolding anet_wf_def e by (metis dvd_mult_left)
  show "anet_wf w (left_half n)" using assms d by (simp add: anet_wf_def left_half_def)
  have "(0::nat) < 2 ^ (w - Suc (snd n))" by simp
  then have "fst n + 2 ^ (w - Suc (snd n)) < 2 ^ w"
    using aligned_fits [OF assms(1)] pow_halves [OF assms(2)] by linarith
  then show "anet_wf w (right_half w n)"
    using assms d by (simp add: anet_wf_def right_half_def)
qed

lemma holds_halves:
  "snd n < w \<Longrightarrow> (if holds w x n then 1 else (0::nat)) =
     (if holds w x (left_half n) then 1 else 0) + (if holds w x (right_half w n) then 1 else 0)"
  by (auto simp: holds_def left_half_def right_half_def pow_halves)

lemma or_add_aligned:
  assumes "2 ^ Suc m dvd (a::nat)"
  shows "a OR push_bit m 1 = a + 2 ^ m"
proof -
  obtain q where q: "a = push_bit m (2 * q)"
    using assms by (auto simp: push_bit_eq_mult mult_ac elim: dvdE)
  have "a OR push_bit m 1 = push_bit m (2 * q OR 1)" by (simp only: q push_bit_or)
  also have "\<dots> = push_bit m (2 * q + 1)" by (simp only: or_one_eq) simp
  finally show ?thesis by (simp add: q push_bit_eq_mult algebra_simps)
qed

lemma unset_bit_aligned:
  assumes "2 ^ m dvd (a::nat)"
  shows "unset_bit m a = a - a mod 2 ^ (m + 1)"
proof -
  obtain c where c: "a = push_bit m c"
    using assms by (auto simp: push_bit_eq_mult mult_ac elim: dvdE)
  have "unset_bit m a = push_bit m (unset_bit 0 c)"
    by (rule bit_eqI) (auto simp: c bit_simps)
  also have "\<dots> = push_bit m (c - c mod 2)" by (simp add: unset_bit_0 minus_mod_eq_mult_div)
  also have "\<dots> = a - a mod 2 ^ (m + 1)"
    by (simp add: c push_bit_eq_mult diff_mult_distrib mult_mod_left)
  finally show ?thesis .
qed

lemma parent_base_unset:
  "anet_wf w n \<Longrightarrow> unset_bit (w - snd n) (fst n) = parent_base w n"
  unfolding parent_base_def by (rule unset_bit_aligned) (simp add: anet_wf_def)

text \<open>Two different networks of one level with the same parent base are its halves.\<close>

lemma siblings:
  assumes "anet_wf w (a, l)" "anet_wf w (b, l)" "a \<noteq> b"
    and "parent_base w (a, l) = parent_base w (b, l)"
  shows "0 < l" "anet_wf w (parent_base w (a, l), l - 1)"
    and "(if holds w x (a, l) then 1 else (0::nat)) + (if holds w x (b, l) then 1 else 0) =
         (if holds w x (parent_base w (a, l), l - 1) then 1 else 0)"
proof -
  let ?p = "parent_base w (a, l)" and ?h = "(2::nat) ^ (w - l)"
  have l: "l \<le> w" using assms(1) by (simp add: anet_wf_def)
  show pos: "0 < l"
  proof (rule ccontr)
    assume "\<not> 0 < l"
    then have "a = 0" "b = 0" using assms(1,2) by (auto simp: anet_wf_def dvd_imp_le)
    then show False using assms(3) by simp
  qed
  have w: "w - (l - Suc 0) = Suc (w - l)" using pos l by simp
  have half: "c mod (2 * ?h) = 0 \<or> c mod (2 * ?h) = ?h" if "?h dvd c" for c
  proof -
    from that obtain q where "c = ?h * q" by (rule dvdE)
    then have "c mod (2 * ?h) = ?h * (q mod 2)" by (simp add: mult.commute mod_mult_mult1)
    then show ?thesis by (cases "even q") (auto simp: odd_iff_mod_2_eq_one)
  qed
  have "?p = a - a mod (2 * ?h)" and "?p = b - b mod (2 * ?h)"
    unfolding assms(4) by (simp_all add: parent_base_def)
      (use assms(4) in \<open>simp add: parent_base_def\<close>)
  then have ab: "a = ?p + a mod (2 * ?h)" "b = ?p + b mod (2 * ?h)"
    using mod_less_eq_dividend [of a "2 * ?h"] mod_less_eq_dividend [of b "2 * ?h"] by linarith+
  have "?h dvd a" "?h dvd b" using assms(1,2) by (auto simp: anet_wf_def)
  then have cases: "(a = ?p \<and> b = ?p + ?h) \<or> (b = ?p \<and> a = ?p + ?h)"
    using half [of a] half [of b] ab assms(3) by auto
  have "2 * ?h dvd ?p"
    by (simp add: parent_base_def minus_mod_eq_mult_div)
  then show "anet_wf w (?p, l - 1)"
    using assms(1) l w by (auto simp: anet_wf_def parent_base_def)
  show "(if holds w x (a, l) then 1 else (0::nat)) + (if holds w x (b, l) then 1 else 0) =
         (if holds w x (?p, l - 1) then 1 else 0)"
    using cases by (auto simp: holds_def w)
qed

lemma distinct_map_split:
  "distinct (map f (us @ m # vs)) \<Longrightarrow> u \<in> set (us @ vs) \<Longrightarrow> f u \<noteq> f m"
  by (auto, (metis imageI)+)

lemma cnt_le_distinct:
  assumes "\<And>x. cnt w (ns @ ms) x \<le> 1" "n \<in> set ns" "m \<in> set ms"
  shows "n \<noteq> m"
proof
  assume "n = m"
  have h: "holds w (fst n) n" by (simp add: holds_def)
  have "1 \<le> cnt w ns (fst n)" "1 \<le> cnt w ms (fst n)"
    using assms(2,3) h \<open>n = m\<close> by (auto simp: cnt_def Suc_le_eq filter_empty_conv)
  then show False using assms(1) [of "fst n"] by simp
qed

subsection \<open>Aggregated lists are unique\<close>

lemma holds_div:
  assumes "anet_wf w n"
  shows "holds w x n \<longleftrightarrow> x div 2 ^ (w - snd n) = fst n div 2 ^ (w - snd n)"
proof -
  let ?h = "(2::nat) ^ (w - snd n)"
  obtain q where q: "fst n = ?h * q" using assms by (auto simp: anet_wf_def)
  have "?h * q \<le> x \<and> x < ?h * q + ?h \<longleftrightarrow> x div ?h = q"
    by (metis add.commute div_nat_eqI dividend_less_times_div mult_Suc_right
        times_div_less_eq_dividend zero_less_numeral zero_less_power)
  then show ?thesis using q by (simp add: holds_def)
qed

lemma block_within:
  assumes "anet_wf w n" "anet_wf w m" "snd n \<le> snd m" "holds w x n" "holds w x m" "holds w y m"
  shows "holds w y n"
proof -
  have e: "(2::nat) ^ (w - snd n) = 2 ^ (w - snd m) * 2 ^ (snd m - snd n)"
    using assms(2,3) by (simp add: anet_wf_def power_add [symmetric])
  have "y div 2 ^ (w - snd m) = x div 2 ^ (w - snd m)"
    using assms(5,6) by (simp add: holds_div [OF assms(2)])
  then have "y div 2 ^ (w - snd n) = x div 2 ^ (w - snd n)" by (simp add: e div_mult2_eq)
  then show ?thesis using assms(4) by (simp add: holds_div [OF assms(1)])
qed

lemma holds_base [simp]: "holds w (fst n) n"
  by (simp add: holds_def)

lemma same_level_eq:
  assumes "anet_wf w n" "anet_wf w m" "snd n = snd m" "holds w x n" "holds w x m"
  shows "n = m"
proof -
  have "fst n div 2 ^ (w - snd m) = fst m div 2 ^ (w - snd m)"
    using assms holds_div [OF assms(1), of x] holds_div [OF assms(2), of x] by simp
  moreover have "2 ^ (w - snd m) dvd fst n" "2 ^ (w - snd m) dvd fst m"
    using assms(1-3) by (auto simp: anet_wf_def)
  ultimately have "fst n = fst m" by (metis dvd_mult_div_cancel)
  then show ?thesis using assms(3) by (simp add: prod_eq_iff)
qed

lemma cnt_pos: "0 < cnt w ns x \<longleftrightarrow> (\<exists>n \<in> set ns. holds w x n)"
  by (auto simp: cnt_def filter_empty_conv)

lemma halves_same_key:
  assumes "anet_wf w n" "snd n < w"
  shows "base_key w (left_half n) = base_key w (right_half w n)" "left_half n \<noteq> right_half w n"
proof -
  have e: "w - Suc (snd n) + 1 = w - snd n" using assms(2) by simp
  have d: "2 ^ (w - snd n) dvd fst n" using assms(1) by (simp add: anet_wf_def)
  have "(fst n + 2 ^ (w - Suc (snd n))) mod 2 ^ (w - snd n) = 2 ^ (w - Suc (snd n))"
    using d pow_halves [OF assms(2)] by (simp add: mod_add_eq [symmetric] dvd_imp_mod_0)
  then show "base_key w (left_half n) = base_key w (right_half w n)"
    using d e by (simp add: base_key_def parent_base_def left_half_def right_half_def dvd_imp_mod_0)
  show "left_half n \<noteq> right_half w n" by (simp add: left_half_def right_half_def)
qed

lemma holds_half:
  assumes "snd n < w"
  shows "holds w x (left_half n) \<Longrightarrow> holds w x n" "holds w x (right_half w n) \<Longrightarrow> holds w x n"
  using pow_halves [OF assms] by (auto simp: holds_def left_half_def right_half_def)

text \<open>
  A block all of whose addresses are covered by an aggregated list lies in one
  network of the list: otherwise both its halves would be there.
\<close>

lemma covered_block:
  assumes ns: "\<forall>n \<in> set ns. anet_wf w n" and m: "merged w ns"
  shows "anet_wf w b \<Longrightarrow> (\<And>x. holds w x b \<Longrightarrow> 0 < cnt w ns x) \<Longrightarrow>
    \<exists>n \<in> set ns. snd n \<le> snd b \<and> holds w (fst b) n"
proof (induction "w - snd b" arbitrary: b)
  case 0
  have "0 < cnt w ns (fst b)" by (rule "0.prems"(2)) simp
  then show ?case using 0 ns by (auto simp: cnt_pos anet_wf_def intro: le_trans)
next
  case (Suc d)
  then have less: "snd b < w" by simp
  let ?l = "left_half b" and ?r = "right_half w b"
  note wf = halves_wf [OF Suc.prems(1) less]
  have ih: "\<exists>n \<in> set ns. snd n \<le> snd h \<and> holds w (fst h) n" if "h = ?l \<or> h = ?r" for h
    using that Suc.hyps(2) Suc.prems(2) wf holds_half [OF less] less
    by (intro Suc.hyps(1)) (auto simp: left_half_def right_half_def)
  obtain nl where nl: "nl \<in> set ns" "snd nl \<le> Suc (snd b)" "holds w (fst ?l) nl"
    using ih [of ?l] by (auto simp: left_half_def)
  obtain nr where nr: "nr \<in> set ns" "snd nr \<le> Suc (snd b)" "holds w (fst ?r) nr"
    using ih [of ?r] by (auto simp: right_half_def)
  show ?case
  proof (cases "snd nl \<le> snd b \<or> snd nr \<le> snd b")
    case True
    then show ?thesis
    proof
      assume "snd nl \<le> snd b"
      then show ?thesis using nl by (intro bexI [of _ nl]) (auto simp: left_half_def)
    next
      assume le: "snd nr \<le> snd b"
      have "holds w (fst b) nr"
        using block_within [OF _ Suc.prems(1) le nr(3)] holds_half(2) [OF less, of "fst ?r"] ns nr(1) by simp
      then show ?thesis using nr le by blast
    qed
  next
    case False
    have "nl = ?l"
      by (rule same_level_eq [OF _ wf(1) _ nl(3) holds_base]) (use False nl ns in \<open>auto simp: left_half_def\<close>)
    moreover have "nr = ?r"
      by (rule same_level_eq [OF _ wf(2) _ nr(3) holds_base]) (use False nr ns in \<open>auto simp: right_half_def\<close>)
    ultimately have "?l \<in> set ns" "?r \<in> set ns" using nl nr by auto
    then show ?thesis using m halves_same_key [OF Suc.prems(1) less]
      by (metis merged_def distinct_map inj_onD)
  qed
qed

lemma aggregation_subset:
  assumes ns: "\<forall>n \<in> set ns. anet_wf w n" "merged w ns" and ms: "\<forall>n \<in> set ms. anet_wf w n" "merged w ms"
    and eq: "\<And>x. cnt w ns x = cnt w ms x" and le: "\<And>x. cnt w ns x \<le> 1"
  shows "set ns \<subseteq> set ms"
proof
  fix n assume n: "n \<in> set ns"
  have cov: "0 < cnt w ks x" if "k1 \<in> set ks" "holds w x k1" for ks k1 x
    using that by (auto simp: cnt_pos)
  obtain m where m: "m \<in> set ms" "snd m \<le> snd n" "holds w (fst n) m"
    using covered_block [OF ms, of n] ns n cov [OF n] eq by auto
  obtain n' where n': "n' \<in> set ns" "snd n' \<le> snd m" "holds w (fst m) n'"
    using covered_block [OF ns, of m] ms m cov [OF m(1)] eq by auto
  have h: "holds w (fst n) n'"
    by (rule block_within [OF _ _ n'(2,3) _ m(3)]) (use ns ms n' m in auto)
  have "n' = n"
  proof -
    obtain us vs where u: "ns = us @ n # vs" using split_list [OF n] by blast
    have "cnt w (us @ vs) (fst n) = 0" using le [of "fst n"] u by simp
    then have "n' \<notin> set (us @ vs)"
      using h cov [of n' "us @ vs" "fst n"] by auto
    then show ?thesis using n'(1) unfolding u by simp
  qed
  then have "snd m = snd n" using m(2) n'(2) by simp
  then have "m = n"
    by (intro same_level_eq [OF _ _ _ m(3) holds_base]) (use m(1) ns ms n in blast)+
  then show "n \<in> set ms" using m by simp
qed

end
