(* ===== verification/PoolExtract.thy ===== *)
theory PoolExtract
  imports Cidr
begin

unbundle bit_operations_syntax

text \<open>
  Extraction from a list of prefixes. The locale \<open>cidr_family\<close> is the contract
  the pool needs of an address family: which networks it handles, that printing
  and parsing them agree, and that \<open>Contains\<close> means containment. Under it the
  string operations of the pool compute on base addresses and lengths, and
  every extraction keeps the number of times each address is covered.
\<close>

lemma Reverse_rev [simp]: "Reverse xs = rev xs"
  unfolding Reverse_def by (rule nth_equalityI) (simp_all add: rev_nth)

lemma unat_of_len: "l \<le> 128 \<Longrightarrow> unat (of_nat l :: 32 word) = l"
  by (simp add: unat_of_nat)

lemma len_eq: "l \<le> 128 \<Longrightarrow> (pl :: 32 word) = of_nat l \<longleftrightarrow> l = unat pl"
  using unat_of_len [of l] by auto

lemma len_eq': "l \<le> 128 \<Longrightarrow> of_nat l = (pl :: 32 word) \<longleftrightarrow> l = unat pl"
  using unat_of_len [of l] by auto

lemma len_less: "l \<le> 128 \<Longrightarrow> (of_nat l :: 32 word) < pl \<longleftrightarrow> l < unat pl"
  by (simp add: word_less_nat_alt unat_of_len)

lemma nth_split: "j < length xs \<Longrightarrow> xs = take j xs @ xs ! j # drop (Suc j) xs"
  by (simp add: id_take_nth_drop)

locale cidr_family =
  fixes k :: nat and ok :: "anet \<Rightarrow> bool"
  assumes bytes: "k = 4 \<or> k = 16"
    and ok_wf: "ok n \<Longrightarrow> anet_wf (8 * k) n"
    and ok_halves: "ok n \<Longrightarrow> snd n < 8 * k \<Longrightarrow> ok (left_half n) \<and> ok (right_half (8 * k) n)"
    and ok_join: "ok (a, l) \<Longrightarrow> ok (b, l) \<Longrightarrow> a \<noteq> b \<Longrightarrow>
          parent_base (8 * k) (a, l) = parent_base (8 * k) (b, l) \<Longrightarrow>
          ok (parent_base (8 * k) (a, l), l - 1)"
    and parse_print: "ok n \<Longrightarrow> \<exists>ip. ParseCIDR (anet_str k n) = Inr (ip, anet_net k n)"
    and print_inj: "anet_wf (8 * k) (a, l) \<Longrightarrow> anet_wf (8 * k) (b, l) \<Longrightarrow>
          anet_str k (a, l) = anet_str k (b, l) \<Longrightarrow> a = b"
    and contains_iff: "ok n \<Longrightarrow> x < 2 ^ (8 * k) \<Longrightarrow>
          Contains (anet_net k n) (to_be k x) \<longleftrightarrow> holds (8 * k) x n"
begin

lemma ok_len: "ok n \<Longrightarrow> snd n \<le> 8 * k"
  using ok_wf by (simp add: anet_wf_def)

lemma ok_less: "ok n \<Longrightarrow> fst n < 2 ^ (8 * k)"
  using ok_wf by (simp add: anet_wf_def)

lemma pow_bytes: "(256::nat) ^ k = 2 ^ (8 * k)"
  by (simp add: power_mult)

lemma k_bits: "int (8 * k) div 8 = int k" "(if k = 4 then 32 else 128) = 8 * int k"
  using bytes by auto

lemma mask_net: "snd n \<le> 8 * k \<Longrightarrow> Mask (anet_net k n) = cidr_bytes k (snd n)"
  unfolding anet_net_def mknet_def using CIDRMask_cidr [OF _ bytes] by simp

lemma size_net: "snd n \<le> 8 * k \<Longrightarrow> Mask_Size (Mask (anet_net k n)) = (int (snd n), 8 * int k)"
  by (simp add: mask_net)

lemma fromIP_net: "ok n \<Longrightarrow> fromIP (IP (anet_net k n)) = (fst n, 8 * int k)"
  using bytes ok_less [of n] by (auto simp: fromIP_def anet_net_def mknet_def)

lemma toIP_fits: "v < 2 ^ (8 * k) \<Longrightarrow> toIP v (8 * int k) = Inr (to_be k v)"
  using length_big_Bytes [of v k] pad_big_Bytes [of v k]
  by (simp add: toIP_def Let_def pow_bytes)

lemma subnet_left:
  assumes "ok n" "snd n < 8 * k"
  shows "subnet (anet_net k n) 0 = Inr (anet_net k (left_half n))"
  using assms fromIP_net [of n] toIP_fits [of "fst n"] ok_less [of n]
  by (simp add: subnet_def size_net setNetIndexInIP_def)
    (simp add: anet_net_def mknet_def left_half_def add.commute)

lemma subnet_right:
  assumes "ok n" "snd n < 8 * k"
  shows "subnet (anet_net k n) 1 = Inr (anet_net k (right_half (8 * k) n))"
proof -
  let ?m = "8 * k - Suc (snd n)"
  have m: "nat (8 * int k - (int (snd n) + 1)) = ?m" by simp
  have d: "2 ^ Suc ?m dvd fst n"
    using ok_wf [OF assms(1)] assms(2) by (simp add: anet_wf_def Suc_diff_Suc)
  have "fst n + 2 ^ ?m < 2 ^ (8 * k)"
    using halves_wf(2) [OF ok_wf [OF assms(1)] assms(2)] by (simp add: anet_wf_def right_half_def)
  then have "toIP (fst n OR push_bit ?m 1) (8 * int k) = Inr (to_be k (fst n + 2 ^ ?m))"
    using or_add_aligned [OF d] toIP_fits by simp
  then show ?thesis
    using assms fromIP_net [of n] ok_less [of n]
    by (simp add: subnet_def size_net setNetIndexInIP_def m del: push_bit_of_1)
      (simp add: anet_net_def mknet_def right_half_def add.commute)
qed

lemma clear_net:
  assumes "ok n"
  shows "clearNetIndexInIP (IP (anet_net k n)) (int (snd n)) = Inr (to_be k (parent_base (8 * k) n))"
proof -
  have m: "nat (8 * int k - int (snd n)) = 8 * k - snd n" by simp
  have "parent_base (8 * k) n < 2 ^ (8 * k)"
    using ok_less [OF assms] by (simp add: parent_base_def less_imp_diff_less)
  then show ?thesis
    using assms fromIP_net [of n] ok_len [of n] toIP_fits
    by (simp add: clearNetIndexInIP_def m parent_base_unset [OF ok_wf])
qed

end

context cidr_family
begin

lemma ok_128: "ok n \<Longrightarrow> snd n \<le> 128"
  using ok_len [of n] bytes by auto

lemma parsed: "ok n \<Longrightarrow> (case ParseCIDR (anet_str k n) of Inl e \<Rightarrow> f e | Inr p \<Rightarrow> g p) =
    g (fst (projr (ParseCIDR (anet_str k n))), anet_net k n)"
  using parse_print [of n] by auto

lemma scan_step:
  "ok n \<Longrightarrow> scan_prefixes pl i mx mi (anet_str k n # ps) =
     (if snd n = unat pl then Inl i
      else if snd n < unat pl \<and> (int (snd n) > mx \<or> mx = 0)
      then scan_prefixes pl (Suc i) (int (snd n)) (Some i) ps
      else scan_prefixes pl (Suc i) mx mi ps)"
  using ok_len [of n] ok_128 [of n]
  by (auto simp: parsed size_net Let_def len_eq len_less)

lemma scan_found:
  "list_all ok ns \<Longrightarrow> scan_prefixes pl i mx mi (map (anet_str k) ns) = Inl j \<Longrightarrow>
   i \<le> j \<and> j - i < length ns \<and> snd (ns ! (j - i)) = unat pl"
proof (induction ns arbitrary: i mx mi)
  case (Cons n ns)
  then show ?case
    by (fastforce simp: scan_step nth_Cons' Suc_le_eq split: if_splits simp del: scan_prefixes.simps)
qed simp

lemma scan_split:
  "list_all ok ns \<Longrightarrow> scan_prefixes pl i mx mi (map (anet_str k) ns) = Inr (mx', Some j) \<Longrightarrow>
   Some j = mi \<or> (i \<le> j \<and> j - i < length ns \<and> snd (ns ! (j - i)) < unat pl)"
proof (induction ns arbitrary: i mx mi)
  case (Cons n ns)
  then show ?case
    by (fastforce simp: scan_step nth_Cons' Suc_le_eq split: if_splits simp del: scan_prefixes.simps(2))
qed simp

lemma scan_none:
  "list_all ok ns \<Longrightarrow> scan_prefixes pl i mx mi (map (anet_str k) ns) = Inr (mx', None) \<Longrightarrow>
   mx = 0 \<or> mi \<noteq> None \<Longrightarrow> mi = None \<and> (\<forall>n \<in> set ns. unat pl < snd n)"
proof (induction ns arbitrary: i mx mi)
  case (Cons n ns)
  show ?case
  proof (cases "snd n < unat pl \<and> (int (snd n) > mx \<or> mx = 0)")
    case True
    with Cons.prems have "scan_prefixes pl (Suc i) (int (snd n)) (Some i) (map (anet_str k) ns) = Inr (mx', None)"
      by (simp add: scan_step del: scan_prefixes.simps split: if_splits)
    from Cons.IH [OF _ this] Cons.prems(1) show ?thesis by simp
  next
    case False
    with Cons.prems have "scan_prefixes pl (Suc i) mx mi (map (anet_str k) ns) = Inr (mx', None)"
      and "snd n \<noteq> unat pl"
      by (auto simp add: scan_step simp del: scan_prefixes.simps split: if_splits)
    from Cons.IH [OF _ this(1)] Cons.prems False this(2) show ?thesis by auto
  qed
qed simp

lemma split_sound:
  "split_root pl root rp = Inr (r, rp') \<Longrightarrow> root = anet_net k n \<Longrightarrow> ok n \<Longrightarrow>
   \<exists>m rs. r = anet_net k m \<and> rp' = rp @ map (anet_str k) rs \<and> ok m \<and> list_all ok rs \<and>
     snd m = unat pl \<and> (\<forall>x. cnt (8 * k) (m # rs) x = cnt (8 * k) [n] x)"
proof (induction pl root rp arbitrary: n rule: split_root.induct)
  case (1 pl root rp)
  show ?case
  proof (cases "snd n = unat pl")
    case True
    then have "r = anet_net k n" "rp' = rp"
      using 1(2-4) ok_len [of n] ok_128 [of n] len_eq' [of "snd n" pl]
      by (simp_all add: split_root.simps [of pl "anet_net k n" rp] size_net)
    then show ?thesis using 1(4) True
      by (intro exI [of _ n] exI [of _ "[]"]) simp
  next
    case False
    have neq: "word_of_int (fst (Mask_Size (Mask root))) \<noteq> pl"
      using False 1(3,4) ok_len [of n] ok_128 [of n] len_eq' [of "snd n" pl] by (auto simp: size_net)
    have less: "snd n < 8 * k"
    proof (rule ccontr)
      assume "\<not> snd n < 8 * k"
      then have "subnet root 0 = Inl (Errorf ''insufficient address space to extend prefix of %d'')"
        using 1(3,4) ok_len [of n] by (simp add: subnet_def size_net)
      then show False using 1(2) neq by (simp add: split_root.simps [of pl root rp])
    qed
    let ?l = "left_half n" and ?r = "right_half (8 * k) n"
    have s: "subnet root 0 = Inr (anet_net k ?l)" "subnet root 1 = Inr (anet_net k ?r)"
      using subnet_left subnet_right 1(3,4) less by auto
    have ok2: "ok ?l" "ok ?r" using ok_halves [OF 1(4) less] by auto
    have "split_root pl (anet_net k ?l) (rp @ [IPNet_String (anet_net k ?r)]) = Inr (r, rp')"
      using 1(2) neq s by (simp add: split_root.simps [of pl root rp])
    from 1(1) [OF neq s this refl ok2(1)] obtain m rs where
      m: "r = anet_net k m" "rp' = (rp @ [IPNet_String (anet_net k ?r)]) @ map (anet_str k) rs"
        "ok m" "list_all ok rs" "snd m = unat pl"
        "\<forall>x. cnt (8 * k) (m # rs) x = cnt (8 * k) [?l] x" by blast
    have "cnt (8 * k) (m # ?r # rs) x = cnt (8 * k) [n] x" for x
      using m(6) holds_halves [OF less, of x] by simp
    then show ?thesis using m ok2
      by (intro exI [of _ m] exI [of _ "?r # rs"]) (simp add: anet_str_def)
  qed
qed

lemma split_complete:
  "ok n \<Longrightarrow> snd n \<le> unat pl \<Longrightarrow> unat pl \<le> 8 * k \<Longrightarrow>
   \<exists>res. split_root pl (anet_net k n) rp = Inr res"
proof (induction "unat pl - snd n" arbitrary: n rp)
  case 0
  then show ?case using ok_len [of n] ok_128 [of n] len_eq' [of "snd n" pl]
    by (simp add: split_root.simps size_net)
next
  case (Suc d)
  have less: "snd n < 8 * k" using Suc by simp
  have "\<exists>res. split_root pl (anet_net k (left_half n)) rp' = Inr res" for rp'
    using Suc ok_halves [OF Suc(3) less] by (intro Suc(1)) (auto simp: left_half_def)
  then show ?case
    using subnet_left [OF Suc(3) less] subnet_right [OF Suc(3) less]
    by (subst split_root.simps) simp
qed

end

context cidr_family
begin

lemma extract_sound:
  assumes ns: "list_all ok ns" and e: "ExtractPrefix (map (anet_str k) ns) pl = Inr (p, rest)"
  shows "\<exists>m ms. p = anet_str k m \<and> rest = map (anet_str k) ms \<and> ok m \<and> list_all ok ms \<and>
    snd m = unat pl \<and> (\<forall>x. cnt (8 * k) (m # ms) x = cnt (8 * k) ns x)"
proof (cases "scan_prefixes pl 0 0 None (map (anet_str k) ns)")
  case (Inl j)
  from scan_found [OF ns Inl] have j: "j < length ns" "snd (ns ! j) = unat pl" by auto
  let ?ms = "take j ns @ drop (Suc j) ns"
  have "p = anet_str k (ns ! j)" "rest = map (anet_str k) ?ms"
    using e Inl j by (auto simp: ExtractPrefix_def take_map drop_map)
  moreover have "cnt (8 * k) (ns ! j # ?ms) x = cnt (8 * k) ns x" for x
    by (subst (2) nth_split [OF j(1)]) simp
  moreover have "ok (ns ! j)" "list_all ok ?ms"
    using ns j by (auto simp: list_all_iff dest: in_set_takeD in_set_dropD)
  ultimately show ?thesis using j by blast
next
  case (Inr b)
  then obtain mx j where b: "scan_prefixes pl 0 0 None (map (anet_str k) ns) = Inr (mx, Some j)"
    using e by (cases b; cases "snd b") (auto simp: ExtractPrefix_def)
  from scan_split [OF ns b] have j: "j < length ns" by auto
  have okj: "ok (ns ! j)" using ns j by (simp add: list_all_iff)
  from parse_print [OF this] obtain ip where
    ip: "ParseCIDR (anet_str k (ns ! j)) = Inr (ip, anet_net k (ns ! j))" ..
  obtain r rp where s: "split_root pl (anet_net k (ns ! j)) [] = Inr (r, rp)"
    and p: "p = IPNet_String r"
      "rest = take j (map (anet_str k) ns) @ rev rp @ drop (Suc j) (map (anet_str k) ns)"
    using e b j ip by (auto simp: ExtractPrefix_def split: sum.splits prod.splits)
  from split_sound [OF s refl okj] obtain m rs where
    m: "r = anet_net k m" "rp = map (anet_str k) rs" "ok m" "list_all ok rs"
      "snd m = unat pl" "\<forall>x. cnt (8 * k) (m # rs) x = cnt (8 * k) [ns ! j] x" by auto
  let ?ms = "take j ns @ rev rs @ drop (Suc j) ns"
  have "cnt (8 * k) (m # ?ms) x = cnt (8 * k) ns x" for x
    using m(6) [rule_format, of x] by (subst (2) nth_split [OF j]) simp
  moreover have "list_all ok ?ms"
    using ns m(4) by (auto simp: list_all_iff dest: in_set_takeD in_set_dropD)
  moreover have "rest = map (anet_str k) ?ms"
    by (simp add: p m take_map drop_map rev_map)
  ultimately show ?thesis using m p by (intro exI [of _ m] exI [of _ ?ms]) (simp add: anet_str_def)
qed

lemma extract_complete:
  assumes ns: "list_all ok ns" and n: "n \<in> set ns" "snd n \<le> unat pl" and le: "unat pl \<le> 8 * k"
  shows "\<exists>res. ExtractPrefix (map (anet_str k) ns) pl = Inr res"
proof (cases "scan_prefixes pl 0 0 None (map (anet_str k) ns)")
  case (Inl j)
  then show ?thesis by (simp add: ExtractPrefix_def)
next
  case (Inr b)
  obtain mx j where b: "scan_prefixes pl 0 0 None (map (anet_str k) ns) = Inr (mx, Some j)"
  proof (cases "snd b")
    case None
    with scan_none [OF ns, of pl 0 0 None "fst b"] Inr n show ?thesis by (cases b) auto
  next
    case (Some j)
    with Inr that show ?thesis by (cases b) auto
  qed
  from scan_split [OF ns b] have j: "j < length ns" "snd (ns ! j) \<le> unat pl" by auto
  have okj: "ok (ns ! j)" using ns j by (simp add: list_all_iff)
  from parse_print [OF this] obtain ip where
    ip: "ParseCIDR (anet_str k (ns ! j)) = Inr (ip, anet_net k (ns ! j))" ..
  from split_complete [OF okj j(2) le] obtain res where
    "split_root pl (anet_net k (ns ! j)) [] = Inr res" by blast
  then show ?thesis using b j ip by (cases res) (simp add: ExtractPrefix_def)
qed

lemma extract_fails:
  assumes ns: "list_all ok ns" and "\<forall>n \<in> set ns. unat pl < snd n"
  shows "ExtractPrefix (map (anet_str k) ns) pl =
    Inl (Errorf ''Failed to find room to have prefix len %d at %v'')"
proof (cases "scan_prefixes pl 0 0 None (map (anet_str k) ns)")
  case (Inl j)
  from scan_found [OF ns Inl] have "j < length ns" "snd (ns ! j) = unat pl" by auto
  then show ?thesis using assms(2) by (metis nth_mem less_irrefl)
next
  case (Inr b)
  obtain mx mi where b: "b = (mx, mi)" by fastforce
  show ?thesis
  proof (cases mi)
    case None then show ?thesis using Inr b by (simp add: ExtractPrefix_def)
  next
    case (Some j)
    have "scan_prefixes pl 0 0 None (map (anet_str k) ns) = Inr (mx, Some j)"
      using Inr b Some by simp
    from scan_split [OF ns this] have "j < length ns" "snd (ns ! j) < unat pl" by auto
    then show ?thesis using assms(2) by (meson nth_mem less_asym)
  qed
qed

text \<open>The relation the extraction loops keep: results and rest cover what there was.\<close>

definition split_of :: "anet list \<Rightarrow> string list \<Rightarrow> string list \<Rightarrow> bool" where
  "split_of ns result rest \<longleftrightarrow> (\<exists>rs ms. result = map (anet_str k) rs \<and> rest = map (anet_str k) ms \<and>
     list_all ok rs \<and> list_all ok ms \<and> (\<forall>x. cnt (8 * k) (rs @ ms) x = cnt (8 * k) ns x))"

lemma split_of_start: "list_all ok ns \<Longrightarrow> split_of ns [] (map (anet_str k) ns)"
  by (auto simp: split_of_def)

lemma split_of_step:
  assumes "split_of ns result rest" "ExtractPrefix rest pl = Inr (p, rest')"
  shows "split_of ns (result @ [p]) rest'"
proof -
  obtain rs ms where s: "result = map (anet_str k) rs" "rest = map (anet_str k) ms"
    "list_all ok rs" "list_all ok ms" "\<forall>x. cnt (8 * k) (rs @ ms) x = cnt (8 * k) ns x"
    using assms(1) by (auto simp: split_of_def)
  from extract_sound [OF s(4) assms(2) [unfolded s(2)]] obtain m ms' where
    "p = anet_str k m" "rest' = map (anet_str k) ms'" "ok m" "list_all ok ms'"
    "\<forall>x. cnt (8 * k) (m # ms') x = cnt (8 * k) ms x" by blast
  then show ?thesis unfolding split_of_def using s
    by (intro exI [of _ "rs @ [m]"] exI [of _ ms']) auto
qed

lemma extract_required_split:
  "split_of ns result rest \<Longrightarrow> extract_required c pl result rest = Inr (result', rest') \<Longrightarrow>
   split_of ns result' rest' \<and> length result' = length result + c"
proof (induction c arbitrary: result rest)
  case (Suc c)
  from Suc.prems(2) obtain p rest1 where e: "ExtractPrefix rest pl = Inr (p, rest1)"
    "extract_required c pl (result @ [p]) rest1 = Inr (result', rest')"
    by (auto split: sum.splits)
  from Suc.IH [OF split_of_step [OF Suc.prems(1) e(1)] e(2)] show ?case by simp
qed simp

lemma extract_extra_split:
  "split_of ns result rest \<Longrightarrow> extract_extra c pl result rest = (result', rest') \<Longrightarrow>
   split_of ns result' rest' \<and> length result \<le> length result' \<and> length result' \<le> length result + c"
proof (induction c arbitrary: result rest)
  case (Suc c)
  show ?case
  proof (cases "ExtractPrefix rest pl")
    case (Inr pr)
    obtain p rest1 where pr: "pr = (p, rest1)" by fastforce
    with Inr Suc.prems(2) have "extract_extra c pl (result @ [p]) rest1 = (result', rest')" by simp
    from Suc.IH [OF split_of_step [OF Suc.prems(1) Inr [unfolded pr]] this] show ?thesis by simp
  qed (use Suc.prems in auto)
qed simp

lemma extract_all_required_split:
  "split_of ns result rest \<Longrightarrow> extract_all_required rqs result rest = Inr (result', rest') \<Longrightarrow>
   split_of ns result' rest' \<and>
   length result' = length result + sum_list (map (\<lambda>r. unat (RequiredNumber r)) rqs)"
proof (induction rqs arbitrary: result rest)
  case (Cons r rqs)
  from Cons.prems(2) obtain result1 rest1 where
    e: "extract_required (unat (RequiredNumber r)) (PrefixLen r) result rest = Inr (result1, rest1)"
      "extract_all_required rqs result1 rest1 = Inr (result', rest')"
    by (auto split: sum.splits)
  from extract_required_split [OF Cons.prems(1) e(1)] have
    1: "split_of ns result1 rest1" "length result1 = length result + unat (RequiredNumber r)" by auto
  from Cons.IH [OF 1(1) e(2)] 1(2) show ?case by simp
qed simp

lemma extract_all_extra_split:
  "split_of ns result rest \<Longrightarrow> extract_all_extra rqs result rest = (result', rest') \<Longrightarrow>
   split_of ns result' rest' \<and> length result \<le> length result' \<and>
   length result' \<le> length result +
     sum_list (map (\<lambda>r. unat (RequestedNumber r) - unat (RequiredNumber r)) rqs)"
proof (induction rqs arbitrary: result rest)
  case (Cons r rqs)
  obtain result1 rest1 where
    e: "extract_extra (unat (RequestedNumber r) - unat (RequiredNumber r)) (PrefixLen r) result rest = (result1, rest1)"
    by fastforce
  with Cons.prems(2) have e2: "extract_all_extra rqs result1 rest1 = (result', rest')" by simp
  from extract_extra_split [OF Cons.prems(1) e] have
    1: "split_of ns result1 rest1" "length result \<le> length result1"
      "length result1 \<le> length result + (unat (RequestedNumber r) - unat (RequiredNumber r))" by auto
  from Cons.IH [OF 1(1) e2] 1(2,3) show ?case by simp
qed simp

lemma extract_prefixes_split:
  assumes ns: "list_all ok ns" and e: "ExtractPrefixes (map (anet_str k) ns) rqs = Inr (result, rest)"
  shows "split_of ns result rest"
    and "sum_list (map (\<lambda>r. unat (RequiredNumber r)) rqs) \<le> length result"
    and "length result \<le> sum_list (map (\<lambda>r. unat (RequiredNumber r)) rqs) +
           sum_list (map (\<lambda>r. unat (RequestedNumber r) - unat (RequiredNumber r)) rqs)"
    and "result \<noteq> []"
proof -
  obtain result1 rest1 where r: "extract_all_required rqs [] (map (anet_str k) ns) = Inr (result1, rest1)"
    "extract_all_extra rqs result1 rest1 = (result, rest)" "result \<noteq> []"
    using e by (auto simp: ExtractPrefixes_def split: option.splits sum.splits prod.splits if_splits)
  from extract_all_required_split [OF split_of_start [OF ns] r(1)] have
    1: "split_of ns result1 rest1"
      "length result1 = sum_list (map (\<lambda>r. unat (RequiredNumber r)) rqs)" by auto
  from extract_all_extra_split [OF 1(1) r(2)] 1(2) r(3) show
    "split_of ns result rest"
    "sum_list (map (\<lambda>r. unat (RequiredNumber r)) rqs) \<le> length result"
    "length result \<le> sum_list (map (\<lambda>r. unat (RequiredNumber r)) rqs) +
           sum_list (map (\<lambda>r. unat (RequestedNumber r) - unat (RequiredNumber r)) rqs)"
    "result \<noteq> []" by auto
qed

end

end
