(* ===== verification/PoolRelease.thy ===== *)
theory PoolRelease
  imports PoolExtract
begin

text \<open>
  Merging released prefixes. Every pass over the levels keeps the number of
  times each address is covered and joins as many pairs as it counts; the last
  pass joins nothing, so the result is aggregated. All of it holds for every
  iteration order of the maps involved.
\<close>

definition conc :: "nat \<Rightarrow> (int \<times> anet list) list \<Rightarrow> (int \<times> IPNet list) list" where
  "conc k am = map (\<lambda>(b, ns). (b, map (anet_net k) ns)) am"

definition total :: "(int \<times> anet list) list \<Rightarrow> anet list" where
  "total am = concat (map snd am)"

definition get_level :: "(int \<times> anet list) list \<Rightarrow> int \<Rightarrow> anet list" where
  "get_level am b = (case map_of am b of None \<Rightarrow> [] | Some ns \<Rightarrow> ns)"

lemma delete_filter: "AList.delete k m = filter (\<lambda>e. fst e \<noteq> k) m"
  by (auto simp: AList.delete_eq intro: filter_cong)

lemma update_map_val:
  "AList.update b (f v) (map (\<lambda>(b, v). (b, f v)) m) = map (\<lambda>(b, v). (b, f v)) (AList.update b v m)"
  by (induction m) auto

lemma update_conc:
  "AList.update b (map (anet_net k) ns) (conc k am) = conc k (AList.update b ns am)"
  unfolding conc_def by (rule update_map_val)

lemma map_of_map_val: "map_of (map (\<lambda>(b, v). (b, f v)) m) b = map_option f (map_of m b)"
  by (induction m) auto

lemma get_nets_conc: "get_nets (conc k am) b = map (anet_net k) (get_level am b)"
  by (simp add: get_nets_def conc_def map_of_map_val get_level_def split: option.split)

lemma total_simps [simp]: "total [] = []" "total ((b, ns) # am) = ns @ total am"
  by (simp_all add: total_def)

lemma mset_total_update:
  "mset (total (AList.update b ns am)) + mset (get_level am b) = mset (total am) + mset ns"
proof (induction am)
  case (Cons e am)
  obtain a v where e: "e = (a, v)" by fastforce
  show ?case
  proof (cases "a = b")
    case True then show ?thesis by (simp add: e get_level_def)
  next
    case False
    then have "get_level (e # am) b = get_level am b" by (simp add: e get_level_def)
    then show ?thesis using Cons False by (simp add: e)
  qed
qed (simp add: get_level_def)

lemma get_level_update: "get_level (AList.update b ns am) c = (if c = b then ns else get_level am c)"
  by (simp add: get_level_def)

lemma perm_map:
  "mset xs = mset (map f ys) \<Longrightarrow> \<exists>zs. xs = map f zs \<and> mset zs = mset ys"
proof (induction xs arbitrary: ys)
  case (Cons x xs)
  have "x \<in># mset (map f ys)" by (metis Cons.prems list.set_intros(1) set_mset_mset)
  then obtain y where y: "y \<in> set ys" "x = f y" by auto
  then obtain us vs where u: "ys = us @ y # vs" by (meson split_list)
  have "mset xs = mset (map f (us @ vs))" using Cons.prems y u by simp
  from Cons.IH [OF this] obtain zs where "xs = map f zs" "mset zs = mset (us @ vs)" by auto
  then show ?case using y u by (intro exI [of _ "y # zs"]) simp
qed simp

lemma cnt_update:
  "cnt w (total (AList.update b ns am)) x + cnt w (get_level am b) x = cnt w (total am) x + cnt w ns x"
  using cnt_mset [of "total (AList.update b ns am) @ get_level am b" "total am @ ns" w x]
    mset_total_update [of b ns am] by simp

lemma length_update:
  "length (total (AList.update b ns am)) + length (get_level am b) = length (total am) + length ns"
  using arg_cong [OF mset_total_update [of b ns am], of size] by simp

lemma cnt_get_level: "cnt w (get_level am b) x \<le> cnt w (total am) x"
  using cnt_update [of w b "[]" am x] by simp

lemma merged_mset: "mset ns = mset ms \<Longrightarrow> merged w ns = merged w ms"
  unfolding merged_def by (metis mset_eq_imp_distinct_iff mset_map)

lemma merged_short: "length ns < 2 \<Longrightarrow> merged w ns"
  by (cases ns) (auto simp: merged_def)

lemma distinct_fst_update: "distinct (map fst m) \<Longrightarrow> distinct (map fst (AList.update b v m))"
  by (rule distinct_update)

lemma mset_total: "mset ar = mset am \<Longrightarrow> mset (total ar) = mset (total am)"
proof -
  have "mset (total xs) = \<Sum>\<^sub># (image_mset (mset \<circ> snd) (mset xs))" for xs
    by (induction xs) (auto simp: total_def)
  then show "mset ar = mset am \<Longrightarrow> mset (total ar) = mset (total am)" by simp
qed

lemma get_level_perm:
  assumes "mset ar = mset am" "distinct (map fst am)"
  shows "get_level ar b = get_level am b" "distinct (map fst ar)"
proof -
  show d: "distinct (map fst ar)" using assms by (metis mset_eq_imp_distinct_iff mset_map)
  have "map_of ar = map_of am"
    using map_of_inject_set [OF d assms(2)] mset_eq_setD [OF assms(1)] by simp
  then show "get_level ar b = get_level am b" by (simp add: get_level_def)
qed

lemma order_conc:
  assumes "is_order f"
  shows "\<exists>ar. f (conc k am) = conc k ar \<and> mset ar = mset am"
proof -
  have "mset (f (conc k am)) = mset (map (\<lambda>(b, ns). (b, map (anet_net k) ns)) am)"
    using is_order_mset [OF assms, of "conc k am"] by (simp only: conc_def)
  from perm_map [OF this] show ?thesis by (simp only: conc_def)
qed

lemma dedup_distinct: "distinct (enc @ xs) \<Longrightarrow> dedup_from enc xs = xs"
proof (induction xs arbitrary: enc)
  case (Cons x xs)
  then show ?case using Cons.IH [of "x # enc"] by auto
qed simp

lemma removeDuplicates_distinct: "distinct xs \<Longrightarrow> removeDuplicates xs = xs"
  by (simp add: removeDuplicates_def dedup_distinct)

lemma cnt_le_imp_distinct:
  assumes "\<And>x. cnt w ns x \<le> 1"
  shows "distinct ns"
  using assms
proof (induction ns)
  case (Cons n ns)
  have "cnt w ns x \<le> 1" for x using Cons.prems [of x] by simp
  moreover have "n \<notin> set ns"
    using cnt_le_distinct [of w "[n]" ns n n] Cons.prems by auto
  ultimately show ?case using Cons.IH by simp
qed simp

lemma be_to_be_inj: "a < 256 ^ k \<Longrightarrow> b < 256 ^ k \<Longrightarrow> to_be k a = to_be k b \<Longrightarrow> a = b"
  by (metis be_nat_to_be_id)

context cidr_family
begin

abbreviation (input) at_level :: "int \<Rightarrow> anet \<Rightarrow> bool" where
  "at_level b n \<equiv> ok n \<and> int (snd n) = b"

definition base_map :: "anet list \<Rightarrow> (string \<times> IPNet) list" where
  "base_map bs = map (\<lambda>n. (anet_str k (base_key (8 * k) n), anet_net k n)) bs"

lemma base_key_wf: "ok n \<Longrightarrow> anet_wf (8 * k) (base_key (8 * k) n)"
proof -
  assume "ok n"
  then have w: "anet_wf (8 * k) n" by (rule ok_wf)
  let ?m = "8 * k - snd n"
  have "(2::nat) ^ ?m dvd 2 ^ (?m + 1)" by (rule le_imp_power_dvd) simp
  moreover have "2 ^ (?m + 1) dvd parent_base (8 * k) n"
    by (simp add: parent_base_def minus_mod_eq_mult_div)
  ultimately have "2 ^ ?m dvd parent_base (8 * k) n" by (rule dvd_trans)
  then show ?thesis using w by (auto simp: anet_wf_def base_key_def parent_base_def)
qed

lemma base_key_str:
  assumes "ok n" "ok m" "snd n = snd m"
  shows "anet_str k (base_key (8 * k) n) = anet_str k (base_key (8 * k) m) \<longleftrightarrow>
    base_key (8 * k) n = base_key (8 * k) m"
  using print_inj [of "parent_base (8 * k) n" "snd n" "parent_base (8 * k) m"]
    base_key_wf [OF assms(1)] base_key_wf [OF assms(2)] assms(3)
  by (auto simp: base_key_def)

lemma merge_level_step:
  "at_level b n \<Longrightarrow> merge_level b (anet_net k n # ns) base ps c =
     (let key = anet_str k (base_key (8 * k) n) in
      case map_of base key of
        None \<Rightarrow> merge_level b ns (AList.update key (anet_net k n) base) ps c
      | Some _ \<Rightarrow> merge_level b ns (AList.delete key base)
          (ps @ [\<lparr>IP = to_be k (parent_base (8 * k) n), Mask = CIDRMask (b - 1) (8 * int k)\<rparr>]) (Suc c))"
  using clear_net [of n] size_net [of n] ok_len [of n]
  by (auto simp: Let_def anet_str_def anet_net_def mknet_def base_key_def split: option.split)


lemma join_siblings:
  assumes n: "at_level b n" and m: "at_level b m" and neq: "n \<noteq> m"
    and key: "base_key (8 * k) m = base_key (8 * k) n"
  defines "p \<equiv> (parent_base (8 * k) n, snd n - 1)"
  shows "at_level (b - 1) p"
    and "(if holds (8 * k) x n then 1 else (0::nat)) + (if holds (8 * k) x m then 1 else 0) =
         (if holds (8 * k) x p then 1 else 0)"
    and "\<lparr>IP = to_be k (parent_base (8 * k) n), Mask = CIDRMask (b - 1) (8 * int k)\<rparr> = anet_net k p"
proof -
  have lev: "snd m = snd n" using n m by auto
  then have me: "(fst n, snd n) = n" "(fst m, snd n) = m" by (simp_all add: prod_eq_iff)
  have sib: "fst n \<noteq> fst m" "parent_base (8 * k) (fst n, snd n) = parent_base (8 * k) (fst m, snd n)"
    unfolding me using neq lev key by (auto simp: base_key_def prod_eq_iff)
  have oks: "ok (fst n, snd n)" "ok (fst m, snd n)" using n m by (simp_all only: me)
  note wfs = ok_wf [OF oks(1)] ok_wf [OF oks(2)]
  have pos: "0 < snd n" by (rule siblings(1) [OF wfs sib])
  show "at_level (b - 1) p" using ok_join [OF oks sib] pos n by (simp add: p_def me)
  show "(if holds (8 * k) x n then 1 else (0::nat)) + (if holds (8 * k) x m then 1 else 0) =
         (if holds (8 * k) x p then 1 else 0)"
    using siblings(3) [OF wfs sib, of x] by (simp only: me p_def)
  show "\<lparr>IP = to_be k (parent_base (8 * k) n), Mask = CIDRMask (b - 1) (8 * int k)\<rparr> = anet_net k p"
    using n pos by (simp add: p_def anet_net_def mknet_def of_nat_diff)
qed

lemma base_map_key:
  assumes "list_all (at_level b) bs" "at_level b n" "m \<in> set bs"
  shows "anet_str k (base_key (8 * k) m) = anet_str k (base_key (8 * k) n) \<longleftrightarrow>
    base_key (8 * k) m = base_key (8 * k) n"
  using base_key_str [of m n] assms by (auto simp: list_all_iff)

lemma base_map_fresh:
  assumes "list_all (at_level b) bs" "at_level b n"
    and "\<forall>m \<in> set bs. base_key (8 * k) m \<noteq> base_key (8 * k) n"
  shows "map_of (base_map bs) (anet_str k (base_key (8 * k) n)) = None"
    and "AList.update (anet_str k (base_key (8 * k) n)) (anet_net k n) (base_map bs) = base_map (bs @ [n])"
proof -
  have "\<forall>m \<in> set bs. anet_str k (base_key (8 * k) m) \<noteq> anet_str k (base_key (8 * k) n)"
    using assms base_map_key by blast
  then have fresh: "anet_str k (base_key (8 * k) n) \<notin> fst ` set (base_map bs)"
    unfolding base_map_def by (metis (no_types, lifting) fst_conv imageE list.set_map)
  then show "map_of (base_map bs) (anet_str k (base_key (8 * k) n)) = None"
    by (simp add: map_of_eq_None_iff)
  show "AList.update (anet_str k (base_key (8 * k) n)) (anet_net k n) (base_map bs) = base_map (bs @ [n])"
    using fresh by (simp add: update_fresh map_of_eq_None_iff base_map_def)
qed

lemma base_map_remove:
  assumes bs: "list_all (at_level b) (us @ m # vs)" "distinct (map (base_key (8 * k)) (us @ m # vs))"
    and n: "at_level b n" "base_key (8 * k) m = base_key (8 * k) n"
  shows "map_of (base_map (us @ m # vs)) (anet_str k (base_key (8 * k) n)) \<noteq> None"
    and "AList.delete (anet_str k (base_key (8 * k) n)) (base_map (us @ m # vs)) = base_map (us @ vs)"
proof -
  let ?key = "anet_str k (base_key (8 * k) n)"
  have "?key \<in> fst ` set (base_map (us @ m # vs))" using n(2) by (auto simp: base_map_def image_iff)
  then show "map_of (base_map (us @ m # vs)) ?key \<noteq> None" by (simp add: map_of_eq_None_iff)
  have "\<forall>u \<in> set (us @ vs). base_key (8 * k) u \<noteq> base_key (8 * k) m"
    using distinct_map_split [OF bs(2)] by blast
  then have "\<forall>u \<in> set (us @ vs). anet_str k (base_key (8 * k) u) \<noteq> ?key"
    using base_map_key [OF bs(1) n(1)] unfolding n(2) by (metis Un_iff insertCI list.set(2) set_append)
  then have "filter (\<lambda>u. anet_str k (base_key (8 * k) u) \<noteq> ?key) us = us"
    "filter (\<lambda>u. anet_str k (base_key (8 * k) u) \<noteq> ?key) vs = vs"
    by (simp_all add: filter_id_conv)
  then show "AList.delete ?key (base_map (us @ m # vs)) = base_map (us @ vs)"
    by (simp add: delete_filter base_map_def filter_map o_def n(2))
qed

text \<open>What one level's merge leaves: unmerged networks \<open>bs'\<close> and joined ones \<open>ps'\<close>.\<close>

definition level_result :: "int \<Rightarrow> anet list \<Rightarrow> anet list \<Rightarrow> anet list \<Rightarrow> bool" where
  "level_result b ns bs' ps' \<longleftrightarrow> list_all (at_level b) bs' \<and> merged (8 * k) bs' \<and>
     list_all (at_level (b - 1)) ps' \<and>
     (\<forall>x. cnt (8 * k) (bs' @ ps') x = cnt (8 * k) ns x) \<and>
     length bs' + 2 * length ps' = length ns \<and>
     (ps' = [] \<longrightarrow> mset bs' = mset ns)"

lemma merge_level_sound:
  assumes "list_all (at_level b) as" "list_all (at_level b) bs" "merged (8 * k) bs"
    and "\<And>x. cnt (8 * k) (as @ bs) x \<le> 1"
  shows "\<exists>bs' ps'. merge_level b (map (anet_net k) as) (base_map bs) ps c =
       Inr (base_map bs', ps @ map (anet_net k) ps', c + length ps') \<and>
     level_result b (as @ bs) bs' ps'"
  using assms
proof (induction as arbitrary: bs ps c)
  case Nil
  then show ?case by (intro exI [of _ bs] exI [of _ "[]"]) (simp add: level_result_def)
next
  case (Cons n as)
  have n: "at_level b n" and as: "list_all (at_level b) as" using Cons.prems(1) by auto
  have cnt1: "cnt (8 * k) (n # as @ bs) x \<le> 1" for x using Cons.prems(4) [of x] by simp
  show ?case
  proof (cases "\<exists>m \<in> set bs. base_key (8 * k) m = base_key (8 * k) n")
    case False
    have "list_all (at_level b) (bs @ [n])" "merged (8 * k) (bs @ [n])"
      using Cons.prems(2,3) n False by (auto simp: merged_def)
    moreover have "cnt (8 * k) (as @ bs @ [n]) x \<le> 1" for x using cnt1 [of x] by simp
    ultimately obtain bs' ps' where r:
      "merge_level b (map (anet_net k) as) (base_map (bs @ [n])) ps c =
         Inr (base_map bs', ps @ map (anet_net k) ps', c + length ps')"
      "level_result b (as @ bs @ [n]) bs' ps'"
      using Cons.IH [OF as, of "bs @ [n]" ps c] by blast
    have "merge_level b (map (anet_net k) (n # as)) (base_map bs) ps c =
        merge_level b (map (anet_net k) as) (base_map (bs @ [n])) ps c"
      using n base_map_fresh [OF Cons.prems(2) n] False
      by (simp add: merge_level_step Let_def del: merge_level.simps)
    with r show ?thesis
      by (intro exI [of _ bs'] exI [of _ ps']) (auto simp: level_result_def)
  next
    case True
    then obtain m us vs where m: "bs = us @ m # vs" "base_key (8 * k) m = base_key (8 * k) n"
      by (meson split_list)
    have okm: "at_level b m" using Cons.prems(2) m by simp
    have neq: "n \<noteq> m" using cnt_le_distinct [of "8 * k" "n # as" bs n m] Cons.prems(4) m by simp
    let ?p = "(parent_base (8 * k) n, snd n - 1)"
    note p = join_siblings [OF n okm neq m(2)]
    have "list_all (at_level b) (us @ vs)" "merged (8 * k) (us @ vs)"
      using Cons.prems(2,3) m by (auto simp: merged_def)
    moreover have "cnt (8 * k) (as @ us @ vs) x \<le> 1" for x using cnt1 [of x] m by simp
    ultimately obtain bs' ps' where r:
      "merge_level b (map (anet_net k) as) (base_map (us @ vs)) (ps @ [anet_net k ?p]) (Suc c) =
         Inr (base_map bs', (ps @ [anet_net k ?p]) @ map (anet_net k) ps', Suc c + length ps')"
      "level_result b (as @ us @ vs) bs' ps'"
      using Cons.IH [OF as, of "us @ vs" "ps @ [anet_net k ?p]" "Suc c"] by blast
    note rm = base_map_remove [OF Cons.prems(2,3) [unfolded m(1) merged_def] n m(2)]
    from rm(1) obtain v where
      v: "map_of (base_map (us @ m # vs)) (anet_str k (base_key (8 * k) n)) = Some v" by blast
    have "merge_level b (map (anet_net k) (n # as)) (base_map bs) ps c =
        merge_level b (map (anet_net k) as) (base_map (us @ vs)) (ps @ [anet_net k ?p]) (Suc c)"
      unfolding list.map merge_level_step [OF n] m(1) Let_def v p(3) rm(2) by simp
    moreover have "cnt (8 * k) (bs' @ ?p # ps') x = cnt (8 * k) ((n # as) @ bs) x" for x
    proof -
      have "cnt (8 * k) (bs' @ ps') x = cnt (8 * k) (as @ us @ vs) x"
        using r(2) by (simp only: level_result_def)
      then show ?thesis using p(2) [of x] m(1) by simp
    qed
    ultimately show ?thesis using r p(1) m
      by (intro exI [of _ bs'] exI [of _ "?p # ps'"]) (simp add: level_result_def)
  qed
qed

end

context cidr_family
begin

definition levels_ok :: "(int \<times> anet list) list \<Rightarrow> bool" where
  "levels_ok am \<longleftrightarrow> distinct (map fst am) \<and> (\<forall>b. list_all (at_level b) (get_level am b))"

lemma levels_ok_update:
  "levels_ok am \<Longrightarrow> list_all (at_level b) ns \<Longrightarrow> levels_ok (AList.update b ns am)"
  by (auto simp: levels_ok_def get_level_update distinct_fst_update)

lemma levels_ok_Cons:
  "levels_ok ((b, v) # am) \<Longrightarrow>
     list_all (at_level b) v \<and> levels_ok am \<and> (\<forall>c \<in> fst ` set am. c \<noteq> b)"
proof -
  assume a: "levels_ok ((b, v) # am)"
  then have d: "distinct (map fst am)" "b \<notin> fst ` set am" by (auto simp: levels_ok_def)
  have g: "get_level ((b, v) # am) c = (if c = b then v else get_level am c)" for c
    by (simp add: get_level_def)
  have "map_of am b = None" using d(2) by (simp add: map_of_eq_None_iff)
  then have "get_level am b = []" by (simp add: get_level_def)
  then have "list_all (at_level c) (get_level am c)" for c
    using a [unfolded levels_ok_def, THEN conjunct2, rule_format, of c] g [of c]
    by (cases "c = b") auto
  moreover have "list_all (at_level b) v"
    using a [unfolded levels_ok_def, THEN conjunct2, rule_format, of b] g [of b] by simp
  ultimately show ?thesis using d by (auto simp: levels_ok_def)
qed

lemma levels_ok_Nil [simp]: "levels_ok []"
  by (simp add: levels_ok_def get_level_def)

lemma left_prefixes:
  assumes "is_order f"
  shows "\<exists>bs'. map snd (f (base_map bs)) = map (anet_net k) bs' \<and> mset bs' = mset bs"
proof -
  from is_order_mset [OF assms, of "base_map bs"] obtain bs' where
    "f (base_map bs) = map (\<lambda>n. (anet_str k (base_key (8 * k) n), anet_net k n)) bs'" "mset bs' = mset bs"
    using perm_map [of "f (base_map bs)" _ bs] unfolding base_map_def by blast
  then show ?thesis by (intro exI [of _ bs']) simp
qed

text \<open>What a pass leaves, from the levels \<open>ar\<close> to visit and the levels \<open>an\<close> built so far.\<close>

definition pass_result :: "(int \<times> anet list) list \<Rightarrow> (int \<times> anet list) list \<Rightarrow>
    (int \<times> anet list) list \<Rightarrow> nat \<Rightarrow> bool" where
  "pass_result ar an an' d \<longleftrightarrow> levels_ok an' \<and>
     (\<forall>x. cnt (8 * k) (total an') x = cnt (8 * k) (total ar @ total an) x) \<and>
     length (total an') + d = length (total ar) + length (total an) \<and>
     (d = 0 \<longrightarrow> (\<forall>b \<in> fst ` set ar. get_level an b = []) \<longrightarrow>
        (\<forall>b. merged (8 * k) (get_level an b)) \<longrightarrow> (\<forall>b. merged (8 * k) (get_level an' b)))"

lemma pass_result_step:
  assumes "pass_result ar an2 an' d2"
    and "\<And>x. cnt (8 * k) (total an2) x = cnt (8 * k) (v @ total an) x"
    and "length (total an2) + d1 = length v + length (total an)"
    and "d1 = 0 \<Longrightarrow> \<forall>c \<in> fst ` set ar. c \<noteq> b \<Longrightarrow> get_level an b = [] \<Longrightarrow>
      (\<forall>c. c \<noteq> b \<longrightarrow> get_level an2 c = get_level an c) \<and> merged (8 * k) (get_level an2 b)"
    and "\<forall>c \<in> fst ` set ar. c \<noteq> b"
  shows "pass_result ((b, v) # ar) an an' (d1 + d2)"
proof -
  have "\<forall>c. merged (8 * k) (get_level an' c)"
    if z: "d1 + d2 = 0" and em: "\<forall>c \<in> fst ` set ((b, v) # ar). get_level an c = []"
      and mg: "\<forall>c. merged (8 * k) (get_level an c)"
  proof -
    have "d1 = 0" "d2 = 0" "get_level an b = []" using z em by auto
    from assms(4) [OF this(1) assms(5) this(3)] have
      g: "\<And>c. c \<noteq> b \<Longrightarrow> get_level an2 c = get_level an c" "merged (8 * k) (get_level an2 b)" by auto
    have "merged (8 * k) (get_level an2 c)" for c using g mg by (cases "c = b") auto
    moreover have "\<forall>c \<in> fst ` set ar. get_level an2 c = []" using em g(1) assms(5) by simp
    ultimately show ?thesis using assms(1) \<open>d2 = 0\<close> unfolding pass_result_def by blast
  qed
  then show ?thesis using assms(1-3) by (simp add: pass_result_def)
qed

text \<open>One level of a pass: the levels built so far grow by the networks of the level.\<close>

definition level_step :: "int \<Rightarrow> anet list \<Rightarrow> (int \<times> anet list) list \<Rightarrow> (int \<times> anet list) list \<Rightarrow> nat \<Rightarrow> bool" where
  "level_step b v an an2 d \<longleftrightarrow> levels_ok an2 \<and>
     (\<forall>x. cnt (8 * k) (total an2) x = cnt (8 * k) (v @ total an) x) \<and>
     length (total an2) + d = length v + length (total an) \<and>
     (d = 0 \<longrightarrow> get_level an b = [] \<longrightarrow>
        (\<forall>c. c \<noteq> b \<longrightarrow> get_level an2 c = get_level an c) \<and> merged (8 * k) (get_level an2 b))"

lemma merge_pass_short:
  assumes "levels_ok an" "list_all (at_level b) v" "length (get_level an b @ v) < 2"
  shows "\<exists>an2. (\<forall>rest. merge_pass o1 n ((b, map (anet_net k) v) # rest) (conc k an) c =
      merge_pass o1 n rest (conc k an2) (c + 0)) \<and> level_step b v an an2 0"
proof -
  let ?cv = "get_level an b @ v"
  let ?an = "AList.update b ?cv an"
  have cv: "get_nets (conc k an) b @ map (anet_net k) v = map (anet_net k) ?cv"
    by (simp add: get_nets_conc)
  have "list_all (at_level b) ?cv" using assms by (simp add: levels_ok_def)
  then have "level_step b v an ?an 0"
    using levels_ok_update [OF assms(1)] cnt_update [of "8 * k" b ?cv an] length_update [of b ?cv an]
      merged_short [OF assms(3), of "8 * k"]
    by (auto simp: level_step_def get_level_update)
  moreover have "merge_pass o1 n ((b, map (anet_net k) v) # rest) (conc k an) c =
      merge_pass o1 n rest (conc k ?an) (c + 0)" for rest
    using assms(3) by (simp add: cv Let_def update_conc del: map_append)
  ultimately show ?thesis by blast
qed

lemma level_step_join:
  assumes an: "levels_ok an" and lr: "level_result b (get_level an b @ v) bs ps"
    and bs': "mset bs' = mset bs"
  defines "an1 \<equiv> AList.update b bs' an"
  shows "level_step b v an (AList.update (b - 1) (get_level an1 (b - 1) @ ps) an1) (length ps)"
proof -
  let ?an2 = "AList.update (b - 1) (get_level an1 (b - 1) @ ps) an1"
  have bsl: "list_all (at_level b) bs'" "merged (8 * k) bs'" "list_all (at_level (b - 1)) ps"
    "cnt (8 * k) (bs @ ps) x = cnt (8 * k) (get_level an b @ v) x"
    "length bs + 2 * length ps = length (get_level an b @ v)" for x
    using lr merged_mset [OF bs'] mset_eq_setD [OF bs']
    by (auto simp: level_result_def list_all_iff)
  have "cnt (8 * k) (total ?an2) x = cnt (8 * k) (v @ total an) x" for x
    using cnt_update [of "8 * k" b bs' an x] cnt_mset [OF bs', of "8 * k" x] bsl(4) [of x]
      cnt_update [of "8 * k" "b - 1" "get_level an1 (b - 1) @ ps" an1 x]
    by (simp add: an1_def)
  moreover have "length (total ?an2) + length ps = length v + length (total an)"
    using length_update [of b bs' an] mset_eq_length [OF bs'] bsl(5)
      length_update [of "b - 1" "get_level an1 (b - 1) @ ps" an1]
    by (simp add: an1_def)
  moreover have lok: "levels_ok an1" unfolding an1_def by (rule levels_ok_update [OF an bsl(1)])
  moreover have "levels_ok ?an2"
    by (rule levels_ok_update [OF lok]) (use lok bsl(3) in \<open>simp add: levels_ok_def\<close>)
  ultimately show ?thesis using bsl(2) by (auto simp: level_step_def get_level_update an1_def)
qed

lemma merge_pass_join:
  assumes o: "is_order (ord_base o1 n b)"
    and an: "levels_ok an" and v: "list_all (at_level b) v" and len: "\<not> length (get_level an b @ v) < 2"
    and le1: "\<And>x. cnt (8 * k) (v @ total an) x \<le> 1"
  shows "\<exists>an2 d. (\<forall>rest. merge_pass o1 n ((b, map (anet_net k) v) # rest) (conc k an) c =
      merge_pass o1 n rest (conc k an2) (c + d)) \<and> level_step b v an an2 d"
proof -
  let ?cv = "get_level an b @ v"
  have cv: "get_nets (conc k an) b @ map (anet_net k) v = map (anet_net k) ?cv"
    by (simp add: get_nets_conc)
  have cvl: "list_all (at_level b) ?cv" using v an by (simp add: levels_ok_def)
  have le: "cnt (8 * k) (?cv @ []) x \<le> 1" for x
    using le1 [of x] cnt_get_level [of "8 * k" an b x] by simp
  have nil: "list_all (at_level b) []" "merged (8 * k) []" by (simp_all add: merged_def)
  obtain bs ps where m: "merge_level b (map (anet_net k) ?cv) (base_map []) [] c =
       Inr (base_map bs, [] @ map (anet_net k) ps, c + length ps)" and lr: "level_result b ?cv bs ps"
    using merge_level_sound [OF cvl nil le, of "[]" c] by auto
  obtain bs' where bs': "map snd (ord_base o1 n b (base_map bs)) = map (anet_net k) bs'" "mset bs' = mset bs"
    using left_prefixes [OF o, of bs] by blast
  let ?an1 = "AList.update b bs' an"
  let ?an2 = "AList.update (b - 1) (get_level ?an1 (b - 1) @ ps) ?an1"
  have u2: "AList.update (b - 1) (get_nets (conc k ?an1) (b - 1) @ map (anet_net k) ps) (conc k ?an1) = conc k ?an2"
    using update_conc [of "b - 1" k "get_level ?an1 (b - 1) @ ps" ?an1] by (simp add: get_nets_conc)
  have "merge_pass o1 n ((b, map (anet_net k) v) # rest) (conc k an) c =
      merge_pass o1 n rest (conc k ?an2) (c + length ps)" for rest
    using len m bs'(1) u2
    by (simp add: cv Let_def update_conc base_map_def [of "[]"] del: map_append)
  with level_step_join [OF an lr bs'(2)] show ?thesis by blast
qed

lemma merge_pass_sound:
  assumes o: "\<And>b. is_order (ord_base o1 n b)"
  shows "levels_ok ar \<Longrightarrow> levels_ok an \<Longrightarrow> (\<And>x. cnt (8 * k) (total ar @ total an) x \<le> 1) \<Longrightarrow>
    \<exists>an' d. merge_pass o1 n (conc k ar) (conc k an) c = Inr (conc k an', c + d) \<and>
      pass_result ar an an' d"
proof (induction ar arbitrary: an c)
  case Nil
  then show ?case
    by (intro exI [of _ an] exI [of _ 0]) (simp add: conc_def pass_result_def)
next
  case (Cons e ar)
  obtain b v where e: "e = (b, v)" by fastforce
  from levels_ok_Cons Cons.prems(1) e have
    v: "list_all (at_level b) v" "levels_ok ar" "\<forall>c \<in> fst ` set ar. c \<noteq> b" by auto
  have le: "cnt (8 * k) (v @ total an) x + cnt (8 * k) (total ar) x \<le> 1" for x
    using Cons.prems(3) [of x] e by simp
  then have le1: "cnt (8 * k) (v @ total an) x \<le> 1" for x by (meson add_leD1)
  obtain an2 d1 where s: "\<And>rest. merge_pass o1 n ((b, map (anet_net k) v) # rest) (conc k an) c =
      merge_pass o1 n rest (conc k an2) (c + d1)" "level_step b v an an2 d1"
    using merge_pass_short [OF Cons.prems(2) v(1)] merge_pass_join [OF o Cons.prems(2) v(1) _ le1] by meson
  then have "\<exists>an' d. merge_pass o1 n (conc k ar) (conc k an2) (c + d1) = Inr (conc k an', c + d1 + d) \<and>
      pass_result ar an2 an' d"
    by (intro Cons.IH [OF v(2)]) (use le in \<open>simp_all add: level_step_def add.commute\<close>)
  then obtain an' d where r: "merge_pass o1 n (conc k ar) (conc k an2) (c + d1) = Inr (conc k an', c + d1 + d)"
    "pass_result ar an2 an' d" by blast
  have "pass_result (e # ar) an an' (d1 + d)"
    unfolding e by (rule pass_result_step [OF r(2) _ _ _ v(3)]) (use s(2) in \<open>simp_all add: level_step_def\<close>)
  moreover have "merge_pass o1 n (conc k (e # ar)) (conc k an) c = Inr (conc k an', c + (d1 + d))"
    using s(1) [of "conc k ar"] r(1) by (simp add: e conc_def add.assoc)
  ultimately show ?case by blast
qed

end

context cidr_family
begin

lemma levels_ok_perm: "mset ar = mset am \<Longrightarrow> levels_ok am \<Longrightarrow> levels_ok ar"
  using get_level_perm [of ar am] by (simp add: levels_ok_def)

lemma total_ok: "levels_ok am \<Longrightarrow> list_all ok (total am)"
proof (induction am)
  case (Cons e am)
  obtain b v where e: "e = (b, v)" by fastforce
  from levels_ok_Cons [OF Cons.prems [unfolded e]] Cons.IH show ?case
    by (auto simp: e list_all_iff)
qed simp

lemma total_level: "levels_ok am \<Longrightarrow> n \<in> set (total am) \<Longrightarrow> int (snd n) \<in> fst ` set am"
proof (induction am)
  case (Cons e am)
  obtain b v where e: "e = (b, v)" by fastforce
  from levels_ok_Cons [OF Cons.prems(1) [unfolded e]] Cons show ?case
    by (auto simp: e list_all_iff)
qed simp

lemma merged_total:
  "levels_ok am \<Longrightarrow> (\<And>b. merged (8 * k) (get_level am b)) \<Longrightarrow> merged (8 * k) (total am)"
proof (induction am)
  case (Cons e am)
  obtain b v where e: "e = (b, v)" by fastforce
  from levels_ok_Cons [OF Cons.prems(1) [unfolded e]] have
    v: "list_all (at_level b) v" "levels_ok am" "\<forall>c \<in> fst ` set am. c \<noteq> b" by auto
  have g: "get_level (e # am) c = (if c = b then v else get_level am c)" for c
    by (simp add: e get_level_def)
  have "map_of am b = None" using v(3) by (metis map_of_eq_None_iff)
  then have "get_level am b = []" by (simp add: get_level_def)
  then have "merged (8 * k) (get_level am c)" for c
    using Cons.prems(2) [of c] g [of c] by (cases "c = b") (auto simp: merged_def)
  then have m: "merged (8 * k) (total am)" "merged (8 * k) v"
    using Cons.IH [OF v(2)] Cons.prems(2) [of b] g [of b] by auto
  have "base_key (8 * k) n \<noteq> base_key (8 * k) m" if "n \<in> set v" "m \<in> set (total am)" for n m
  proof -
    have "int (snd n) = b" "int (snd m) \<noteq> b"
      using that v(1) total_level [OF v(2) that(2)] v(3) by (auto simp: list_all_iff)
    then show ?thesis by (auto simp: base_key_def)
  qed
  then have "base_key (8 * k) ` set v \<inter> base_key (8 * k) ` set (total am) = {}" by blast
  then show ?case using m by (simp add: e merged_def)
qed (simp add: merged_def)

text \<open>The loop returns, and what it returns covers the same addresses, fully merged.\<close>

definition release_result :: "anet list \<Rightarrow> string list result option \<Rightarrow> bool" where
  "release_result ns r \<longleftrightarrow> (\<exists>ms. r = Some (Inr (map (anet_str k) ms)) \<and> list_all ok ms \<and>
     (\<forall>x. cnt (8 * k) ms x = cnt (8 * k) ns x) \<and> merged (8 * k) ms)"

lemma release_loop_sound:
  assumes o: "orders_ok o1"
  shows "levels_ok am \<Longrightarrow> (\<And>x. cnt (8 * k) (total am) x \<le> 1) \<Longrightarrow> length (total am) < fuel \<Longrightarrow>
    release_result (total am) (release_loop fuel o1 n (conc k am))"
proof (induction fuel arbitrary: n am)
  case (Suc fuel)
  have ord: "is_order (ord_levels o1 n)" "\<And>b. is_order (ord_base o1 n b)" "is_order (ord_result o1)"
    using o by (auto simp: orders_ok_def)
  obtain ar where ar: "ord_levels o1 n (conc k am) = conc k ar" "mset ar = mset am"
    using order_conc [OF ord(1)] by blast
  note mt = mset_total [OF ar(2)]
  have lar: "levels_ok ar" by (rule levels_ok_perm [OF ar(2) Suc.prems(1)])
  have le: "cnt (8 * k) (total ar @ total []) x \<le> 1" for x
    using cnt_mset [OF mt, of "8 * k" x] Suc.prems(2) [of x] by simp
  obtain an d where p: "merge_pass o1 n (conc k ar) (conc k []) 0 = Inr (conc k an, 0 + d)"
    "pass_result ar [] an d"
    using merge_pass_sound [OF ord(2) lar levels_ok_Nil le] by blast
  then have an: "levels_ok an" "\<And>x. cnt (8 * k) (total an) x = cnt (8 * k) (total am) x"
    "length (total an) + d = length (total am)"
    using cnt_mset [OF mt] mset_eq_length [OF mt] by (auto simp: pass_result_def)
  show ?case
  proof (cases "d = 0")
    case False
    then have "release_result (total an) (release_loop fuel o1 (Suc n) (conc k an))"
      using an Suc.prems by (intro Suc.IH) auto
    then show ?thesis using p(1) False an(2) by (simp add: ar(1) conc_def [of k "[]"] release_result_def)
  next
    case True
    have "\<forall>b. merged (8 * k) (get_level an b)"
      using p(2) True by (simp add: pass_result_def get_level_def merged_def)
    then have m: "merged (8 * k) (total an)" using merged_total [OF an(1)] by blast
    obtain as where as: "ord_result o1 (conc k an) = conc k as" "mset as = mset an"
      using order_conc [OF ord(3)] by blast
    note ma = mset_total [OF as(2)]
    have "concat (map (\<lambda>(_, v). map IPNet_String v) (conc k as)) = map (anet_str k) (total as)"
      by (induction as) (auto simp: conc_def anet_str_def)
    then have "release_loop (Suc fuel) o1 n (conc k am) = Some (Inr (map (anet_str k) (total as)))"
      using p(1) True by (simp add: ar(1) as(1) conc_def [of k "[]"])
    moreover have "list_all ok (total as)"
      using total_ok [OF levels_ok_perm [OF as(2) an(1)]] .
    moreover have "merged (8 * k) (total as)" using m merged_mset [OF ma] by simp
    moreover have "cnt (8 * k) (total as) x = cnt (8 * k) (total am) x" for x
      using cnt_mset [OF ma] an(2) by simp
    ultimately show ?thesis unfolding release_result_def by blast
  qed
qed simp

lemma group_sound:
  "list_all ok ns \<Longrightarrow> levels_ok am \<Longrightarrow>
   \<exists>am'. group_prefixes (map (anet_str k) ns) (conc k am) = Inr (conc k am') \<and> levels_ok am' \<and>
     mset (total am') = mset (total am) + mset ns"
proof (induction ns arbitrary: am)
  case (Cons n ns)
  let ?b = "int (snd n)"
  let ?am = "AList.update ?b (get_level am ?b @ [n]) am"
  have ok: "ok n" "list_all ok ns" using Cons.prems by auto
  have "list_all (at_level ?b) (get_level am ?b @ [n])"
    using Cons.prems(2) [unfolded levels_ok_def, THEN conjunct2, rule_format, of ?b] ok(1) by simp
  note lok = levels_ok_update [OF Cons.prems(2) this]
  from Cons.IH [OF ok(2) lok] obtain am' where r: "group_prefixes (map (anet_str k) ns) (conc k ?am) = Inr (conc k am')"
    "levels_ok am'" "mset (total am') = mset (total ?am) + mset ns"
    by blast
  from parse_print [OF ok(1)] obtain ip where
    ip: "ParseCIDR (anet_str k n) = Inr (ip, anet_net k n)" ..
  have u: "AList.update ?b (get_nets (conc k am) ?b @ [anet_net k n]) (conc k am) = conc k ?am"
    using update_conc [of ?b k "get_level am ?b @ [n]" am] by (simp add: get_nets_conc)
  have "group_prefixes (map (anet_str k) (n # ns)) (conc k am) = group_prefixes (map (anet_str k) ns) (conc k ?am)"
    by (simp only: list.map group_prefixes.simps ip sum.case prod.case size_net [OF ok_len [OF ok(1)]]
        fst_conv Let_def u)
  moreover have "mset (total ?am) = mset (total am) + {#n#}"
    using mset_total_update [of ?b "get_level am ?b @ [n]" am] by simp
  ultimately show ?case using r by (intro exI [of _ am']) simp
next
  case Nil
  then show ?case by (intro exI [of _ am]) simp
qed

lemma anet_net_inj: "ok n \<Longrightarrow> ok m \<Longrightarrow> anet_net k n = anet_net k m \<Longrightarrow> n = m"
proof -
  assume a: "ok n" "ok m" "anet_net k n = anet_net k m"
  have "snd n = snd m" using size_net [OF ok_len [OF a(1)]] size_net [OF ok_len [OF a(2)]] a(3) by simp
  moreover have "fst n = fst m"
    using a be_to_be_inj [of "fst n" k "fst m"] ok_less [OF a(1)] ok_less [OF a(2)]
    by (simp add: anet_net_def mknet_def pow_bytes)
  ultimately show "n = m" by (simp add: prod_eq_iff)
qed

lemma anet_str_inj: "ok n \<Longrightarrow> ok m \<Longrightarrow> anet_str k n = anet_str k m \<Longrightarrow> n = m"
  by (rule anet_net_inj) (use parse_print [of n] parse_print [of m] in auto)

lemma distinct_strs: "list_all ok ns \<Longrightarrow> distinct ns \<Longrightarrow> distinct (map (anet_str k) ns)"
  unfolding distinct_map inj_on_def list_all_iff using anet_str_inj by blast

lemma release_sound:
  assumes o: "orders_ok o1" and ok: "list_all ok (ns @ rs)" and rs: "rs \<noteq> []"
    and le: "\<And>x. cnt (8 * k) (ns @ rs) x \<le> 1"
  shows "release_result (ns @ rs) (ReleasePrefixes o1 (map (anet_str k) ns) (map (anet_str k) rs))"
proof -
  have "distinct (ns @ rs)" using cnt_le_imp_distinct [OF le] .
  then have "distinct (map (anet_str k) (ns @ rs))" using distinct_strs [OF ok] by blast
  then have d: "removeDuplicates (map (anet_str k) ns @ map (anet_str k) rs) = map (anet_str k) (ns @ rs)"
    by (simp add: removeDuplicates_distinct)
  obtain am where g: "group_prefixes (map (anet_str k) (ns @ rs)) (conc k []) = Inr (conc k am)"
    "levels_ok am" "mset (total am) = mset (total []) + mset (ns @ rs)"
    using group_sound [OF ok levels_ok_Nil] by blast
  have m: "mset (total am) = mset (ns @ rs)" using g(3) by simp
  have "release_result (total am) (release_loop (Suc (length (ns @ rs))) o1 0 (conc k am))"
    using g(2) le cnt_mset [OF m] mset_eq_length [OF m] by (intro release_loop_sound [OF o]) auto
  then show ?thesis
    using g(1) rs cnt_mset [OF m]
    by (simp add: ReleasePrefixes_def d Let_def conc_def [of k "[]"] release_result_def del: map_append)
qed

end

end
