(* ===== verification/PoolV4.thy ===== *)
theory PoolV4
  imports PoolRelease
begin

unbundle bit_operations_syntax

text \<open>
  The IPv4 instance of the pool: the contract of \<open>cidr_family\<close> holds for IPv4
  networks, and the lemmas about extraction and release are restated over the
  strings the pool keeps. The properties of the pool follow.
\<close>

subsection \<open>IPv4 prefixes\<close>

lemma mknet4_nn:
  assumes "l \<le> 32"
  shows "networkNumberAndMask (mknet 4 a l) = (to_be 4 a, cidr_bytes 4 l)"
proof -
  have m: "CIDRMask (int l) (8 * int 4) = cidr_bytes 4 l" using assms by (intro CIDRMask_cidr) auto
  have "to_be 4 a \<noteq> []" using length_to_be [of 4 a] by fastforce
  then show ?thesis by (simp add: networkNumberAndMask_def mknet_def m del: of_nat_numeral)
qed

lemma Contains_v4:
  assumes "anet_wf 32 n" "x < 2 ^ 32" "y = to_be 4 x \<or> y = v4InV6Prefix @ to_be 4 x"
  shows "Contains (anet_net 4 n) y \<longleftrightarrow> holds 32 x n"
proof -
  let ?h = "(2::nat) ^ (32 - snd n)"
  have l: "snd n \<le> 32" and a: "fst n < 2 ^ 32" "?h dvd fst n" using assms(1) by (auto simp: anet_wf_def)
  have ne: "to_be 4 x \<noteq> []" using length_to_be [of 4 x] by fastforce
  then have t: "(if To4 y \<noteq> [] then To4 y else y) = to_be 4 x" using assms(3) by auto
  have m: "map2 (AND) (to_be 4 z) (cidr_bytes 4 (snd n)) = to_be 4 (z - z mod ?h)" for z
    using mask_to_be [of "snd n" 4 z] l by simp
  have "Contains (anet_net 4 n) y \<longleftrightarrow> to_be 4 (fst n) = to_be 4 (x - x mod ?h)"
    unfolding Contains_def anet_net_def mknet4_nn [OF l] prod.case Let_def t m
    using a by (simp add: dvd_imp_mod_0)
  also have "\<dots> \<longleftrightarrow> fst n = x - x mod ?h"
  proof -
    have "x < 256 ^ 4" "fst n < 256 ^ 4" using a(1) assms(2) by simp_all
    then show ?thesis using be_to_be_inj less_imp_diff_less by metis
  qed
  also have "\<dots> \<longleftrightarrow> x div ?h = fst n div ?h"
  proof -
    obtain q where q: "fst n = ?h * q" using a(2) by (rule dvdE)
    have "fst n = x - x mod ?h \<longleftrightarrow> q = x div ?h"
      unfolding q minus_mod_eq_mult_div by simp
    moreover have "fst n div ?h = q" unfolding q by simp
    ultimately show ?thesis by metis
  qed
  finally show ?thesis unfolding holds_div [OF assms(1)] .
qed

lemma parse_anet4: "anet_wf 32 n \<Longrightarrow>
  ParseCIDR (anet_str 4 n) = Inr (v4InV6Prefix @ to_be 4 (fst n), anet_net 4 n)"
  unfolding anet_str_def anet_net_def
  by (rule ParseCIDR_IPNet_String_v4) (auto simp: anet_wf_def)

lemma anet_str4_inj:
  assumes "anet_wf 32 (a, l)" "anet_wf 32 (b, m)" "anet_str 4 (a, l) = anet_str 4 (b, m)"
  shows "a = b"
proof -
  have "Inr (v4InV6Prefix @ to_be 4 a, anet_net 4 (a, l)) =
      (Inr (v4InV6Prefix @ to_be 4 b, anet_net 4 (b, m)) :: (net_IP \<times> IPNet) result)"
    using parse_anet4 [OF assms(1)] parse_anet4 [OF assms(2)] assms(3) by (simp only: fst_conv)
  then have "to_be 4 a = to_be 4 b" by (simp only: sum.inject prod.inject append_same_eq same_append_eq)
  moreover have "a < 256 ^ 4" "b < 256 ^ 4" using assms by (simp_all add: anet_wf_def)
  ultimately show ?thesis using be_to_be_inj by blast
qed

interpretation v4: cidr_family 4 "anet_wf 32"
proof
  fix n a b l x
  show "(4::nat) = 4 \<or> (4::nat) = 16" by simp
  show "anet_wf 32 n \<Longrightarrow> anet_wf (8 * 4) n" by simp
  show "anet_wf 32 n \<Longrightarrow> snd n < 8 * 4 \<Longrightarrow>
      anet_wf 32 (left_half n) \<and> anet_wf 32 (right_half (8 * 4) n)"
    using halves_wf [of 32 n] by simp
  show "anet_wf 32 (a, l) \<Longrightarrow> anet_wf 32 (b, l) \<Longrightarrow> a \<noteq> b \<Longrightarrow>
      parent_base (8 * 4) (a, l) = parent_base (8 * 4) (b, l) \<Longrightarrow>
      anet_wf 32 (parent_base (8 * 4) (a, l), l - 1)"
    using siblings(2) [of 32 a l b] by simp
  show "anet_wf 32 n \<Longrightarrow> \<exists>ip. ParseCIDR (anet_str 4 n) = Inr (ip, anet_net 4 n)"
    by (simp add: parse_anet4)
  show "anet_wf (8 * 4) (a, l) \<Longrightarrow> anet_wf (8 * 4) (b, l) \<Longrightarrow>
      anet_str 4 (a, l) = anet_str 4 (b, l) \<Longrightarrow> a = b"
    using anet_str4_inj [of a l b l] by simp
  show "anet_wf 32 n \<Longrightarrow> x < 2 ^ (8 * 4) \<Longrightarrow>
      Contains (anet_net 4 n) (to_be 4 x) = holds (8 * 4) x n"
    using Contains_v4 [of n x] by simp
qed

lemma parseIPv4_fields_length: "parseIPv4_fields k i s = Some p \<Longrightarrow> length p = k"
proof (induction k arbitrary: i s p)
  case (Suc k)
  then show ?case by (auto simp: Let_def split: if_splits option.splits prod.splits)
qed (simp split: if_splits)

lemma parseIPv4_length:
  assumes "parseIPv4 s \<noteq> []"
  shows "\<exists>p. parseIPv4 s = v4InV6Prefix @ p \<and> length p = 4"
proof (cases "parseIPv4_fields 4 0 s")
  case None
  then show ?thesis using assms by (simp add: parseIPv4_def)
next
  case (Some p)
  then show ?thesis using parseIPv4_fields_length [OF Some] by (simp add: parseIPv4_def)
qed

lemma length_CIDRMask: "l \<le> 8 * k \<Longrightarrow> k = 4 \<or> k = 16 \<Longrightarrow> length (CIDRMask (int l) (8 * int k)) = k"
  by simp

lemma ParseCIDR_v4_net:
  assumes p: "ParseCIDR s = Inr (ip, net)" and m: "length (Mask net) = 4"
  shows "\<exists>n. anet_wf 32 n \<and> net = anet_net 4 n"
proof -
  let ?addr = "takeWhile (\<lambda>c. c \<noteq> CHR ''/'') s" and ?mask = "tl (dropWhile (\<lambda>c. c \<noteq> CHR ''/'') s)"
  let ?k = "if parseIPv4 ?addr \<noteq> [] then 4 else 16 :: nat"
  obtain l i ok where d: "dtoi ?mask = (l, i, ok)" by (cases "dtoi ?mask") auto
  have l: "l \<le> 8 * ?k" and net: "net = \<lparr>IP = IP_Mask ip (CIDRMask (int l) (8 * int ?k)), Mask = CIDRMask (int l) (8 * int ?k)\<rparr>"
    and ip: "ip = (if parseIPv4 ?addr \<noteq> [] then parseIPv4 ?addr else parseIPv6 ?addr)"
    using p by (cases "parseIPv4 ?addr = []";
        simp add: ParseCIDR_def Let_def d del: CIDRMask_cidr split: if_splits)+
  have "length (Mask net) = ?k" unfolding net using length_CIDRMask [OF l] by simp
  then have k: "parseIPv4 ?addr \<noteq> []" using m by (auto split: if_splits)
  then obtain q where q: "ip = v4InV6Prefix @ q" "length q = 4" using ip parseIPv4_length by auto
  have l32: "l \<le> 32" using l k by simp
  have c: "CIDRMask (int l) (8 * int ?k) = cidr_bytes 4 l" using l k CIDRMask_cidr [of l 4] by simp
  let ?a = "be_nat q - be_nat q mod 2 ^ (32 - l)"
  have qa: "q = to_be 4 (be_nat q)" "be_nat q < 2 ^ 32"
    using to_be_be_nat [of q] be_nat_less [of q] q(2) by auto
  have "IP_Mask ip (cidr_bytes 4 l) = map2 (AND) q (cidr_bytes 4 l)"
    by (simp add: IP_Mask_def q)
  also have "\<dots> = to_be 4 ?a"
    using mask_to_be [of l 4 "be_nat q"] l32 qa(1) by simp
  finally have "net = anet_net 4 (?a, l)"
    using net c CIDRMask_cidr [of l 4] l32 by (simp add: anet_net_def mknet_def)
  moreover have "2 ^ (32 - l) dvd ?a" by (simp add: minus_mod_eq_mult_div)
  then have "anet_wf 32 (?a, l)"
    using l32 qa(2) less_imp_diff_less [OF qa(2)] by (simp add: anet_wf_def)
  ultimately show ?thesis by blast
qed

lemma v4_canonical_iff: "v4_canonical s \<longleftrightarrow> (\<exists>n. anet_wf 32 n \<and> s = anet_str 4 n)"
proof
  assume "\<exists>n. anet_wf 32 n \<and> s = anet_str 4 n"
  then obtain n where n: "anet_wf 32 n" "s = anet_str 4 n" by blast
  have "length (Mask (anet_net 4 n)) = 4"
    using v4.mask_net [of n] n(1) by (simp add: anet_wf_def)
  moreover have "IPNet_String (anet_net 4 n) = anet_str 4 n" by (simp only: anet_str_def)
  ultimately show "v4_canonical s" using n by (simp add: v4_canonical_def parse_anet4)
next
  assume "v4_canonical s"
  then obtain ip net where "ParseCIDR s = Inr (ip, net)" "length (Mask net) = 4" "IPNet_String net = s"
    by (auto simp: v4_canonical_def split: sum.splits prod.splits)
  moreover from ParseCIDR_v4_net [OF this(1,2)] obtain n where "anet_wf 32 n" "net = anet_net 4 n" by blast
  ultimately show "\<exists>n. anet_wf 32 n \<and> s = anet_str 4 n" by (auto simp only: anet_str_def)
qed

lemma v4_canonical_list:
  "list_all v4_canonical ps \<longleftrightarrow> (\<exists>ns. list_all (anet_wf 32) ns \<and> ps = map (anet_str 4) ns)"
proof
  show "list_all v4_canonical ps \<Longrightarrow> \<exists>ns. list_all (anet_wf 32) ns \<and> ps = map (anet_str 4) ns"
  proof (induction ps)
    case (Cons p ps)
    then obtain ns where ns: "list_all (anet_wf 32) ns" "ps = map (anet_str 4) ns" by auto
    obtain n where n: "anet_wf 32 n" "p = anet_str 4 n" using Cons.prems v4_canonical_iff by auto
    show ?case using ns n by (intro exI [of _ "n # ns"]) simp
  qed simp
  show "\<exists>ns. list_all (anet_wf 32) ns \<and> ps = map (anet_str 4) ns \<Longrightarrow> list_all v4_canonical ps"
    by (auto simp: list_all_iff) (use v4_canonical_iff in blast)
qed

lemma cover_cnt:
  assumes "list_all (anet_wf 32) ns" "length ip = 4"
  shows "cover (map (anet_str 4) ns) ip = cnt 32 ns (be_nat ip)"
proof -
  have "be_nat ip < 2 ^ 32" using be_nat_less [of ip] assms(2) by simp
  then have "prefix_contains (anet_str 4 n) ip = holds 32 (be_nat ip) n" if "anet_wf 32 n" for n
    using Contains_v4 [OF that, of "be_nat ip" ip] to_be_be_nat [of ip] assms(2)
    by (simp add: prefix_contains_def parse_anet4 [OF that])
  with assms(1) show ?thesis by (induction ns) (auto simp: cover_def)
qed

lemma cnt_big: "list_all (anet_wf w) ns \<Longrightarrow> 2 ^ w \<le> x \<Longrightarrow> cnt w ns x = 0"
proof (induction ns)
  case (Cons n ns)
  then show ?case using aligned_fits [of w n] by (simp add: holds_def)
qed simp

lemma cnt_cover_all:
  assumes "list_all (anet_wf 32) ns" "list_all (anet_wf 32) ms"
  shows "(\<forall>ip. length ip = 4 \<longrightarrow> cover (map (anet_str 4) ns) ip = cover (map (anet_str 4) ms) ip) \<longleftrightarrow>
    (\<forall>x. cnt 32 ns x = cnt 32 ms x)"
proof
  assume c: "\<forall>ip. length ip = 4 \<longrightarrow> cover (map (anet_str 4) ns) ip = cover (map (anet_str 4) ms) ip"
  show "\<forall>x. cnt 32 ns x = cnt 32 ms x"
  proof
    fix x
    show "cnt 32 ns x = cnt 32 ms x"
    proof (cases "x < 2 ^ 32")
      case True
      then show ?thesis using c [rule_format, of "to_be 4 x"] assms by (simp add: cover_cnt)
    qed (use assms in \<open>simp add: cnt_big\<close>)
  qed
qed (use assms in \<open>simp add: cover_cnt\<close>)

lemma overlap_free_cnt:
  assumes "list_all (anet_wf 32) ns"
  shows "overlap_free (map (anet_str 4) ns) \<longleftrightarrow> (\<forall>x. cnt 32 ns x \<le> 1)"
proof
  assume o: "overlap_free (map (anet_str 4) ns)"
  show "\<forall>x. cnt 32 ns x \<le> 1"
  proof
    fix x
    show "cnt 32 ns x \<le> 1"
    proof (cases "x < 2 ^ 32")
      case True
      then show ?thesis using o assms
        by (auto simp: overlap_free_def cover_cnt dest: spec [of _ "to_be 4 x"])
    qed (use assms in \<open>simp add: cnt_big\<close>)
  qed
qed (use assms in \<open>simp add: overlap_free_def cover_cnt\<close>)

lemma size_anet4: "anet_wf 32 n \<Longrightarrow> Mask_Size (Mask (anet_net 4 n)) = (int (snd n), 32)"
  using v4.size_net [of n] by (simp add: anet_wf_def)

lemma clear_anet4: "anet_wf 32 n \<Longrightarrow>
  clearNetIndexInIP (IP (anet_net 4 n)) (int (snd n)) = Inr (to_be 4 (parent_base 32 n))"
  using v4.clear_net [of n] by simp

lemma prefix_length_anet: "anet_wf 32 n \<Longrightarrow> prefix_length (anet_str 4 n) = int (snd n)"
  by (simp add: prefix_length_def parse_anet4 size_anet4)

lemma joined_base_anet:
  "anet_wf 32 n \<Longrightarrow> joined_base (anet_str 4 n) = (Inr (to_be 4 (parent_base 32 n)), int (snd n))"
  by (simp add: joined_base_def parse_anet4 size_anet4 clear_anet4)

lemma aggregated_merged:
  assumes "list_all (anet_wf 32) ns"
  shows "aggregated (map (anet_str 4) ns) \<longleftrightarrow> merged 32 ns"
proof -
  have lt: "parent_base 32 n < 256 ^ 4" if "anet_wf 32 n" for n
  proof -
    have "fst n < 256 ^ 4" using that by (simp add: anet_wf_def)
    then show ?thesis unfolding parent_base_def by (rule less_imp_diff_less)
  qed
  have inj: "to_be 4 (parent_base 32 n) = to_be 4 (parent_base 32 m) \<longleftrightarrow> parent_base 32 n = parent_base 32 m"
    if "anet_wf 32 n" "anet_wf 32 m" for n m
    using be_to_be_inj [OF lt [OF that(1)] lt [OF that(2)]] by (rule iffI) (simp_all only:)
  let ?j = "\<lambda>n. joined_base (anet_str 4 n)"
  have "?j n = ?j m \<longleftrightarrow> base_key 32 n = base_key 32 m" if "n \<in> set ns" "m \<in> set ns" for n m
  proof -
    have wf: "anet_wf 32 n" "anet_wf 32 m" using that assms by (auto simp: list_all_iff)
    show ?thesis
      by (simp only: joined_base_anet [OF wf(1)] joined_base_anet [OF wf(2)] base_key_def
          prod.inject sum.inject inj [OF wf] of_nat_eq_iff)
  qed
  then have "distinct (map ?j ns) \<longleftrightarrow> distinct (map (base_key 32) ns)"
    unfolding distinct_map inj_on_def by metis
  then show ?thesis by (simp add: aggregated_def merged_def o_def)
qed

end
