(* ===== verification/PoolInv.thy ===== *)
theory PoolInv
  imports PoolV4
begin

text \<open>
  The invariant of a prefix pool over its runs. The lemmas of \<open>PoolV4\<close> on
  \<open>ExtractPrefix\<close>, \<open>ExtractPrefixes\<close> and \<open>ReleasePrefixes\<close> are restated on the
  strings the pool stores, \<open>IncrementIP\<close> is shown to be the successor inside a
  network, and every \<open>Extract\<close> and \<open>Release\<close> is shown to keep the invariant
  \<open>pool_inv\<close> and the addresses the pool accounts for.
\<close>

unbundle bit_operations_syntax

definition conn_prefixes :: "(string, connectionRecord) gomap \<Rightarrow> string list" where
  "conn_prefixes m = concat (map (\<lambda>(_, r). record_prefixes r) m)"

definition pool_inv :: "prefixPool \<Rightarrow> bool" where
  "pool_inv p \<longleftrightarrow> gomap_ok (connections p) \<and> list_all v4_canonical (all_prefixes p) \<and>
     overlap_free (all_prefixes p)"

lemma list_all_append' [simp]: "list_all P (xs @ ys) \<longleftrightarrow> list_all P xs \<and> list_all P ys"
  by auto

lemma cover_append [simp]: "cover (ps @ qs) ip = cover ps ip + cover qs ip"
  and cover_Cons: "cover (p # ps) ip = cover [p] ip + cover ps ip"
  and cover_Nil [simp]: "cover [] ip = 0"
  by (simp_all add: cover_def)

lemma v4_lists:
  assumes "list_all v4_canonical ps"
  obtains ns where "list_all (anet_wf 32) ns" "ps = map (anet_str 4) ns"
  using assms v4_canonical_list by blast

lemma v4_strs [simp]: "list_all (anet_wf 32) ns \<Longrightarrow> list_all v4_canonical (map (anet_str 4) ns)"
  using v4_canonical_list by blast

lemma extract_prefix_v4:
  assumes "list_all v4_canonical ps" "ExtractPrefix ps pl = Inr (p, rest)"
  shows "list_all v4_canonical (p # rest)" "prefix_length p = int (unat pl)"
    "length ip = 4 \<Longrightarrow> cover (p # rest) ip = cover ps ip"
proof -
  obtain ns where ns: "list_all (anet_wf 32) ns" "ps = map (anet_str 4) ns"
    using v4_lists [OF assms(1)] by blast
  from v4.extract_sound [OF ns(1) assms(2) [unfolded ns(2)]] obtain m ms where
    m: "p = anet_str 4 m" "rest = map (anet_str 4) ms" "anet_wf 32 m" "list_all (anet_wf 32) ms"
      "snd m = unat pl" "\<forall>x. cnt (8 * 4) (m # ms) x = cnt (8 * 4) ns x" by blast
  have pr: "p # rest = map (anet_str 4) (m # ms)" and wf: "list_all (anet_wf 32) (m # ms)"
    using m by simp_all
  show "list_all v4_canonical (p # rest)" unfolding pr by (rule v4_strs [OF wf])
  show "prefix_length p = int (unat pl)" using m by (simp add: prefix_length_anet)
  show "length ip = 4 \<Longrightarrow> cover (p # rest) ip = cover ps ip"
    unfolding pr ns(2) using m(6) cover_cnt [OF wf] cover_cnt [OF ns(1)] by simp
qed

lemma extract_prefixes_v4:
  assumes "list_all v4_canonical ps" "ExtractPrefixes ps rqs = Inr (result, rest)"
  shows "list_all v4_canonical (result @ rest)" "length ip = 4 \<Longrightarrow> cover (result @ rest) ip = cover ps ip"
    "sum_list (map (\<lambda>r. unat (RequiredNumber r)) rqs) \<le> length result" "result \<noteq> []"
    "length result \<le> sum_list (map (\<lambda>r. unat (RequiredNumber r)) rqs) +
       sum_list (map (\<lambda>r. unat (RequestedNumber r) - unat (RequiredNumber r)) rqs)"
proof -
  obtain ns where ns: "list_all (anet_wf 32) ns" "ps = map (anet_str 4) ns"
    using v4_lists [OF assms(1)] by blast
  note sp = v4.extract_prefixes_split [OF ns(1) assms(2) [unfolded ns(2)]]
  from sp(1) obtain rs ms where
    m: "result = map (anet_str 4) rs" "rest = map (anet_str 4) ms" "list_all (anet_wf 32) rs"
      "list_all (anet_wf 32) ms" "\<forall>x. cnt (8 * 4) (rs @ ms) x = cnt (8 * 4) ns x"
    unfolding v4.split_of_def by blast
  have pr: "result @ rest = map (anet_str 4) (rs @ ms)" and wf: "list_all (anet_wf 32) (rs @ ms)"
    using m by simp_all
  show "list_all v4_canonical (result @ rest)" unfolding pr by (rule v4_strs [OF wf])
  show "length ip = 4 \<Longrightarrow> cover (result @ rest) ip = cover ps ip"
    unfolding pr ns(2) using m(5) cover_cnt [OF wf] cover_cnt [OF ns(1)] by simp
  show "sum_list (map (\<lambda>r. unat (RequiredNumber r)) rqs) \<le> length result" by (rule sp(2))
  show "result \<noteq> []" by (rule sp(4))
  show "length result \<le> sum_list (map (\<lambda>r. unat (RequiredNumber r)) rqs) +
       sum_list (map (\<lambda>r. unat (RequestedNumber r) - unat (RequiredNumber r)) rqs)" by (rule sp(3))
qed

lemma release_prefixes_v4:
  assumes "orders_ok o1" "list_all v4_canonical (ps @ rs)" "overlap_free (ps @ rs)"
  shows "\<exists>ms. ReleasePrefixes o1 ps rs = Some (Inr ms) \<and> list_all v4_canonical ms \<and>
    (\<forall>ip. length ip = 4 \<longrightarrow> cover ms ip = cover (ps @ rs) ip) \<and> (rs \<noteq> [] \<longrightarrow> aggregated ms)"
proof (cases "rs = []")
  case True
  then show ?thesis using assms by (simp add: ReleasePrefixes_def)
next
  case False
  obtain ns ks where n: "list_all (anet_wf 32) ns" "ps = map (anet_str 4) ns"
    "list_all (anet_wf 32) ks" "rs = map (anet_str 4) ks"
    using v4_lists assms(2) by (metis list_all_append')
  have wf: "list_all (anet_wf 32) (ns @ ks)" and eq: "ps @ rs = map (anet_str 4) (ns @ ks)"
    using n by simp_all
  have le: "cnt (8 * 4) (ns @ ks) x \<le> 1" for x
    using overlap_free_cnt [OF wf] assms(3) unfolding eq by simp
  have "ks \<noteq> []" using False n by simp
  from v4.release_sound [OF assms(1) wf this le] obtain ms where
    m: "ReleasePrefixes o1 ps rs = Some (Inr (map (anet_str 4) ms))" "list_all (anet_wf 32) ms"
      "\<forall>x. cnt (8 * 4) ms x = cnt (8 * 4) (ns @ ks) x" "merged (8 * 4) ms"
    unfolding v4.release_result_def n(2,4) by blast
  have "aggregated (map (anet_str 4) ms)" using aggregated_merged [OF m(2)] m(4) by simp
  moreover have "cover (map (anet_str 4) ms) ip = cover (ps @ rs) ip" if "length ip = 4" for ip
    unfolding eq using m(3) cover_cnt [OF m(2) that] cover_cnt [OF wf that] by simp
  ultimately show ?thesis using m(1) v4_strs [OF m(2)] by blast
qed

lemma aggregated_unique_v4:
  assumes "list_all v4_canonical ps" "list_all v4_canonical qs" "aggregated ps" "aggregated qs"
    and "overlap_free ps" "\<And>ip. length ip = 4 \<Longrightarrow> cover ps ip = cover qs ip"
  shows "set ps = set qs"
proof -
  obtain ns where ns: "list_all (anet_wf 32) ns" "ps = map (anet_str 4) ns"
    using v4_lists [OF assms(1)] by blast
  obtain ms where ms: "list_all (anet_wf 32) ms" "qs = map (anet_str 4) ms"
    using v4_lists [OF assms(2)] by blast
  have wf: "\<forall>n \<in> set ns. anet_wf 32 n" "\<forall>n \<in> set ms. anet_wf 32 n"
    using ns(1) ms(1) by (auto simp: list_all_iff)
  have mg: "merged 32 ns" "merged 32 ms"
    using assms(3,4) aggregated_merged [OF ns(1)] aggregated_merged [OF ms(1)] ns(2) ms(2) by auto
  have eq: "cnt 32 ns x = cnt 32 ms x" for x
    using cnt_cover_all [OF ns(1) ms(1)] assms(6) ns(2) ms(2) by auto
  have le: "cnt 32 ns x \<le> 1" for x using overlap_free_cnt [OF ns(1)] assms(5) ns(2) by auto
  have "set ns = set ms"
    using aggregation_subset [OF wf(1) mg(1) wf(2) mg(2) eq le]
      aggregation_subset [OF wf(2) mg(2) wf(1) mg(1) eq [symmetric]] le eq by auto
  then show ?thesis by (simp add: ns(2) ms(2))
qed

subsection \<open>The steps of the pool\<close>

lemma extract_single:
  "ExtractPrefixes ps [\<lparr>AddrFamily = Some f, PrefixLen = (if f = IPV6 then 126 else 30),
     RequiredNumber = 1, RequestedNumber = 1\<rparr>] =
   (case ExtractPrefix ps (if f = IPV6 then 126 else 30) of
      Inl e \<Rightarrow> Inl e | Inr (p, rest) \<Rightarrow> Inr ([p], rest))"
  by (cases f) (auto simp: ExtractPrefixes_def ExtraPrefixRequest_IsValid_def split: sum.split)

lemma v4_length_le:
  assumes "v4_canonical s" shows "prefix_length s \<le> 32"
proof -
  obtain n where "anet_wf 32 n" "s = anet_str 4 n" using assms v4_canonical_iff by blast
  then show ?thesis by (simp add: prefix_length_anet anet_wf_def)
qed

lemma v4_canonical_parse:
  assumes "v4_canonical s" "ParseCIDR s = Inr (ip, net)"
  shows "IPNet_String net = s" "ip = v4InV6Prefix @ IP net"
    "\<exists>n. anet_wf 32 n \<and> net = anet_net 4 n \<and> int (snd n) = prefix_length s"
proof -
  obtain n where n: "anet_wf 32 n" "s = anet_str 4 n" using assms v4_canonical_iff by blast
  then have "Inr (v4InV6Prefix @ to_be 4 (fst n), anet_net 4 n) = (Inr (ip, net) :: (net_IP \<times> IPNet) result)"
    using parse_anet4 [OF n(1)] assms(2) by (simp only: n(2))
  then have ip: "ip = v4InV6Prefix @ to_be 4 (fst n)" and net: "net = anet_net 4 n" by simp_all
  show "IPNet_String net = s" by (simp only: net n(2) anet_str_def)
  show "ip = v4InV6Prefix @ IP net" by (simp add: ip net anet_net_def mknet_def)
  show "\<exists>n. anet_wf 32 n \<and> net = anet_net 4 n \<and> int (snd n) = prefix_length s"
    using n net prefix_length_anet [OF n(1)] by (intro exI [of _ n]) simp
qed

text \<open>A successful \<open>Extract\<close>: the new record and what it owns.\<close>

lemma Extract_shape:
  assumes e: "Extract p c f rqs = (p', Inr (src, dst, req))" and can: "list_all v4_canonical (pool_prefixes p)"
  obtains net where
    "p' = p\<lparr>pool_prefixes := pool_prefixes p',
       connections := AList.update c \<lparr>ipNet = net, cr_prefixes = req\<rparr> (connections p)\<rparr>"
    "list_all v4_canonical (pool_prefixes p' @ IPNet_String net # req)"
    "\<And>ip. length ip = 4 \<Longrightarrow> cover (pool_prefixes p' @ IPNet_String net # req) ip = cover (pool_prefixes p) ip"
    "\<exists>n. anet_wf 32 n \<and> net = anet_net 4 n \<and> snd n = 30"
    "IncrementIP (v4InV6Prefix @ IP net) net = Inr (IP src)" "IncrementIP (IP src) net = Inr (IP dst)"
    "Mask src = Mask net" "Mask dst = Mask net" "f = IPV4"
proof -
  let ?pl = "if f = IPV6 then 126 else 30 :: 32 word"
  obtain r0 rem ip net where x: "ExtractPrefix (pool_prefixes p) ?pl = Inr (r0, rem)"
    and pc: "ParseCIDR r0 = Inr (ip, net)"
    and inc: "IncrementIP ip net = Inr (IP src)" "IncrementIP (IP src) net = Inr (IP dst)"
    and m: "Mask src = Mask net" "Mask dst = Mask net"
    and rq: "(if rqs = [] then Inr ([], rem) else ExtractPrefixes rem rqs) = Inr (req, pool_prefixes p')"
    and p': "p' = p\<lparr>pool_prefixes := pool_prefixes p', connections := AList.update c
               \<lparr>ipNet = net, cr_prefixes = req\<rparr> (connections p)\<rparr>"
    using e unfolding Extract_def Let_def extract_single
    by (auto split: sum.splits prod.splits list.splits)
  note xp = extract_prefix_v4 [OF can x]
  have c0: "v4_canonical r0" and crem: "list_all v4_canonical rem" using xp(1) by auto
  note cp = v4_canonical_parse [OF c0 pc]
  have f: "f = IPV4" using xp(2) v4_length_le [OF c0] by (cases f) auto
  have l: "prefix_length r0 = 30" using xp(2) f by simp
  have rest: "list_all v4_canonical (req @ pool_prefixes p')"
    "length a = 4 \<Longrightarrow> cover (req @ pool_prefixes p') a = cover rem a" for a
    using rq crem extract_prefixes_v4 [OF crem] by (cases "rqs = []"; simp)+
  show thesis
  proof (rule that [of net])
    show "list_all v4_canonical (pool_prefixes p' @ IPNet_String net # req)"
      using rest(1) c0 cp(1) by simp
    show "cover (pool_prefixes p' @ IPNet_String net # req) a = cover (pool_prefixes p) a"
      if "length a = 4" for a
      using xp(3) [OF that] rest(2) [OF that] cover_Cons [of r0 rem a] cover_Cons [of r0 req a] cp(1) by simp
    show "\<exists>n. anet_wf 32 n \<and> net = anet_net 4 n \<and> snd n = 30" using cp(3) l by auto
    show "IncrementIP (v4InV6Prefix @ IP net) net = Inr (IP src)" using inc(1) cp(2) by simp
  qed (use p' inc m f in auto)
qed

lemma byte_carry: "(b :: byte) + 1 = 0 \<longleftrightarrow> unat b + 1 = 256"
proof -
  have "b + 1 = 0 \<longleftrightarrow> b = - 1" by (simp add: eq_neg_iff_add_eq_0)
  also have "\<dots> \<longleftrightarrow> unat b = 255"
  proof
    assume "unat b = 255"
    then have "b = of_nat 255" by (metis of_nat_unat ucast_id)
    then show "b = -1" by simp
  qed (simp add: unsigned_minus_1_eq_mask mask_eq_exp_minus_1)
  finally show ?thesis by simp
qed
lemma increment_bytes_be:
  "increment_bytes bs = (to_be (length bs) (be_nat bs + 1), be_nat bs + 1 = 256 ^ length bs)"
proof (induction bs)
  case (Cons b bs)
  let ?n = "length bs"
  have less: "be_nat bs < 256 ^ ?n" by (rule be_nat_less)
  show ?case
  proof (cases "be_nat bs + 1 = 256 ^ ?n")
    case True
    have v: "be_nat (b # bs) + 1 = 256 ^ ?n * (unat b + 1)" using True by simp
    have "(of_nat (unat b + 1) :: byte) = b + 1" by simp
    moreover have "256 ^ ?n * (unat b + 1) = 256 ^ length (b # bs) \<longleftrightarrow> b + 1 = 0"
      unfolding byte_carry by auto
    ultimately show ?thesis
      using Cons True to_be_mult [of ?n "unat b + 1"] to_be_mult [of ?n 1] unfolding v by simp
  next
    case False
    then have less1: "be_nat bs + 1 < 256 ^ ?n" using less by simp
    have "(q * m + r) div m = q" if "r < m" for q m r :: nat using that by simp
    from this [OF less1, of "unat b"]
    have "(unat b * 256 ^ ?n + (be_nat bs + 1)) div 256 ^ ?n = unat b" .
    moreover have "unat b * 256 ^ ?n + (be_nat bs + 1) < 256 * 256 ^ ?n"
    proof -
      have "(unat b + 1) * 256 ^ ?n \<le> 256 * 256 ^ ?n"
        using unat_byte_less [of b] by (intro mult_right_mono) auto
      moreover have "unat b * 256 ^ ?n + (be_nat bs + 1) < (unat b + 1) * 256 ^ ?n"
        using less1 by (simp only: distrib_right mult_1)
      ultimately show ?thesis by linarith
    qed
    ultimately show ?thesis using Cons False to_be_add_mult [of ?n "unat b" "be_nat bs + 1"] by simp
  qed
qed simp

lemma increment_append:
  "\<not> snd (increment_bytes ys) \<Longrightarrow> increment_bytes (xs @ ys) = (xs @ fst (increment_bytes ys), False)"
  by (induction xs) (auto simp: prod_eq_iff split: prod.splits)

lemma IncrementIP_v4:
  assumes n: "anet_wf 32 n" and x: "x + 1 < 2 ^ 32"
  shows "IncrementIP (v4InV6Prefix @ to_be 4 x) (anet_net 4 n) =
    (if holds 32 (x + 1) n then Inr (v4InV6Prefix @ to_be 4 (x + 1))
     else Inl (Errorf ''Overflowed CIDR while incrementing IP''))"
proof -
  have "increment_bytes (to_be 4 x) = (to_be 4 (x + 1), False)"
    using increment_bytes_be [of "to_be 4 x"] x by simp
  then have "fst (increment_bytes (v4InV6Prefix @ to_be 4 x)) = v4InV6Prefix @ to_be 4 (x + 1)"
    using increment_append [of "to_be 4 x" v4InV6Prefix] by simp
  then show ?thesis
    using Contains_v4 [OF n x, of "v4InV6Prefix @ to_be 4 (x + 1)"] by (simp add: IncrementIP_def)
qed

lemma slash30_increments:
  assumes "anet_wf 32 n" "snd n = 30"
    and "IncrementIP (v4InV6Prefix @ IP (anet_net 4 n)) (anet_net 4 n) = Inr src"
    and "IncrementIP src (anet_net 4 n) = Inr dst"
  shows "src = v4InV6Prefix @ to_be 4 (fst n + 1)" "dst = v4InV6Prefix @ to_be 4 (fst n + 2)"
    "holds 32 (fst n + 1) n" "holds 32 (fst n + 2) n" "fst n + 3 < 2 ^ 32"
proof -
  have ip: "IP (anet_net 4 n) = to_be 4 (fst n)" by (simp add: anet_net_def mknet_def)
  show l: "fst n + 3 < 2 ^ 32" using aligned_fits [OF assms(1)] assms(2) by simp
  show h: "holds 32 (fst n + 1) n" "holds 32 (fst n + 2) n" using assms(2) by (simp_all add: holds_def)
  show s: "src = v4InV6Prefix @ to_be 4 (fst n + 1)"
    using assms(3) IncrementIP_v4 [OF assms(1), of "fst n"] h l unfolding ip by simp
  show "dst = v4InV6Prefix @ to_be 4 (fst n + 2)"
    using assms(4) IncrementIP_v4 [OF assms(1), of "fst n + 1"] h l unfolding s by (simp add: numeral_2_eq_2)
qed

lemma slash30_increment_total:
  assumes "anet_wf 32 n" "snd n = 30"
  shows "\<exists>src dst. IncrementIP (v4InV6Prefix @ IP (anet_net 4 n)) (anet_net 4 n) = Inr src \<and>
    IncrementIP src (anet_net 4 n) = Inr dst"
proof -
  have ip: "IP (anet_net 4 n) = to_be 4 (fst n)" by (simp add: anet_net_def mknet_def)
  have l: "fst n + 3 < 2 ^ 32" using aligned_fits [OF assms(1)] assms(2) by simp
  have h: "holds 32 (fst n + 1) n" "holds 32 (fst n + 1 + 1) n" using assms(2) by (simp_all add: holds_def)
  show ?thesis
    unfolding ip using IncrementIP_v4 [OF assms(1), of "fst n"] IncrementIP_v4 [OF assms(1), of "fst n + 1"] h l
    by (simp only: if_True) auto
qed

subsection \<open>The pool invariant\<close>

lemma conn_prefixes_simps [simp]:
  "conn_prefixes [] = []" "conn_prefixes ((a, q) # m) = record_prefixes q @ conn_prefixes m"
  by (simp_all add: conn_prefixes_def)

lemma all_prefixes_conn: "all_prefixes p = pool_prefixes p @ conn_prefixes (connections p)"
  by (simp add: all_prefixes_def conn_prefixes_def)

lemma cover_conn_update:
  "cover (conn_prefixes (AList.update c r m)) ip +
     (case map_of m c of None \<Rightarrow> 0 | Some r0 \<Rightarrow> cover (record_prefixes r0) ip) =
   cover (conn_prefixes m) ip + cover (record_prefixes r) ip"
  by (induction m) auto

lemma cover_conn_delete:
  "gomap_ok m \<Longrightarrow> map_of m c = Some r \<Longrightarrow>
   cover (conn_prefixes (AList.delete c m)) ip + cover (record_prefixes r) ip = cover (conn_prefixes m) ip"
proof (induction m)
  case (Cons e m)
  obtain a q where e: "e = (a, q)" by fastforce
  show ?case
  proof (cases "a = c")
    case True
    then have "c \<notin> fst ` set m" using Cons.prems(1) e by (auto simp: gomap_ok_def)
    then have "\<forall>e \<in> set m. fst e \<noteq> c" by (metis imageI)
    then have "AList.delete c m = m" by (simp add: delete_filter filter_id_conv)
    then show ?thesis using True Cons.prems e by simp
  next
    case False
    then show ?thesis using Cons e by (simp add: gomap_ok_def)
  qed
qed simp

lemma cover_record:
  "cover (record_prefixes r) ip = cover [IPNet_String (ipNet r)] ip + cover (cr_prefixes r) ip"
  unfolding record_prefixes_def by (rule cover_Cons)

lemma set_conn_update:
  "set (conn_prefixes (AList.update c r m)) \<subseteq> set (conn_prefixes m) \<union> set (record_prefixes r)"
  by (induction m) auto

lemma set_conn_delete: "set (conn_prefixes (AList.delete c m)) \<subseteq> set (conn_prefixes m)"
  by (auto simp: conn_prefixes_def AList.delete_eq)

lemma record_in_conn: "map_of m c = Some r \<Longrightarrow> set (record_prefixes r) \<subseteq> set (conn_prefixes m)"
  by (auto simp: conn_prefixes_def dest: map_of_SomeD)

lemma Extract_error: "Extract p c f rqs = (p', Inl e) \<Longrightarrow> p' = p"
  by (auto simp: Extract_def Let_def split: sum.splits prod.splits list.splits)

lemma extract_step:
  assumes inv: "pool_inv p" and e: "Extract p c f rqs = (p', res)"
  shows "pool_inv p'"
    and "length ip = 4 \<Longrightarrow> cover (all_prefixes p') ip \<le> cover (all_prefixes p) ip"
    and "length ip = 4 \<Longrightarrow> map_of (connections p) c = None \<Longrightarrow>
      cover (all_prefixes p') ip = cover (all_prefixes p) ip"
proof -
  have "pool_inv p' \<and> (\<forall>ip. length ip = 4 \<longrightarrow> cover (all_prefixes p') ip \<le> cover (all_prefixes p) ip \<and>
      (map_of (connections p) c = None \<longrightarrow> cover (all_prefixes p') ip = cover (all_prefixes p) ip))"
  proof (cases res)
    case (Inl err)
    then have "p' = p" using Extract_error e by blast
    then show ?thesis using inv by simp
  next
    case (Inr out)
    obtain src dst req where out: "out = (src, dst, req)" by (cases out) auto
    have can: "list_all v4_canonical (pool_prefixes p)" "list_all v4_canonical (conn_prefixes (connections p))"
      using inv by (simp_all add: pool_inv_def all_prefixes_conn)
    obtain net where x:
      "p' = p\<lparr>pool_prefixes := pool_prefixes p',
         connections := AList.update c \<lparr>ipNet = net, cr_prefixes = req\<rparr> (connections p)\<rparr>"
      "list_all v4_canonical (pool_prefixes p' @ IPNet_String net # req)"
      "\<And>ip. length ip = 4 \<Longrightarrow> cover (pool_prefixes p' @ IPNet_String net # req) ip = cover (pool_prefixes p) ip"
      by (rule Extract_shape [OF e [unfolded Inr out] can(1)]) (rule that, assumption+)
    let ?r = "\<lparr>ipNet = net, cr_prefixes = req\<rparr>"
    have conns: "connections p' = AList.update c ?r (connections p)" by (subst x(1)) simp
    have rp: "record_prefixes ?r = IPNet_String net # req" by (simp add: record_prefixes_def)
    have cov: "cover (all_prefixes p') ip +
        (case map_of (connections p) c of None \<Rightarrow> 0 | Some r0 \<Rightarrow> cover (record_prefixes r0) ip) =
        cover (all_prefixes p) ip" if "length ip = 4" for ip
      using cover_conn_update [of c ?r "connections p" ip] x(3) [OF that]
      unfolding all_prefixes_conn conns rp by simp
    have le: "cover (all_prefixes p') ip \<le> cover (all_prefixes p) ip" if "length ip = 4" for ip
      using cov [OF that] by simp
    have "list_all v4_canonical (all_prefixes p')"
      using x(2) can(2) set_conn_update [of c ?r "connections p"]
      unfolding all_prefixes_conn conns rp by (auto simp: list_all_iff)
    moreover have "overlap_free (all_prefixes p')"
      using inv le unfolding pool_inv_def overlap_free_def by (meson le_trans)
    moreover have "gomap_ok (connections p')" using inv unfolding conns by (simp add: pool_inv_def)
    ultimately show ?thesis using cov le by (auto simp: pool_inv_def)
  qed
  then show "pool_inv p'"
    "length ip = 4 \<Longrightarrow> cover (all_prefixes p') ip \<le> cover (all_prefixes p) ip"
    "length ip = 4 \<Longrightarrow> map_of (connections p) c = None \<Longrightarrow>
      cover (all_prefixes p') ip = cover (all_prefixes p) ip" by auto
qed

lemma overlap_free_mono:
  "overlap_free ps \<Longrightarrow> (\<And>ip. length ip = 4 \<Longrightarrow> cover qs ip \<le> cover ps ip) \<Longrightarrow> overlap_free qs"
  unfolding overlap_free_def by (meson le_trans)

lemma release_record:
  assumes inv: "pool_inv p" and o: "orders_ok o1" and c: "map_of (connections p) c = Some r"
  shows "\<exists>ps. Release o1 p c =
      Some (p\<lparr>connections := AList.delete c (connections p), pool_prefixes := ps\<rparr>, None) \<and>
    list_all v4_canonical ps \<and> aggregated ps \<and>
    (\<forall>ip. length ip = 4 \<longrightarrow> cover ps ip = cover (pool_prefixes p @ record_prefixes r) ip)"
proof -
  have can: "list_all v4_canonical (pool_prefixes p)" "list_all v4_canonical (record_prefixes r)"
    using inv record_in_conn [OF c] by (auto simp: pool_inv_def all_prefixes_conn list_all_iff)
  have "cover (record_prefixes r) ip \<le> cover (conn_prefixes (connections p)) ip" for ip
    using cover_conn_delete [OF _ c, of ip] inv by (simp add: pool_inv_def)
  then have ofr: "overlap_free (pool_prefixes p @ record_prefixes r)"
    by (intro overlap_free_mono [OF inv [unfolded pool_inv_def, THEN conjunct2, THEN conjunct2]])
      (simp add: all_prefixes_conn)
  have "overlap_free (pool_prefixes p @ cr_prefixes r)"
    by (rule overlap_free_mono [OF ofr]) (simp add: cover_record)
  then obtain ms where m: "ReleasePrefixes o1 (pool_prefixes p) (cr_prefixes r) = Some (Inr ms)"
    "list_all v4_canonical ms" "\<And>ip. length ip = 4 \<Longrightarrow> cover ms ip = cover (pool_prefixes p @ cr_prefixes r) ip"
    using release_prefixes_v4 [OF o, of "pool_prefixes p" "cr_prefixes r"] can
    by (auto simp: record_prefixes_def)
  let ?s = "[IPNet_String (ipNet r)]"
  have eq: "cover (ms @ ?s) ip = cover (pool_prefixes p @ record_prefixes r) ip" if "length ip = 4" for ip
    using m(3) [OF that] by (simp add: cover_record)
  have "overlap_free (ms @ ?s)" by (rule overlap_free_mono [OF ofr]) (simp only: eq order_refl)
  then obtain ks where k: "ReleasePrefixes o1 ms ?s = Some (Inr ks)" "list_all v4_canonical ks"
    "\<And>ip. length ip = 4 \<Longrightarrow> cover ks ip = cover (ms @ ?s) ip" "aggregated ks"
    using release_prefixes_v4 [OF o, of ms ?s] m(2) can(2) by (auto simp: record_prefixes_def)
  have "Release o1 p c = Some (p\<lparr>connections := AList.delete c (connections p), pool_prefixes := ks\<rparr>, None)"
    using c m(1) k(1) by (simp add: Release_def Let_def)
  then show ?thesis using k eq by (intro exI [of _ ks]) simp
qed

lemma release_step:
  assumes inv: "pool_inv p" and o: "orders_ok o1" and e: "Release o1 p c = Some (p', err)"
  shows "pool_inv p'" and "length ip = 4 \<Longrightarrow> cover (all_prefixes p') ip = cover (all_prefixes p) ip"
proof -
  have "pool_inv p' \<and> (\<forall>ip. length ip = 4 \<longrightarrow> cover (all_prefixes p') ip = cover (all_prefixes p) ip)"
  proof (cases "map_of (connections p) c")
    case None
    then show ?thesis using e inv by (auto simp: Release_def)
  next
    case (Some r)
    then obtain ps where p': "p' = p\<lparr>connections := AList.delete c (connections p), pool_prefixes := ps\<rparr>"
      and ps: "list_all v4_canonical ps"
        "\<And>ip. length ip = 4 \<Longrightarrow> cover ps ip = cover (pool_prefixes p @ record_prefixes r) ip"
      using release_record [OF inv o Some] e by auto
    have cov: "cover (all_prefixes p') ip = cover (all_prefixes p) ip" if "length ip = 4" for ip
      using ps(2) [OF that] cover_conn_delete [OF _ Some, of ip] inv
      by (simp add: all_prefixes_conn p' pool_inv_def)
    moreover have "list_all v4_canonical (all_prefixes p')"
      using ps(1) inv set_conn_delete [of c "connections p"]
      by (auto simp: pool_inv_def all_prefixes_conn p' list_all_iff)
    moreover have "overlap_free (all_prefixes p')"
      by (rule overlap_free_mono [of "all_prefixes p"]) (use inv cov in \<open>simp_all add: pool_inv_def\<close>)
    ultimately show ?thesis using inv by (simp add: pool_inv_def p')
  qed
  then show "pool_inv p'" "length ip = 4 \<Longrightarrow> cover (all_prefixes p') ip = cover (all_prefixes p) ip" by auto
qed

lemma pool_reach_inv:
  assumes "pool_reach reuse p0 p" "pool_inv p0"
  shows "pool_inv p \<and> (\<forall>ip. length ip = 4 \<longrightarrow> cover (all_prefixes p) ip \<le> cover (all_prefixes p0) ip) \<and>
    (\<not> reuse \<longrightarrow> (\<forall>ip. length ip = 4 \<longrightarrow> cover (all_prefixes p) ip = cover (all_prefixes p0) ip))"
  using assms
proof (induction rule: pool_reach.induct)
  case (step q r)
  then have q: "pool_inv q" by blast
  from step.hyps(2) have "pool_inv r \<and> (\<forall>ip. length ip = 4 \<longrightarrow>
      cover (all_prefixes r) ip \<le> cover (all_prefixes q) ip \<and>
      (\<not> reuse \<longrightarrow> cover (all_prefixes r) ip = cover (all_prefixes q) ip))"
  proof cases
    case (do_extract c f rqs res)
    then show ?thesis using extract_step [OF q do_extract(1)] by auto
  next
    case (do_release o1 c e)
    then show ?thesis using release_step [OF q do_release] by auto
  qed
  then have r: "pool_inv r" "\<And>ip. length ip = 4 \<Longrightarrow> cover (all_prefixes r) ip \<le> cover (all_prefixes q) ip"
    "\<And>ip. \<not> reuse \<Longrightarrow> length ip = 4 \<Longrightarrow> cover (all_prefixes r) ip = cover (all_prefixes q) ip" by auto
  show ?case
  proof (intro conjI impI allI)
    fix ip :: net_IP assume ip: "length ip = 4"
    show "cover (all_prefixes r) ip \<le> cover (all_prefixes p0) ip"
      using step.IH [OF step.prems] r(2) [OF ip] ip by (meson le_trans)
    show "cover (all_prefixes r) ip = cover (all_prefixes p0) ip" if "\<not> reuse"
      using step.IH [OF step.prems] r(3) [OF that ip] ip that by simp
  qed (rule r(1))
qed simp

lemma NewPrefixPool_inv:
  "list_all v4_canonical ps \<Longrightarrow> overlap_free ps \<Longrightarrow> pool_inv (NewPrefixPool ps) \<and> all_prefixes (NewPrefixPool ps) = ps"
  by (simp add: pool_inv_def NewPrefixPool_def all_prefixes_def)

end
