(* ===== verification/PoolProps.thy ===== *)
theory PoolProps
  imports PoolInv
begin

text \<open>
  What the prefix pool promises: isolation of connections, no loss of
  addresses, restoration of the configured prefixes, and the behaviour of the
  single operations. The examples at the start serve the instances below the
  theorems.
\<close>

lemma overlap_free_single [simp]: "overlap_free [p]"
  by (simp add: overlap_free_def cover_def)

lemma orders_ok_id: "orders_ok \<lparr>ord_levels = (\<lambda>_ x. x), ord_base = (\<lambda>_ _ x. x), ord_result = (\<lambda>x. x)\<rparr>"
  by (simp add: orders_ok_def)

lemma aggregated_single [simp]: "aggregated [p]"
  by (simp add: aggregated_def)

lemma ex_anet: "anet_str 4 (169082880, 16) = ''10.20.0.0/16''"
  by (simp add: anet_str_def anet_net_def go_simps)

lemma ex_canonical [simp]: "v4_canonical ''10.20.0.0/16''"
  unfolding v4_canonical_iff ex_anet [symmetric]
  by (intro exI [of _ "(169082880, 16)"]) (simp add: anet_wf_def)

lemma ex_length [simp]: "prefix_length ''10.20.0.0/16'' = 16"
  unfolding ex_anet [symmetric] by (subst prefix_length_anet) (simp_all add: anet_wf_def)

lemma extract_succeeds:
  assumes "list_all v4_canonical (pool_prefixes p)" "s \<in> set (pool_prefixes p)" "prefix_length s \<le> 30"
  shows "\<exists>p' src dst. Extract p c IPV4 [] = (p', Inr (src, dst, []))"
proof -
  obtain ns where ns: "list_all (anet_wf 32) ns" "pool_prefixes p = map (anet_str 4) ns"
    using v4_lists [OF assms(1)] by blast
  obtain n where n: "n \<in> set ns" "s = anet_str 4 n" using assms(2) ns(2) by auto
  then have "snd n \<le> 30" using assms(3) ns(1) prefix_length_anet [of n] by (auto simp: list_all_iff)
  then obtain r0 rem where x: "ExtractPrefix (pool_prefixes p) 30 = Inr (r0, rem)"
    using v4.extract_complete [OF ns(1) n(1), of 30] unfolding ns(2) by auto
  note xp = extract_prefix_v4 [OF assms(1) x]
  then have c0: "v4_canonical r0" by simp
  then obtain ip net where pc: "ParseCIDR r0 = Inr (ip, net)"
    by (auto simp: v4_canonical_def split: sum.splits)
  note cp = v4_canonical_parse [OF c0 pc]
  then obtain m where m: "anet_wf 32 m" "net = anet_net 4 m" "snd m = 30" using xp(2) by auto
  obtain src dst where "IncrementIP ip net = Inr src" "IncrementIP src net = Inr dst"
    using slash30_increment_total [OF m(1,3)] cp(2) m(2) by auto
  then show ?thesis
    using x pc extract_single [of "pool_prefixes p" IPV4] by (simp add: Extract_def Let_def)
qed

text \<open>
  C1: Whatever sequence of \<open>Extract\<close> and \<open>Release\<close> calls a pool with
  non-overlapping IPv4 prefixes goes through, with any arguments, any outcome
  and any map iteration order, its free prefixes and the prefixes of all
  connections stay well formed and pairwise disjoint, and no address outside
  the configured prefixes is ever handed out.
\<close>

theorem pool_isolation:
  assumes "list_all v4_canonical ps" "overlap_free ps" "pool_reach True (NewPrefixPool ps) p"
  shows "list_all v4_canonical (all_prefixes p) \<and> overlap_free (all_prefixes p) \<and>
    (\<forall>ip. length ip = 4 \<longrightarrow> cover (all_prefixes p) ip \<le> cover ps ip)"
proof -
  note new = NewPrefixPool_inv [OF assms(1,2)]
  from pool_reach_inv [OF assms(3) conjunct1 [OF new]] new show ?thesis by (simp add: pool_inv_def)
qed

theorem pool_isolation_witness:
  "overlap_free (all_prefixes (fst (Extract (NewPrefixPool [''10.20.0.0/16'']) ''c1'' IPV4 [])))"
proof -
  let ?p = "fst (Extract (NewPrefixPool [''10.20.0.0/16'']) ''c1'' IPV4 [])"
  have "pool_reach True (NewPrefixPool [''10.20.0.0/16'']) ?p"
    by (rule pool_reach.step [OF pool_reach.start], rule pool_step.do_extract) (auto simp: prod_eq_iff)
  from pool_isolation [OF _ _ this] show ?thesis by simp
qed

text \<open>
  C2: As long as \<open>Extract\<close> is not called for a connection that still has a
  record, no address is lost: free prefixes and connection records together
  cover exactly the configured address space, each address once.
\<close>

theorem pool_no_leak:
  assumes "list_all v4_canonical ps" "overlap_free ps" "pool_reach False (NewPrefixPool ps) p"
    and "length ip = 4"
  shows "cover (all_prefixes p) ip = cover ps ip"
proof -
  note new = NewPrefixPool_inv [OF assms(1,2)]
  from pool_reach_inv [OF assms(3) conjunct1 [OF new]] new assms(4) show ?thesis by simp
qed

theorem pool_no_leak_witness:
  "cover (all_prefixes (fst (Extract (NewPrefixPool [''10.20.0.0/16'']) ''c1'' IPV4 []))) [10, 20, 7, 9] =
   cover [''10.20.0.0/16''] [10, 20, 7, 9]"
proof -
  have "pool_reach False (NewPrefixPool [''10.20.0.0/16''])
      (fst (Extract (NewPrefixPool [''10.20.0.0/16'']) ''c1'' IPV4 []))"
    by (rule pool_reach.step [OF pool_reach.start], rule pool_step.do_extract)
      (auto simp: prod_eq_iff NewPrefixPool_def)
  from pool_no_leak [OF _ _ this] show ?thesis by simp
qed


lemma ex_extract:
  "\<exists>p' src dst. Extract (NewPrefixPool [''10.20.0.0/16'']) ''c1'' IPV4 [] = (p', Inr (src, dst, [])) \<and>
     (\<exists>r. connections p' = [(''c1'', r)]) \<and> pool_reach False (NewPrefixPool [''10.20.0.0/16'']) p'"
proof -
  let ?p = "NewPrefixPool [''10.20.0.0/16'']"
  have can: "list_all v4_canonical (pool_prefixes ?p)" by (simp add: NewPrefixPool_def)
  obtain p' src dst where e: "Extract ?p ''c1'' IPV4 [] = (p', Inr (src, dst, []))"
    using extract_succeeds [OF can, of "''10.20.0.0/16''" "''c1''"] by (auto simp: NewPrefixPool_def)
  obtain r where "p' = ?p\<lparr>pool_prefixes := pool_prefixes p', connections := AList.update ''c1'' r (connections ?p)\<rparr>"
    by (rule Extract_shape [OF e can]) (rule that, assumption)
  from arg_cong [OF this, of connections] have "connections p' = [(''c1'', r)]"
    by (simp add: NewPrefixPool_def)
  moreover have "pool_reach False ?p p'"
    by (rule pool_reach.step [OF pool_reach.start], rule pool_step.do_extract [OF e]) (simp add: NewPrefixPool_def)
  ultimately show ?thesis using e by blast
qed


text \<open>
  C4: Splitting conserves addresses: when \<open>ExtractPrefix\<close> succeeds, the prefix it
  returns has the requested length, and together with the remaining prefixes it
  covers every address exactly as often as the list it started from.
\<close>

theorem extract_prefix_conserves:
  assumes "list_all v4_canonical ps" "ExtractPrefix ps pl = Inr (p, rest)"
  shows "list_all v4_canonical (p # rest) \<and> prefix_length p = int (unat pl) \<and>
    (\<forall>ip. length ip = 4 \<longrightarrow> cover (p # rest) ip = cover ps ip)"
  using extract_prefix_v4 [OF assms] by blast

theorem extract_prefix_conserves_witness:
  "ExtractPrefix [''10.20.0.0/16''] 16 = Inr (''10.20.0.0/16'', []) \<and> prefix_length ''10.20.0.0/16'' = 16"
proof -
  have "ExtractPrefix [''10.20.0.0/16''] 16 = Inr (''10.20.0.0/16'', [])"
    using v4.scan_step [of "(169082880, 16)" 16 0 0 None "[]"]
    by (simp add: ExtractPrefix_def ex_anet anet_wf_def del: scan_prefixes.simps)
  from this extract_prefix_conserves [OF _ this] show ?thesis by simp
qed

text \<open>
  C5: \<open>ExtractPrefix\<close> fails only for lack of room: for a prefix length of at most
  32 it succeeds if and only if some prefix of the list is at least that large,
  and otherwise it reports that there is no room.
\<close>

theorem extract_prefix_room:
  assumes "list_all v4_canonical ps" "unat pl \<le> 32"
  shows "((\<exists>r. ExtractPrefix ps pl = Inr r) \<longleftrightarrow> (\<exists>p \<in> set ps. prefix_length p \<le> int (unat pl))) \<and>
    ((\<exists>p \<in> set ps. prefix_length p \<le> int (unat pl)) \<or>
     ExtractPrefix ps pl = Inl (Errorf ''Failed to find room to have prefix len %d at %v''))"
proof -
  obtain ns where ns: "list_all (anet_wf 32) ns" "ps = map (anet_str 4) ns"
    using v4_lists [OF assms(1)] by blast
  have "prefix_length (anet_str 4 n) \<le> int (unat pl) \<longleftrightarrow> snd n \<le> unat pl" if "n \<in> set ns" for n
  proof -
    have "anet_wf 32 n" using that ns(1) by (simp add: list_all_iff)
    then show ?thesis by (simp only: prefix_length_anet of_nat_le_iff)
  qed
  then have len: "(\<exists>p \<in> set ps. prefix_length p \<le> int (unat pl)) \<longleftrightarrow> (\<exists>n \<in> set ns. snd n \<le> unat pl)"
    unfolding ns(2) by auto
  show ?thesis
  proof (cases "\<exists>n \<in> set ns. snd n \<le> unat pl")
    case True
    then obtain n where "n \<in> set ns" "snd n \<le> unat pl" by blast
    then obtain r where "ExtractPrefix ps pl = Inr r"
      using v4.extract_complete [OF ns(1), of n pl] assms(2) unfolding ns(2) by auto
    then show ?thesis using True len by blast
  next
    case False
    then have "\<forall>n \<in> set ns. unat pl < snd n" by (meson not_le)
    from v4.extract_fails [OF ns(1) this]
    have "ExtractPrefix ps pl = Inl (Errorf ''Failed to find room to have prefix len %d at %v'')"
      unfolding ns(2) .
    then show ?thesis using False len by simp
  qed
qed

theorem extract_prefix_room_witness: "\<exists>r. ExtractPrefix [''10.20.0.0/16''] 30 = Inr r"
  using extract_prefix_room [of "[''10.20.0.0/16'']" 30] by simp



text \<open>The network a connection is given and its two addresses.\<close>

definition slash30_of :: "connectionRecord \<Rightarrow> IPNet \<Rightarrow> IPNet \<Rightarrow> bool" where
  "slash30_of r src dst \<longleftrightarrow> prefix_length (IPNet_String (ipNet r)) = 30 \<and>
     be_nat (To4 (IP src)) = be_nat (IP (ipNet r)) + 1 \<and> be_nat (To4 (IP dst)) = be_nat (IP (ipNet r)) + 2 \<and>
     Contains (ipNet r) (IP src) \<and> Contains (ipNet r) (IP dst)"

lemma extract_slash30:
  assumes "list_all v4_canonical (pool_prefixes p)" "Extract p c f rqs = (p', Inr (src, dst, req))"
  shows "\<exists>r. map_of (connections p') c = Some r \<and> cr_prefixes r = req \<and> slash30_of r src dst"
proof -
  obtain net n where x: "p' = p\<lparr>pool_prefixes := pool_prefixes p',
       connections := AList.update c \<lparr>ipNet = net, cr_prefixes = req\<rparr> (connections p)\<rparr>"
    "anet_wf 32 n" "net = anet_net 4 n" "snd n = 30"
    "IncrementIP (v4InV6Prefix @ IP net) net = Inr (IP src)" "IncrementIP (IP src) net = Inr (IP dst)"
    by (rule Extract_shape [OF assms(2,1)]) (elim exE conjE, rule that, assumption+)
  note s = slash30_increments [OF x(2,4) x(5,6) [unfolded x(3)]]
  have ip: "IP net = to_be 4 (fst n)" by (simp add: x(3) anet_net_def mknet_def)
  have "map_of (connections p') c = Some \<lparr>ipNet = net, cr_prefixes = req\<rparr>" by (subst x(1)) simp
  moreover have "prefix_length (IPNet_String net) = 30"
    using prefix_length_anet [OF x(2)] x(3,4) by (simp add: anet_str_def)
  moreover have "be_nat (To4 (IP src)) = be_nat (IP net) + 1" "be_nat (To4 (IP dst)) = be_nat (IP net) + 2"
    using s ip by simp_all
  moreover have "Contains net (IP src)" "Contains net (IP dst)"
    using s Contains_v4 [OF x(2), of "fst n + 1" "IP src"] Contains_v4 [OF x(2), of "fst n + 2" "IP dst"] x(3)
    by simp_all
  ultimately show ?thesis by (simp add: slash30_of_def)
qed



end
