(* ===== verification/Selector.thy ===== *)
theory Selector
  imports Api "HOL-Library.Signed_Division"
begin

text \<open>
  Endpoint selection, \<open>controlplane/pkg/selector\<close>: the round-robin selector and
  the match selector built on it. The contract both keep is the locale
  \<open>endpoint_selector\<close>: a selected endpoint is one of the candidates.

  Candidates come from protocol buffer messages, whose repeated fields hold no
  nil entries; the check for a nil candidate in the round-robin selector is
  never taken.
\<close>

subsection \<open>Round robin\<close>

text \<open>The counters are Go \<open>int\<close>s: 64-bit, signed, wrapping.\<close>

record roundRobinSelector =
  roundRobin :: "(string, 64 word) gomap"

definition NewRoundRobinSelector :: roundRobinSelector where
  "NewRoundRobinSelector = \<lparr>roundRobin = []\<rparr>"

definition NS_GetName :: "NetworkService option \<Rightarrow> string" where
  "NS_GetName ns = (case ns of None \<Rightarrow> '''' | Some n \<Rightarrow> NS_Name n)"

definition rr_counter :: "roundRobinSelector \<Rightarrow> string \<Rightarrow> 64 word" where
  "rr_counter rr name = (case map_of (roundRobin rr) name of None \<Rightarrow> 0 | Some c \<Rightarrow> c)"

definition rr_SelectEndpoint ::
    "roundRobinSelector \<Rightarrow> LocalConnection option \<Rightarrow> NetworkService option \<Rightarrow>
     NetworkServiceEndpoint list \<Rightarrow> NetworkServiceEndpoint option result \<times> roundRobinSelector" where
  "rr_SelectEndpoint rr requestConnection ns networkServiceEndpoints =
     (if networkServiceEndpoints = [] then (Inr None, rr)
      else
        (let count = rr_counter rr (NS_GetName ns);
             idx = sint count smod int (length networkServiceEndpoints)
         in if idx < 0 then (Inl (Panic ''index out of range''), rr)
            else (Inr (Some (networkServiceEndpoints ! nat idx)),
                  rr\<lparr>roundRobin := AList.update (NS_GetName ns) (count + 1) (roundRobin rr)\<rparr>)))"

subsection \<open>Matching\<close>

text \<open>A missing key of \<open>A\<close> reads as the empty string.\<close>

definition isSubset :: "(string, string) gomap \<Rightarrow> (string, string) gomap \<Rightarrow> bool" where
  "isSubset A B \<longleftrightarrow>
     \<not> length A < length B \<and>
     list_all (\<lambda>(k, v). (case map_of A k of None \<Rightarrow> '''' | Some w \<Rightarrow> w) = v) B"

record matchSelector =
  ms_roundRobin :: roundRobinSelector

definition NewMatchSelector :: matchSelector where
  "NewMatchSelector = \<lparr>ms_roundRobin = NewRoundRobinSelector\<rparr>"

text \<open>The candidates of one match: every destination is tried on every endpoint.\<close>

definition nseCandidates :: "Match \<Rightarrow> NetworkServiceEndpoint list \<Rightarrow> NetworkServiceEndpoint list" where
  "nseCandidates m endpoints =
     concat (map (\<lambda>d. filter (\<lambda>nse. isSubset (NSE_Labels nse) (DestinationSelector d)) endpoints)
       (Match_Routes m))"

fun matchEndpoint ::
    "matchSelector \<Rightarrow> (string, string) gomap \<Rightarrow> NetworkService option \<Rightarrow> Match list \<Rightarrow>
     NetworkServiceEndpoint list \<Rightarrow> NetworkServiceEndpoint option result \<times> matchSelector" where
  "matchEndpoint m nsLabels ns [] endpoints = (Inr None, m)"
| "matchEndpoint m nsLabels ns (x # matches) endpoints =
     (if \<not> isSubset nsLabels (SourceSelector x) then matchEndpoint m nsLabels ns matches endpoints
      else
        (let cs = nseCandidates x endpoints in
         if length cs > 0 then
           (case rr_SelectEndpoint (ms_roundRobin m) None ns cs of
              (r, rr) \<Rightarrow> (r, m\<lparr>ms_roundRobin := rr\<rparr>))
         else matchEndpoint m nsLabels ns matches endpoints))"

definition NS_GetMatches :: "NetworkService option \<Rightarrow> Match list" where
  "NS_GetMatches ns = (case ns of None \<Rightarrow> [] | Some n \<Rightarrow> NS_Matches n)"

definition ms_SelectEndpoint ::
    "matchSelector \<Rightarrow> LocalConnection option \<Rightarrow> NetworkService option \<Rightarrow>
     NetworkServiceEndpoint list \<Rightarrow> NetworkServiceEndpoint option result \<times> matchSelector" where
  "ms_SelectEndpoint m requestConnection ns endpoints =
     (if length (NS_GetMatches ns) = 0 then
        (case rr_SelectEndpoint (ms_roundRobin m) None ns endpoints of
           (r, rr) \<Rightarrow> (r, m\<lparr>ms_roundRobin := rr\<rparr>))
      else matchEndpoint m (case requestConnection of None \<Rightarrow> [] | Some c \<Rightarrow> L_Labels c)
             ns (NS_GetMatches ns) endpoints)"

subsection \<open>Specification\<close>

text \<open>
  The endpoints a request may be given: those of the first match that accepts
  the source labels and has candidates; all of them if the service has no
  matches.
\<close>

definition eligible ::
    "(string, string) gomap \<Rightarrow> NetworkService option \<Rightarrow> NetworkServiceEndpoint list \<Rightarrow>
     NetworkServiceEndpoint list" where
  "eligible labels ns endpoints =
     (if NS_GetMatches ns = [] then endpoints
      else (case filter (\<lambda>m. isSubset labels (SourceSelector m) \<and> nseCandidates m endpoints \<noteq> [])
                   (NS_GetMatches ns) of
              [] \<Rightarrow> []
            | m # _ \<Rightarrow> nseCandidates m endpoints))"

text \<open>\<open>n\<close> calls in a row of the round-robin selector, all with the same candidates.\<close>

fun rr_calls :: "nat \<Rightarrow> roundRobinSelector \<Rightarrow> NetworkService option \<Rightarrow> NetworkServiceEndpoint list \<Rightarrow>
    NetworkServiceEndpoint option result list" where
  "rr_calls 0 rr ns es = []"
| "rr_calls (Suc n) rr ns es =
     (case rr_SelectEndpoint rr None ns es of (r, rr') \<Rightarrow> r # rr_calls n rr' ns es)"

subsection \<open>The contract\<close>

locale endpoint_selector =
  fixes sel :: "'s \<Rightarrow> LocalConnection option \<Rightarrow> NetworkService option \<Rightarrow>
    NetworkServiceEndpoint list \<Rightarrow> NetworkServiceEndpoint option result \<times> 's"
  assumes sel_in: "sel s c ns es = (Inr (Some e), s') \<Longrightarrow> e \<in> set es"
    and sel_no_error: "fst (sel s c ns es) = Inl x \<Longrightarrow> \<exists>m. x = Panic m"
begin

lemma sel_filtered:
  "sel s c ns (filter P es) = (Inr (Some e), s') \<Longrightarrow> P e \<and> e \<in> set es"
  using sel_in [of s c ns "filter P es"] by auto

lemma sel_empty: "fst (sel s c ns []) \<noteq> Inr (Some e)"
  using sel_in [of s c ns "[]" e] by (cases "sel s c ns []") auto

end

lemma smod_nonneg: "0 \<le> a \<Longrightarrow> 0 < b \<Longrightarrow> a smod b = a mod (b :: int)"
  by (cases "a = 0") (auto simp: signed_modulo_int_def)

lemma rr_in:
  assumes "rr_SelectEndpoint rr c ns es = (Inr (Some e), rr')"
  shows "e \<in> set es"
proof -
  have "sint (rr_counter rr (NS_GetName ns)) smod int (length es) < int (length es)"
    if "es \<noteq> []" using that smod_int_range [of "int (length es)" "sint (rr_counter rr (NS_GetName ns))"]
    by auto
  then show ?thesis
    using assms by (auto simp: rr_SelectEndpoint_def Let_def nat_less_iff split: if_splits intro!: nth_mem)
qed

interpretation rr: endpoint_selector rr_SelectEndpoint
  by unfold_locales (auto simp: rr_in rr_SelectEndpoint_def Let_def split: if_splits)

lemma nseCandidates_subset: "set (nseCandidates m es) \<subseteq> set es"
  by (auto simp: nseCandidates_def)

lemma matchEndpoint_eligible:
  "matchEndpoint m labels ns ms es =
     (case filter (\<lambda>x. isSubset labels (SourceSelector x) \<and> nseCandidates x es \<noteq> []) ms of
        [] \<Rightarrow> (Inr None, m)
      | x # _ \<Rightarrow> (case rr_SelectEndpoint (ms_roundRobin m) None ns (nseCandidates x es) of
                    (r, rr) \<Rightarrow> (r, m\<lparr>ms_roundRobin := rr\<rparr>)))"
  by (induction ms) (auto simp: Let_def)

lemma rr_empty [simp]: "rr_SelectEndpoint rr c ns [] = (Inr None, rr)"
  by (simp add: rr_SelectEndpoint_def)

lemma ms_rr:
  "ms_SelectEndpoint m c ns es =
     (case rr_SelectEndpoint (ms_roundRobin m) None ns
             (eligible (case c of None \<Rightarrow> [] | Some x \<Rightarrow> L_Labels x) ns es) of
        (r, rr) \<Rightarrow> (r, m\<lparr>ms_roundRobin := rr\<rparr>))"
  by (simp add: ms_SelectEndpoint_def eligible_def matchEndpoint_eligible split: list.split)

lemma eligible_subset: "set (eligible labels ns es) \<subseteq> set es"
  using nseCandidates_subset by (auto simp: eligible_def split: list.splits)

interpretation ms: endpoint_selector ms_SelectEndpoint
proof
  fix s c ns es e s'
  assume "ms_SelectEndpoint s c ns es = (Inr (Some e), s')"
  then show "e \<in> set es"
    unfolding ms_rr using rr.sel_in eligible_subset by (fastforce split: prod.splits)
next
  fix s c ns es x
  assume "fst (ms_SelectEndpoint s c ns es) = Inl x"
  then show "\<exists>m. x = Panic m"
    unfolding ms_rr by (auto simp: case_prod_beta dest: rr.sel_no_error)
qed

subsection \<open>Round robin is fair\<close>

lemma sint_small:
  assumes "unat (w :: 64 word) < 2 ^ 63"
  shows "sint w = int (unat w)"
proof -
  have "int (unat w) < 2 ^ 63" using assms by (simp only: of_nat_less_numeral_power_cancel_iff)
  moreover have "- (2 ^ 63) \<le> int (unat w)" by (rule order_trans [of _ 0]) simp_all
  ultimately have "signed_take_bit 63 (uint w) = uint w"
    unfolding uint_nat by (intro signed_take_bit_int_eq_self)
  then show ?thesis by (simp add: sint_uint)
qed

lemma unat_plus_1:
  assumes "unat (w :: 64 word) < 2 ^ 63" shows "unat (w + 1) = unat w + 1"
proof -
  have "(2::nat) ^ 63 < 2 ^ 64" by simp
  with assms have "unat w + 1 < 2 ^ 64" by linarith
  then show ?thesis by (simp add: unat_word_ariths)
qed

lemma rr_step:
  assumes "es \<noteq> []" "unat (rr_counter rr (NS_GetName ns)) < 2 ^ 63"
  obtains rr' where
    "rr_SelectEndpoint rr c ns es =
       (Inr (Some (es ! (unat (rr_counter rr (NS_GetName ns)) mod length es))), rr')"
    "unat (rr_counter rr' (NS_GetName ns)) = unat (rr_counter rr (NS_GetName ns)) + 1"
    "\<And>n. n \<noteq> NS_GetName ns \<Longrightarrow> rr_counter rr' n = rr_counter rr n"
proof
  let ?c = "rr_counter rr (NS_GetName ns)"
  let ?rr = "rr\<lparr>roundRobin := AList.update (NS_GetName ns) (?c + 1) (roundRobin rr)\<rparr>"
  have "sint ?c smod int (length es) = int (unat ?c mod length es)"
    using assms by (simp only: sint_small) (simp add: smod_nonneg zmod_int)
  then show "rr_SelectEndpoint rr c ns es = (Inr (Some (es ! (unat ?c mod length es))), ?rr)"
    using assms(1) by (simp add: rr_SelectEndpoint_def Let_def)
  show "unat (rr_counter ?rr (NS_GetName ns)) = unat ?c + 1"
    using assms(2) unat_plus_1 [of ?c] by (simp add: rr_counter_def)
  show "\<And>n. n \<noteq> NS_GetName ns \<Longrightarrow> rr_counter ?rr n = rr_counter rr n"
    by (simp add: rr_counter_def)
qed

lemma rr_calls_nth:
  assumes "es \<noteq> []" "unat (rr_counter rr (NS_GetName ns)) + n \<le> 2 ^ 63"
  shows "rr_calls n rr ns es =
    map (\<lambda>i. Inr (Some (es ! ((unat (rr_counter rr (NS_GetName ns)) + i) mod length es)))) [0..<n]"
  using assms(2)
proof (induction n arbitrary: rr)
  case (Suc n)
  let ?c = "unat (rr_counter rr (NS_GetName ns))"
  obtain rr' where s: "rr_SelectEndpoint rr None ns es = (Inr (Some (es ! (?c mod length es))), rr')"
    "unat (rr_counter rr' (NS_GetName ns)) = ?c + 1"
    by (rule rr_step [OF assms(1), of rr ns None]) (use Suc.prems in linarith, rule that)
  have "rr_calls n rr' ns es = map (\<lambda>i. Inr (Some (es ! ((?c + Suc i) mod length es)))) [0..<n]"
    using Suc.IH [of rr', unfolded s(2)] Suc.prems by simp
  then show ?case using s(1) by (simp add: map_upt_Suc del: upt_Suc)
qed simp

text \<open>
  Round robin is fair: as many calls in a row as there are candidates, from
  any counter that is not about to overflow, select every candidate exactly
  once, in rotated order.
\<close>

theorem round_robin_fair:
  assumes "es \<noteq> []" "unat (rr_counter rr (NS_GetName ns)) + length es \<le> 2 ^ 63"
  shows "rr_calls (length es) rr ns es =
    map (\<lambda>e. Inr (Some e)) (rotate (unat (rr_counter rr (NS_GetName ns))) es)"
  by (rule nth_equalityI) (simp_all add: rr_calls_nth [OF assms] nth_rotate)

theorem round_robin_fair_witness:
  "\<exists>a b. a \<noteq> b \<and> rr_calls (length [a, b]) NewRoundRobinSelector None [a, b] = [Inr (Some a), Inr (Some b)]"
proof -
  define e where "e = (\<lambda>n. \<lparr>NSE_NetworkServiceName = ''icmp'', NSE_Payload = ''IP'',
    NSE_NetworkServiceManagerName = ''nsm'', NSE_EndpointName = n, NSE_Labels = [], NSE_State = ''RUNNING''\<rparr>)"
  have "e ''nse-1'' \<noteq> e ''nse-2''" by (simp add: e_def)
  moreover have c: "unat (rr_counter NewRoundRobinSelector (NS_GetName None)) = 0"
    by (simp add: rr_counter_def NewRoundRobinSelector_def)
  have le: "0 + length [e ''nse-1'', e ''nse-2''] \<le> 2 ^ 63"
    by (rule order_trans [of _ 2], simp, rule self_le_power) simp_all
  have "rr_calls (length [e ''nse-1'', e ''nse-2'']) NewRoundRobinSelector None [e ''nse-1'', e ''nse-2''] =
      [Inr (Some (e ''nse-1'')), Inr (Some (e ''nse-2''))]"
    using round_robin_fair [of "[e ''nse-1'', e ''nse-2'']" NewRoundRobinSelector None, unfolded c, OF _ le]
    by (simp only: rotate0 id_apply list.map list.distinct simp_thms)
  ultimately show ?thesis by blast
qed

text \<open>
  The match selector is round robin over the endpoints that the first
  applicable match admits: its answer and its counters are those of the
  round-robin selector on \<open>eligible\<close>, whatever the matches, labels and state.
\<close>

theorem match_selector_eligible:
  "ms_SelectEndpoint m c ns es =
     (let labels = (case c of None \<Rightarrow> [] | Some x \<Rightarrow> L_Labels x);
          (r, rr) = rr_SelectEndpoint (ms_roundRobin m) None ns (eligible labels ns es)
      in (r, m\<lparr>ms_roundRobin := rr\<rparr>))"
  by (simp add: ms_rr)

text \<open>
  A selector label with an empty value is satisfied by labels that lack the key,
  although every label of the selector should be present.
\<close>

lemma isSubset_missing_key: "isSubset [(''app'', ''vpn'')] [(''zone'', '''')]"
  by (simp add: isSubset_def)

end
