(* ===== verification/Model.thy ===== *)
theory Model
  imports Selector
begin

text \<open>
  The in-memory model of a network service manager, \<open>controlplane/pkg/model/model.go\<close>:
  endpoints with their index by network service, dataplanes, client connections
  and the listeners told about changes. A listener is a number; an operation
  returns the new state and the calls it makes on listeners, in order.

  Client connections are shared, mutable objects: \<open>store\<close> holds the contents of
  each object, and the model maps connection ids to references. A registration
  of an endpoint is never modified after it was added; it is a pair of its
  address and its contents, because the code compares registrations by address.
  Every operation runs under the model's lock.
\<close>

subsection \<open>Data\<close>

record Dataplane =
  RegisteredName :: string
  SocketLocation :: string
  LocalMechanisms :: "LocalMechanism list"
  RemoteMechanisms :: "RemoteMechanism list"

datatype ClientConnectionState =
  CC_Ready | CC_Requesting | CC_Healing | CC_Closing | CC_Closed

record ClientConnection =
  CC_ConnectionId :: string
  Xcon :: "CrossConnect option"
  RemoteNsm :: "NetworkServiceManager option"
  Endpoint :: "NSERegistration option"
  CC_Dataplane :: "Dataplane option"
  ConnectionState :: ClientConnectionState
  CC_Request :: "NSMRequest option"

definition Reg_GetNetworkService :: "NSERegistration option \<Rightarrow> NetworkService option" where
  "Reg_GetNetworkService r = (case r of None \<Rightarrow> None | Some x \<Rightarrow> Reg_NetworkService x)"

definition Reg_GetNetworkServiceManager :: "NSERegistration option \<Rightarrow> NetworkServiceManager option" where
  "Reg_GetNetworkServiceManager r = (case r of None \<Rightarrow> None | Some x \<Rightarrow> Reg_NetworkServiceManager x)"

definition Reg_GetNetworkserviceEndpoint :: "NSERegistration option \<Rightarrow> NetworkServiceEndpoint option" where
  "Reg_GetNetworkserviceEndpoint r = (case r of None \<Rightarrow> None | Some x \<Rightarrow> Reg_NetworkserviceEndpoint x)"

definition NSE_GetEndpointName :: "NetworkServiceEndpoint option \<Rightarrow> string" where
  "NSE_GetEndpointName e = (case e of None \<Rightarrow> '''' | Some x \<Rightarrow> NSE_EndpointName x)"

definition NSM_GetName :: "NetworkServiceManager option \<Rightarrow> string" where
  "NSM_GetName m = (case m of None \<Rightarrow> '''' | Some x \<Rightarrow> NSM_Name x)"

definition CC_GetId :: "ClientConnection option \<Rightarrow> string" where
  "CC_GetId cc = (case cc of None \<Rightarrow> '''' | Some c \<Rightarrow> CC_ConnectionId c)"

definition CC_GetNetworkService :: "ClientConnection option \<Rightarrow> string" where
  "CC_GetNetworkService cc =
     (case cc of None \<Rightarrow> '''' | Some c \<Rightarrow> NS_GetName (Reg_GetNetworkService (Endpoint c)))"

definition GetConnectionSource :: "ClientConnection \<Rightarrow> NSMConnection option" where
  "GetConnectionSource cc =
     (case GetLocalSource (Xcon cc) of
        Some l \<Rightarrow> Some (Local l)
      | None \<Rightarrow> map_option Remote (GetRemoteSource (Xcon cc)))"

datatype model_event =
    EndpointAdded "NetworkServiceEndpoint option"
  | EndpointDeleted "NetworkServiceEndpoint option"
  | DataplaneAdded Dataplane
  | DataplaneDeleted Dataplane
  | ClientConnectionAdded ClientConnection
  | ClientConnectionDeleted ClientConnection
  | ClientConnectionUpdated ClientConnection

type_synonym cc_ref = nat
type_synonym endpoint_ptr = "nat \<times> NSERegistration"
type_synonym listener = nat

record impl =
  endpoints :: "(string, endpoint_ptr) gomap"
  networkServices :: "(string, endpoint_ptr list) gomap"
  dataplanes :: "(string, Dataplane) gomap"
  lastConnnectionId :: "64 word"
  impl_nsm :: "NetworkServiceManager option"
  listeners :: "listener list"
  impl_selector :: matchSelector
  clientConnections :: "(string, cc_ref) gomap"
  store :: "cc_ref \<Rightarrow> ClientConnection"

text \<open>The object a reference that was never allocated holds: all fields zero.\<close>

definition zero_ClientConnection :: ClientConnection where
  "zero_ClientConnection = \<lparr>CC_ConnectionId = '''', Xcon = None, RemoteNsm = None, Endpoint = None,
     CC_Dataplane = None, ConnectionState = CC_Ready, CC_Request = None\<rparr>"

definition NewModel :: impl where
  "NewModel = \<lparr>endpoints = [], networkServices = [], dataplanes = [], lastConnnectionId = 0,
     impl_nsm = None, listeners = [], impl_selector = NewMatchSelector,
     clientConnections = [], store = (\<lambda>_. zero_ClientConnection)\<rparr>"

type_synonym calls = "(listener \<times> model_event) list"

definition notify :: "impl \<Rightarrow> model_event \<Rightarrow> calls" where
  "notify i ev = map (\<lambda>l. (l, ev)) (listeners i)"

subsection \<open>Client connections\<close>

definition AddClientConnection :: "impl \<Rightarrow> cc_ref \<Rightarrow> impl \<times> calls" where
  "AddClientConnection i r =
     (i\<lparr>clientConnections := AList.update (CC_ConnectionId (store i r)) r (clientConnections i)\<rparr>,
      notify i (ClientConnectionAdded (store i r)))"

definition GetClientConnection :: "impl \<Rightarrow> string \<Rightarrow> cc_ref option" where
  "GetClientConnection i connectionId = map_of (clientConnections i) connectionId"

definition GetAllClientConnections ::
    "((string \<times> cc_ref) list \<Rightarrow> (string \<times> cc_ref) list) \<Rightarrow> impl \<Rightarrow> cc_ref list" where
  "GetAllClientConnections ord i = map snd (ord (clientConnections i))"

definition UpdateClientConnection :: "impl \<Rightarrow> cc_ref \<Rightarrow> impl \<times> calls" where
  "UpdateClientConnection i r =
     (i\<lparr>clientConnections := AList.update (CC_ConnectionId (store i r)) r (clientConnections i)\<rparr>,
      notify i (ClientConnectionUpdated (store i r)))"

definition DeleteClientConnection :: "impl \<Rightarrow> string \<Rightarrow> impl \<times> calls" where
  "DeleteClientConnection i connectionId =
     (case map_of (clientConnections i) connectionId of
        None \<Rightarrow> (i, [])
      | Some r \<Rightarrow>
          (i\<lparr>clientConnections := AList.delete connectionId (clientConnections i)\<rparr>,
           notify i (ClientConnectionDeleted (store i r))))"

subsection \<open>Listeners\<close>

definition AddListener ::
    "((string \<times> Dataplane) list \<Rightarrow> (string \<times> Dataplane) list) \<Rightarrow>
     ((string \<times> endpoint_ptr) list \<Rightarrow> (string \<times> endpoint_ptr) list) \<Rightarrow>
     impl \<Rightarrow> listener \<Rightarrow> impl \<times> calls" where
  "AddListener ord_dp ord_ep i l =
     (i\<lparr>listeners := listeners i @ [l]\<rparr>,
      map (\<lambda>(_, dp). (l, DataplaneAdded dp)) (ord_dp (dataplanes i)) @
      map (\<lambda>(_, ep). (l, EndpointAdded (Reg_NetworkserviceEndpoint (snd ep)))) (ord_ep (endpoints i)))"

definition RemoveListener :: "impl \<Rightarrow> listener \<Rightarrow> impl" where
  "RemoveListener i l = i\<lparr>listeners := remove1 l (listeners i)\<rparr>"

subsection \<open>Endpoints\<close>

definition GetNetworkServiceEndpoints :: "impl \<Rightarrow> string \<Rightarrow> endpoint_ptr list" where
  "GetNetworkServiceEndpoints i name =
     (case map_of (networkServices i) name of None \<Rightarrow> [] | Some es \<Rightarrow> es)"

definition GetEndpoint :: "impl \<Rightarrow> string \<Rightarrow> NSERegistration option" where
  "GetEndpoint i name = map_option snd (map_of (endpoints i) name)"

definition ptr_name :: "endpoint_ptr \<Rightarrow> string" where
  "ptr_name p = NSE_GetEndpointName (Reg_NetworkserviceEndpoint (snd p))"

definition ptr_service :: "endpoint_ptr \<Rightarrow> string" where
  "ptr_service p = NS_GetName (Reg_NetworkService (snd p))"

definition AddEndpoint :: "impl \<Rightarrow> endpoint_ptr \<Rightarrow> impl \<times> calls" where
  "AddEndpoint i endpoint =
     (let serviceName = ptr_service endpoint;
          services = (case map_of (networkServices i) serviceName of
                        None \<Rightarrow> [endpoint]
                      | Some es \<Rightarrow> es @ [endpoint])
      in (i\<lparr>endpoints := AList.update (ptr_name endpoint) endpoint (endpoints i),
            networkServices := AList.update serviceName services (networkServices i)\<rparr>,
          notify i (EndpointAdded (Reg_NetworkserviceEndpoint (snd endpoint)))))"

text \<open>The removal loop compares pointers and stops at the first hit.\<close>

fun remove_ptr :: "nat \<Rightarrow> endpoint_ptr list \<Rightarrow> endpoint_ptr list" where
  "remove_ptr a [] = []"
| "remove_ptr a (p # ps) = (if fst p = a then ps else p # remove_ptr a ps)"

definition DeleteEndpoint :: "impl \<Rightarrow> string \<Rightarrow> (impl \<times> calls) \<times> error option" where
  "DeleteEndpoint i name =
     (case map_of (endpoints i) name of
        None \<Rightarrow> ((i, []), Some (Errorf ''no endpoint with name: %s''))
      | Some endpoint \<Rightarrow>
          (let services = GetNetworkServiceEndpoints i (ptr_service endpoint);
               index = (if length services > 1 then
                          AList.update (ptr_service endpoint) (remove_ptr (fst endpoint) services) (networkServices i)
                        else AList.delete (ptr_service endpoint) (networkServices i))
           in ((i\<lparr>networkServices := index, endpoints := AList.delete name (endpoints i)\<rparr>,
                notify i (EndpointDeleted (Reg_NetworkserviceEndpoint (snd endpoint)))), None)))"

subsection \<open>Dataplanes\<close>

fun first_named :: "string \<Rightarrow> (string \<times> Dataplane) list \<Rightarrow> Dataplane option" where
  "first_named name [] = None"
| "first_named name ((_, dp) # r) = (if RegisteredName dp = name then Some dp else first_named name r)"

definition GetDataplane ::
    "((string \<times> Dataplane) list \<Rightarrow> (string \<times> Dataplane) list) \<Rightarrow> impl \<Rightarrow> string \<Rightarrow> Dataplane option" where
  "GetDataplane ord i name = first_named name (ord (dataplanes i))"

definition SelectDataplane ::
    "((string \<times> Dataplane) list \<Rightarrow> (string \<times> Dataplane) list) \<Rightarrow> impl \<Rightarrow> Dataplane result" where
  "SelectDataplane ord i =
     (case ord (dataplanes i) of
        [] \<Rightarrow> Inl (Errorf ''no dataplanes registered'')
      | (_, v) # _ \<Rightarrow> Inr v)"

definition AddDataplane :: "impl \<Rightarrow> Dataplane \<Rightarrow> impl \<times> calls" where
  "AddDataplane i dataplane =
     (i\<lparr>dataplanes := AList.update (RegisteredName dataplane) dataplane (dataplanes i)\<rparr>,
      notify i (DataplaneAdded dataplane))"

definition DeleteDataplane :: "impl \<Rightarrow> string \<Rightarrow> impl \<times> calls" where
  "DeleteDataplane i name =
     (case map_of (dataplanes i) name of
        None \<Rightarrow> (i, [])
      | Some dataplane \<Rightarrow>
          (i\<lparr>dataplanes := AList.delete name (dataplanes i)\<rparr>, notify i (DataplaneDeleted dataplane)))"

subsection \<open>The manager's own record and connection ids\<close>

definition GetNsm :: "impl \<Rightarrow> NetworkServiceManager option" where
  "GetNsm i = impl_nsm i"

definition SetNsm :: "impl \<Rightarrow> NetworkServiceManager option \<Rightarrow> impl" where
  "SetNsm i n = i\<lparr>impl_nsm := n\<rparr>"

definition NextConnectionId :: "impl \<Rightarrow> string \<times> impl" where
  "NextConnectionId i =
     (let n = lastConnnectionId i + 1 in
      (FormatUint 16 (unat n), i\<lparr>lastConnnectionId := n\<rparr>))"

definition GetSelector :: "impl \<Rightarrow> matchSelector" where
  "GetSelector i = impl_selector i"

end
