(* ===== verification/ModelProps.thy ===== *)
theory ModelProps
  imports Model
begin

text \<open>
  What the model promises: listeners that join at any time can rebuild the
  endpoints and dataplanes from the calls they get, the index by network service
  lists exactly the registered endpoints, dataplanes are found by name whatever
  the iteration order, and connection ids are fresh.
\<close>

subsection \<open>Runs of the model\<close>

datatype model_op =
    Op_AddEndpoint endpoint_ptr
  | Op_DeleteEndpoint string
  | Op_AddDataplane Dataplane
  | Op_DeleteDataplane string
  | Op_AddClientConnection cc_ref
  | Op_UpdateClientConnection cc_ref
  | Op_DeleteClientConnection string
  | Op_AddListener listener
  | Op_RemoveListener listener
  | Op_NextConnectionId

text \<open>The two orders are those of the map iterations in \<open>AddListener\<close>.\<close>

type_synonym listener_orders =
  "((string \<times> Dataplane) list \<Rightarrow> (string \<times> Dataplane) list) \<times>
   ((string \<times> endpoint_ptr) list \<Rightarrow> (string \<times> endpoint_ptr) list)"

fun apply_op :: "listener_orders \<Rightarrow> impl \<Rightarrow> model_op \<Rightarrow> impl \<times> calls" where
  "apply_op ords i (Op_AddEndpoint p) = AddEndpoint i p"
| "apply_op ords i (Op_DeleteEndpoint n) = fst (DeleteEndpoint i n)"
| "apply_op ords i (Op_AddDataplane d) = AddDataplane i d"
| "apply_op ords i (Op_DeleteDataplane n) = DeleteDataplane i n"
| "apply_op ords i (Op_AddClientConnection r) = AddClientConnection i r"
| "apply_op ords i (Op_UpdateClientConnection r) = UpdateClientConnection i r"
| "apply_op ords i (Op_DeleteClientConnection c) = DeleteClientConnection i c"
| "apply_op ords i (Op_AddListener l) = AddListener (fst ords) (snd ords) i l"
| "apply_op ords i (Op_RemoveListener l) = (RemoveListener i l, [])"
| "apply_op ords i Op_NextConnectionId = (snd (NextConnectionId i), [])"

fun run_ops :: "listener_orders \<Rightarrow> impl \<Rightarrow> model_op list \<Rightarrow> impl \<times> calls" where
  "run_ops ords i [] = (i, [])"
| "run_ops ords i (x # ops) =
     (case apply_op ords i x of (i', cs) \<Rightarrow>
        (case run_ops ords i' ops of (i'', cs') \<Rightarrow> (i'', cs @ cs')))"

subsection \<open>What a listener knows\<close>

text \<open>
  A listener that keeps what it is told: endpoints by name and dataplanes by
  registered name.
\<close>

record view =
  v_endpoints :: "string \<rightharpoonup> NetworkServiceEndpoint option"
  v_dataplanes :: "string \<rightharpoonup> Dataplane"

fun observe :: "view \<Rightarrow> model_event \<Rightarrow> view" where
  "observe v (EndpointAdded e) = v\<lparr>v_endpoints := (v_endpoints v)(NSE_GetEndpointName e \<mapsto> e)\<rparr>"
| "observe v (EndpointDeleted e) = v\<lparr>v_endpoints := (v_endpoints v)(NSE_GetEndpointName e := None)\<rparr>"
| "observe v (DataplaneAdded d) = v\<lparr>v_dataplanes := (v_dataplanes v)(RegisteredName d \<mapsto> d)\<rparr>"
| "observe v (DataplaneDeleted d) = v\<lparr>v_dataplanes := (v_dataplanes v)(RegisteredName d := None)\<rparr>"
| "observe v _ = v"

definition empty_view :: view where
  "empty_view = \<lparr>v_endpoints = (\<lambda>_. None), v_dataplanes = (\<lambda>_. None)\<rparr>"

definition calls_to :: "listener \<Rightarrow> calls \<Rightarrow> model_event list" where
  "calls_to l cs = map snd (filter (\<lambda>c. fst c = l) cs)"

definition model_view :: "impl \<Rightarrow> view" where
  "model_view i = \<lparr>v_endpoints = (\<lambda>n. map_option (\<lambda>p. Reg_NetworkserviceEndpoint (snd p)) (map_of (endpoints i) n)),
     v_dataplanes = map_of (dataplanes i)\<rparr>"

text \<open>Endpoints and dataplanes are stored under their own names.\<close>

definition keys_ok :: "impl \<Rightarrow> bool" where
  "keys_ok i \<longleftrightarrow> gomap_ok (endpoints i) \<and> gomap_ok (dataplanes i) \<and>
     (\<forall>n p. map_of (endpoints i) n = Some p \<longrightarrow> ptr_name p = n) \<and>
     (\<forall>n d. map_of (dataplanes i) n = Some d \<longrightarrow> RegisteredName d = n)"

subsection \<open>The index by network service\<close>

definition index_ok :: "impl \<Rightarrow> bool" where
  "index_ok i \<longleftrightarrow> inj_on fst (ran (map_of (endpoints i))) \<and>
     (\<forall>s. distinct (map fst (GetNetworkServiceEndpoints i s)) \<and>
          set (GetNetworkServiceEndpoints i s) = {p \<in> ran (map_of (endpoints i)). ptr_service p = s})"

text \<open>
  Endpoints are added under new names and at new addresses: \<open>ops\<close> never adds an
  endpoint whose name or address is registered at that moment.
\<close>

fun adds_fresh :: "listener_orders \<Rightarrow> impl \<Rightarrow> model_op list \<Rightarrow> bool" where
  "adds_fresh ords i [] \<longleftrightarrow> True"
| "adds_fresh ords i (x # ops) \<longleftrightarrow>
     (case x of
        Op_AddEndpoint p \<Rightarrow> map_of (endpoints i) (ptr_name p) = None \<and>
          list_all (\<lambda>(_, q). fst q \<noteq> fst p) (endpoints i)
      | _ \<Rightarrow> True) \<and>
     adds_fresh ords (fst (apply_op ords i x)) ops"

subsection \<open>Connection ids\<close>

fun connection_ids :: "nat \<Rightarrow> impl \<Rightarrow> string list" where
  "connection_ids 0 i = []"
| "connection_ids (Suc n) i = (case NextConnectionId i of (c, i') \<Rightarrow> c # connection_ids n i')"

subsection \<open>Lemmas\<close>

lemmas op_defs = AddEndpoint_def DeleteEndpoint_def AddDataplane_def DeleteDataplane_def
  AddClientConnection_def UpdateClientConnection_def DeleteClientConnection_def
  AddListener_def RemoveListener_def NextConnectionId_def

lemma keys_ok_apply: "keys_ok i \<Longrightarrow> keys_ok (fst (apply_op ords i x))"
  by (cases x) (auto simp: keys_ok_def op_defs Let_def split: option.splits if_splits)

lemma calls_to_append [simp]: "calls_to l (cs @ ds) = calls_to l cs @ calls_to l ds"
  by (simp add: calls_to_def)

lemma calls_to_Nil [simp]: "calls_to l [] = []"
  by (simp add: calls_to_def)

lemma calls_to_notify:
  "calls_to l (notify i ev) = replicate (count_list (listeners i) l) ev"
proof -
  have "map snd (filter (\<lambda>c. fst c = l) (map (\<lambda>l. (l, ev)) xs)) = replicate (count_list xs l) ev" for xs
    by (induction xs) auto
  then show ?thesis by (simp add: calls_to_def notify_def)
qed

lemma observe_idem: "observe (observe v ev) ev = observe v ev"
  by (cases ev) auto

lemma observe_replicate:
  assumes "0 < n"
  shows "foldl observe v (replicate n ev) = observe v ev"
proof -
  have "foldl observe (observe v ev) (replicate k ev) = observe v ev" for k
    by (induction k) (auto simp: observe_idem)
  then show ?thesis using assms by (cases n) auto
qed

lemma observe_notify:
  "l \<in> set (listeners i) \<Longrightarrow> foldl observe v (calls_to l (notify i ev)) = observe v ev"
  by (simp add: calls_to_notify observe_replicate count_list_0_iff zero_less_iff_neq_zero)

lemma order_map_of:
  assumes "is_order f" "gomap_ok m"
  shows "map_of (rev (f m)) = map_of m"
proof -
  have "distinct (map fst (f m))"
    using assms by (metis gomap_ok_def is_order_mset mset_map mset_eq_imp_distinct_iff)
  then show ?thesis
    using assms by (simp add: map_of_inject_set gomap_ok_def rev_map [symmetric] is_order_set)
qed

lemma replay_dataplanes:
  assumes "\<forall>(n, d) \<in> set xs. RegisteredName d = n"
  shows "foldl observe v (map (\<lambda>(_, d). DataplaneAdded d) xs) =
    v\<lparr>v_dataplanes := v_dataplanes v ++ map_of (rev xs)\<rparr>"
  using assms by (induction xs arbitrary: v) (auto simp: map_add_def fun_eq_iff split: option.split)

lemma replay_endpoints:
  assumes "\<forall>(n, p) \<in> set xs. ptr_name p = n"
  shows "foldl observe v (map (\<lambda>(_, p). EndpointAdded (Reg_NetworkserviceEndpoint (snd p))) xs) =
    v\<lparr>v_endpoints := v_endpoints v ++
        (\<lambda>n. map_option (\<lambda>p. Reg_NetworkserviceEndpoint (snd p)) (map_of (rev xs) n))\<rparr>"
  using assms
  by (induction xs arbitrary: v) (auto simp: map_add_def fun_eq_iff ptr_name_def split: option.split)

lemma calls_to_replay:
  "calls_to l (map (\<lambda>(_, d). (k, f d)) xs) = (if l = k then map (\<lambda>(_, d). f d) xs else [])"
  by (induction xs) (auto simp: calls_to_def)

lemma replay_model:
  assumes "keys_ok i" "is_order ord_dp" "is_order ord_ep" "v = empty_view \<or> v = model_view i"
  shows "foldl observe v (calls_to l (snd (AddListener ord_dp ord_ep i l))) = model_view i"
proof -
  have dp: "\<forall>(n, d) \<in> set (ord_dp (dataplanes i)). RegisteredName d = n"
    and ep: "\<forall>(n, p) \<in> set (ord_ep (endpoints i)). ptr_name p = n"
    using assms(1-3) by (auto simp: keys_ok_def is_order_set gomap_map_of_iff [symmetric])
  have m: "map_of (rev (ord_dp (dataplanes i))) = map_of (dataplanes i)"
    "map_of (rev (ord_ep (endpoints i))) = map_of (endpoints i)"
    using assms(1-3) by (simp_all add: keys_ok_def order_map_of)
  show ?thesis
    using assms(4)
    by (auto simp: AddListener_def calls_to_replay replay_dataplanes [OF dp] replay_endpoints [OF ep] m
        model_view_def empty_view_def map_add_def fun_eq_iff split: option.split)
qed

lemma model_view_apply:
  assumes "keys_ok i" "is_order (fst ords)" "is_order (snd ords)" "l \<in> set (listeners i)"
    and "x \<noteq> Op_RemoveListener l"
  shows "foldl observe (model_view i) (calls_to l (snd (apply_op ords i x))) = model_view (fst (apply_op ords i x)) \<and>
    l \<in> set (listeners (fst (apply_op ords i x)))"
proof (cases x)
  case (Op_AddListener k)
  have "model_view (fst (AddListener (fst ords) (snd ords) i k)) = model_view i"
    by (simp add: AddListener_def model_view_def)
  moreover have "k \<noteq> l \<Longrightarrow> calls_to l (snd (AddListener (fst ords) (snd ords) i k)) = []"
    by (simp add: AddListener_def calls_to_replay)
  ultimately show ?thesis
    using replay_model [OF assms(1-3)] assms(4) Op_AddListener
    by (cases "k = l") (auto simp: AddListener_def)
next
  case (Op_RemoveListener k)
  then show ?thesis using assms(4,5)
    by (simp add: RemoveListener_def model_view_def in_set_remove1)
next
  case (Op_DeleteEndpoint n)
  then show ?thesis using assms(1,4)
    by (auto simp: DeleteEndpoint_def Let_def observe_notify model_view_def keys_ok_def
        ptr_name_def fun_eq_iff split: option.split)
next
  case (Op_DeleteDataplane n)
  then show ?thesis using assms(1,4)
    by (auto simp: DeleteDataplane_def observe_notify model_view_def keys_ok_def
        split: option.split)
qed (use assms(4) in \<open>auto simp: op_defs Let_def observe_notify model_view_def ptr_name_def
      fun_eq_iff split: option.split\<close>)

lemma run_view:
  assumes "keys_ok i" "is_order (fst ords)" "is_order (snd ords)" "l \<in> set (listeners i)"
    and "Op_RemoveListener l \<notin> set ops"
  shows "foldl observe (model_view i) (calls_to l (snd (run_ops ords i ops))) = model_view (fst (run_ops ords i ops))"
  using assms
proof (induction ops arbitrary: i)
  case (Cons x ops)
  obtain i' cs where x: "apply_op ords i x = (i', cs)" by (cases "apply_op ords i x") auto
  have "keys_ok i'" using keys_ok_apply [OF Cons.prems(1), of ords x] x by simp
  moreover have "foldl observe (model_view i) (calls_to l cs) = model_view i' \<and> l \<in> set (listeners i')"
    using model_view_apply [OF Cons.prems(1-4), of x] Cons.prems(5) x by auto
  ultimately show ?case
    using Cons.IH [of i'] Cons.prems(2,3,5) x by (simp add: case_prod_beta)
qed simp

lemma keys_ok_run: "keys_ok i \<Longrightarrow> keys_ok (fst (run_ops ords i ops))"
proof (induction ops arbitrary: i)
  case (Cons x ops)
  then show ?case using keys_ok_apply [OF Cons.prems, of ords x] by (simp add: case_prod_beta)
qed simp

lemma NewModel_keys: "keys_ok NewModel"
  by (simp add: keys_ok_def NewModel_def)

lemma remove_ptr_set:
  assumes "distinct (map fst xs)" "p \<in> set xs"
  shows "set (remove_ptr (fst p) xs) = set xs - {p} \<and> distinct (map fst (remove_ptr (fst p) xs))"
  using assms by (induction xs) (auto simp: rev_image_eqI)

lemma ran_delete_key:
  assumes "m k = Some p" "\<forall>n q. m n = Some q \<longrightarrow> f q = n"
  shows "ran (m(k := None)) = ran m - {p}"
  using assms by (auto simp: ran_def) (metis option.inject)

lemma services_update [simp]:
  "GetNetworkServiceEndpoints (i\<lparr>networkServices := AList.update s es (networkServices i)\<rparr>) =
     (GetNetworkServiceEndpoints i)(s := es)"
  "GetNetworkServiceEndpoints (i\<lparr>networkServices := AList.delete s (networkServices i)\<rparr>) =
     (GetNetworkServiceEndpoints i)(s := [])"
  by (auto simp: GetNetworkServiceEndpoints_def fun_eq_iff)

lemma services_cong:
  "networkServices i = networkServices j \<Longrightarrow> GetNetworkServiceEndpoints i = GetNetworkServiceEndpoints j"
  by (simp add: GetNetworkServiceEndpoints_def fun_eq_iff)

lemma AddEndpoint_services:
  "GetNetworkServiceEndpoints (fst (AddEndpoint i p)) =
     (GetNetworkServiceEndpoints i)(ptr_service p := GetNetworkServiceEndpoints i (ptr_service p) @ [p])"
  by (auto simp: AddEndpoint_def Let_def GetNetworkServiceEndpoints_def fun_eq_iff split: option.split)

lemma DeleteEndpoint_services:
  assumes "map_of (endpoints i) n = Some p"
    and "length (GetNetworkServiceEndpoints i (ptr_service p)) > 1 \<or>
      GetNetworkServiceEndpoints i (ptr_service p) = [p]"
  shows "GetNetworkServiceEndpoints (fst (fst (DeleteEndpoint i n))) =
     (GetNetworkServiceEndpoints i)
       (ptr_service p := remove_ptr (fst p) (GetNetworkServiceEndpoints i (ptr_service p)))"
  using assms by (auto simp: DeleteEndpoint_def Let_def GetNetworkServiceEndpoints_def fun_eq_iff)

lemma index_ok_add:
  assumes "index_ok i" "map_of (endpoints i) (ptr_name p) = None" "fst p \<notin> fst ` ran (map_of (endpoints i))"
  shows "index_ok (fst (AddEndpoint i p))"
proof -
  have r: "ran (map_of (endpoints (fst (AddEndpoint i p)))) = insert p (ran (map_of (endpoints i)))"
    using assms(2) by (simp add: AddEndpoint_def Let_def ran_map_upd)
  show ?thesis
    using assms(1,3) unfolding index_ok_def r AddEndpoint_services by (auto simp: inj_on_insert)
qed

lemma index_ok_delete:
  assumes "index_ok i" "keys_ok i"
  shows "index_ok (fst (fst (DeleteEndpoint i n)))"
proof (cases "map_of (endpoints i) n")
  case None
  then show ?thesis using assms(1) by (simp add: DeleteEndpoint_def)
next
  case (Some p)
  let ?es = "GetNetworkServiceEndpoints i (ptr_service p)"
  have p: "p \<in> set ?es" "distinct (map fst ?es)"
    using assms(1) Some by (auto simp: index_ok_def ranI)
  then have one: "length ?es > 1 \<or> ?es = [p]"
    by (cases ?es; cases "tl ?es") auto
  have r: "ran (map_of (endpoints (fst (fst (DeleteEndpoint i n))))) = ran (map_of (endpoints i)) - {p}"
    using Some assms(2) ran_delete_key [of "map_of (endpoints i)" n p ptr_name]
    by (simp add: DeleteEndpoint_def Let_def keys_ok_def)
  show ?thesis
    using assms(1) remove_ptr_set [OF p(2,1)]
    unfolding index_ok_def r DeleteEndpoint_services [OF Some one] by (auto simp: inj_on_diff)
qed

lemma index_ok_other:
  assumes "index_ok i" "endpoints j = endpoints i" "networkServices j = networkServices i"
  shows "index_ok j"
  using assms services_cong [OF assms(3)] by (simp add: index_ok_def)

lemma index_ok_apply:
  assumes "index_ok i" "keys_ok i" "adds_fresh ords i (x # ops)"
  shows "index_ok (fst (apply_op ords i x))"
proof (cases x)
  case (Op_AddEndpoint p)
  then have "map_of (endpoints i) (ptr_name p) = None" "fst p \<notin> fst ` ran (map_of (endpoints i))"
    using assms(3) by (simp, fastforce simp: list_all_iff ran_def dest: map_of_SomeD)
  then show ?thesis using index_ok_add assms(1) Op_AddEndpoint by simp
next
  case (Op_DeleteEndpoint n)
  then show ?thesis using index_ok_delete assms by simp
qed (auto intro!: index_ok_other [OF assms(1)] simp: op_defs Let_def split: option.splits)

lemma index_ok_run:
  assumes "index_ok i" "keys_ok i" "adds_fresh ords i ops"
  shows "index_ok (fst (run_ops ords i ops))"
  using assms
proof (induction ops arbitrary: i)
  case (Cons x ops)
  have "index_ok (fst (apply_op ords i x))" by (rule index_ok_apply [OF Cons.prems])
  then show ?case
    using Cons.IH keys_ok_apply [OF Cons.prems(2), of ords x] Cons.prems(3) by (simp add: case_prod_beta)
qed simp

lemma NewModel_index: "index_ok NewModel"
  by (simp add: index_ok_def NewModel_def GetNetworkServiceEndpoints_def)

lemma first_named_map_of:
  assumes "\<forall>(n, d) \<in> set xs. RegisteredName d = n"
  shows "first_named name xs = map_of xs name"
  using assms by (induction xs) auto

lemma GetDataplane_map_of:
  assumes "keys_ok i" "is_order ord"
  shows "GetDataplane ord i name = map_of (dataplanes i) name"
proof -
  have "distinct (map fst (ord (dataplanes i)))"
    using assms by (metis gomap_ok_def is_order_mset keys_ok_def mset_eq_imp_distinct_iff mset_map)
  then have "map_of (ord (dataplanes i)) = map_of (dataplanes i)"
    using assms by (simp add: map_of_inject_set keys_ok_def gomap_ok_def is_order_set)
  moreover have "\<forall>(n, d) \<in> set (ord (dataplanes i)). RegisteredName d = n"
    using assms by (auto simp: keys_ok_def is_order_set gomap_map_of_iff [symmetric])
  ultimately show ?thesis by (simp add: GetDataplane_def first_named_map_of)
qed

lemma digit_char_inj: "m < 16 \<Longrightarrow> n < 16 \<Longrightarrow> digit_char m = digit_char n \<Longrightarrow> m = n"
proof -
  assume a: "m < 16" "n < 16" "digit_char m = digit_char n"
  have d: "(of_char (digit_char k) :: nat) = (if k < 10 then 48 + k else 87 + k)" if "k < 16" for k
    using that by (simp add: digit_char_def)
  have "(of_char (digit_char m) :: nat) = of_char (digit_char n)" by (simp only: a(3))
  then show "m = n" unfolding d [OF a(1)] d [OF a(2)] using a(1,2) by (simp split: if_splits)
qed

lemma FormatUint_inj:
  assumes "FormatUint 16 m = FormatUint 16 n"
  shows "m = n"
  using assms
proof (induction m arbitrary: n rule: less_induct)
  case (less m)
  have big: "16 \<le> k \<Longrightarrow> FormatUint 16 k = FormatUint 16 (k div 16) @ [digit_char (k mod 16)]" for k
    by (simp add: FormatUint_step)
  consider "m < 16" "n < 16" | "16 \<le> m" "16 \<le> n" | "m < 16" "16 \<le> n" | "16 \<le> m" "n < 16" by linarith
  then show ?case
  proof cases
    case 1
    then show ?thesis using less.prems digit_char_inj [of m n] by (simp add: FormatUint_small)
  next
    case 2
    then have "FormatUint 16 (m div 16) = FormatUint 16 (n div 16)" "digit_char (m mod 16) = digit_char (n mod 16)"
      using less.prems big [of m] big [of n] by simp_all
    then have "m div 16 = n div 16" "m mod 16 = n mod 16"
      using less.IH [of "m div 16" "n div 16"] 2 digit_char_inj [of "m mod 16" "n mod 16"] by simp_all
    then show ?thesis by (metis div_mult_mod_eq)
  next
    case 3
    then show ?thesis using less.prems big [of n]
      by (cases "FormatUint 16 (n div 16)") (auto simp: FormatUint_small)
  next
    case 4
    then show ?thesis using less.prems big [of m]
      by (cases "FormatUint 16 (m div 16)") (auto simp: FormatUint_small)
  qed
qed

lemma connection_ids_eq:
  "connection_ids n i = map (\<lambda>k. FormatUint 16 (unat (lastConnnectionId i + of_nat (Suc k)))) [0..<n]"
proof (induction n arbitrary: i)
  case (Suc n)
  then show ?case by (simp add: NextConnectionId_def Let_def map_upt_Suc add.assoc del: upt_Suc)
qed simp



text \<open>
  C10: As long as endpoints are registered under new names, the index by network
  service is exact after any operations: a service lists every registered
  endpoint of that service exactly once and nothing else.
\<close>

theorem service_index_exact:
  assumes "adds_fresh ords NewModel ops" "i = fst (run_ops ords NewModel ops)"
  shows "distinct (GetNetworkServiceEndpoints i s) \<and>
    set (GetNetworkServiceEndpoints i s) = {p. \<exists>n. map_of (endpoints i) n = Some p \<and> ptr_service p = s}"
  using index_ok_run [OF NewModel_index NewModel_keys assms(1)] assms(2)
  by (auto simp: index_ok_def ran_def distinct_map)

theorem service_index_exact_witness:
  "\<exists>p. GetNetworkServiceEndpoints (fst (run_ops (id, id) NewModel [Op_AddEndpoint p])) ''icmp'' \<noteq> []"
proof -
  define r where "r = \<lparr>Reg_NetworkService = Some \<lparr>NS_Name = ''icmp'', NS_Payload = ''IP'', NS_Matches = []\<rparr>,
    Reg_NetworkServiceManager = None, Reg_NetworkserviceEndpoint = None\<rparr>"
  let ?i = "fst (run_ops (id, id) NewModel [Op_AddEndpoint (0, r)])"
  have f: "adds_fresh (id, id) NewModel [Op_AddEndpoint (0, r)]" by (simp add: NewModel_def)
  have "map_of (endpoints ?i) (ptr_name (0, r)) = Some (0, r)"
    by (simp add: AddEndpoint_def NewModel_def Let_def)
  moreover have "ptr_service (0, r) = ''icmp''" by (simp add: ptr_service_def NS_GetName_def r_def)
  ultimately have "(0, r) \<in> set (GetNetworkServiceEndpoints ?i ''icmp'')"
    unfolding conjunct2 [OF service_index_exact [OF f refl, of "''icmp''"]] by (simp only: mem_Collect_eq) blast
  then have "GetNetworkServiceEndpoints ?i ''icmp'' \<noteq> []" by (metis empty_iff list.set(1))
  then show ?thesis ..
qed

text \<open>
  \<open>GetDataplane\<close> finds the dataplane registered under a name, for every
  iteration order of the map, in every state the model can reach.
\<close>

theorem get_dataplane_by_name:
  assumes "is_order ord" "i = fst (run_ops ords NewModel ops)"
  shows "GetDataplane ord i name = map_of (dataplanes i) name"
  using GetDataplane_map_of [OF keys_ok_run [OF NewModel_keys] assms(1)] assms(2) by simp

theorem get_dataplane_by_name_witness:
  "GetDataplane rev (fst (run_ops (id, id) NewModel [Op_AddDataplane \<lparr>RegisteredName = ''vpp'', SocketLocation = '''',
     LocalMechanisms = [], RemoteMechanisms = []\<rparr>])) ''vpp'' \<noteq> None"
  by (subst get_dataplane_by_name [OF is_order_rev refl]) (simp add: AddDataplane_def NewModel_def)

text \<open>
  Connection ids are fresh: up to \<open>2 ^ 64\<close> consecutive calls of
  \<open>ConnectionId\<close> return pairwise different strings.
\<close>

theorem connection_ids_fresh:
  assumes "n \<le> 2 ^ 64"
  shows "distinct (connection_ids n i)"
proof -
  have "inj_on (\<lambda>k. FormatUint 16 (unat (lastConnnectionId i + of_nat (Suc k)))) {0..<n}"
  proof (rule inj_onI)
    fix a b assume ab: "a \<in> {0..<n}" "b \<in> {0..<n}"
      and "FormatUint 16 (unat (lastConnnectionId i + of_nat (Suc a))) =
        FormatUint 16 (unat (lastConnnectionId i + of_nat (Suc b)))"
    then have "lastConnnectionId i + of_nat (Suc a) = lastConnnectionId i + of_nat (Suc b)"
      by (metis FormatUint_inj word_unat_eq_iff)
    then have "(of_nat a :: 64 word) = of_nat b" by simp
    then have "a mod 2 ^ 64 = b mod 2 ^ 64" by (simp add: word_of_nat_eq_iff take_bit_nat_def)
    moreover have "a < 2 ^ 64" "b < 2 ^ 64" using ab assms by (simp_all only: atLeastLessThan_iff) linarith+
    ultimately show "a = b" by (simp only: mod_less)
  qed
  then show ?thesis by (simp only: connection_ids_eq distinct_map distinct_upt set_upt simp_thms)
qed

theorem connection_ids_fresh_witness: "distinct (connection_ids 3 NewModel)"
  by (rule connection_ids_fresh) simp

text \<open>
  Registering a second endpoint object under a name in use leaves a stale entry:
  deleting the name removes the second object only, and the service still lists
  the first although no endpoint is registered.
\<close>

lemma reregistered_endpoint_stale:
  assumes "ptr_name p = ptr_name q" "ptr_service p = ptr_service q" "fst p \<noteq> fst q"
  shows "GetNetworkServiceEndpoints (fst (run_ops ords NewModel
      [Op_AddEndpoint p, Op_AddEndpoint q, Op_DeleteEndpoint (ptr_name p)])) (ptr_service p) = [p] \<and>
    endpoints (fst (run_ops ords NewModel
      [Op_AddEndpoint p, Op_AddEndpoint q, Op_DeleteEndpoint (ptr_name p)])) = []"
  using assms
  by (simp add: AddEndpoint_def DeleteEndpoint_def NewModel_def Let_def GetNetworkServiceEndpoints_def
      case_prod_beta)

end
