(* ===== verification/Vni.thy ===== *)
theory Vni
  imports GoNet
begin

text \<open>
  The VNI allocator of \<open>controlplane/pkg/vni/vni.go\<close>: per remote address a
  64-bit counter that advances by two, started odd or even by the order of the
  two addresses, so that the two ends of a VXLAN tunnel pick different numbers.
\<close>

record vniAllocator =
  lastVni :: "(string, 64 word) gomap"

definition NewVniAllocator :: vniAllocator where
  "NewVniAllocator = \<lparr>lastVni = []\<rparr>"

text \<open>The loop indexes the second address by positions of the first.\<close>

fun compareIps :: "net_IP \<Rightarrow> net_IP \<Rightarrow> int result" where
  "compareIps [] _ = Inr 0"
| "compareIps (v # ip1) [] = Inl (Panic ''index out of range'')"
| "compareIps (v # ip1) (w # ip2) =
     (if v < w then Inr (-1) else if v > w then Inr 1 else compareIps ip1 ip2)"

definition Vni :: "vniAllocator \<Rightarrow> string \<Rightarrow> string \<Rightarrow> 64 word result \<times> vniAllocator" where
  "Vni a local_ip remote_ip =
     (let lip = ParseIP local_ip; rip = ParseIP remote_ip;
          last = (case map_of (lastVni a) remote_ip of None \<Rightarrow> 0 | Some v \<Rightarrow> v);
          start = (if last = 0 then
                     (case compareIps lip rip of
                        Inl e \<Rightarrow> Inl e
                      | Inr c \<Rightarrow> Inr (if c < 0 then 1 else last))
                   else Inr last)
      in case start of
           Inl e \<Rightarrow> (Inl e, a)
         | Inr v \<Rightarrow> (Inr (v + 2), a\<lparr>lastVni := AList.update remote_ip (v + 2) (lastVni a)\<rparr>))"

text \<open>
  The allocations one node with address \<open>local_ip\<close> makes for a sequence of
  remote addresses, as pairs of remote address and number.
\<close>

fun allocations :: "vniAllocator \<Rightarrow> string \<Rightarrow> string list \<Rightarrow> (string \<times> 64 word) list" where
  "allocations a local_ip [] = []"
| "allocations a local_ip (r # rs) =
     (case Vni a local_ip r of
        (Inl _, a') \<Rightarrow> allocations a' local_ip rs
      | (Inr v, a') \<Rightarrow> (r, v) # allocations a' local_ip rs)"

definition vni_inv :: "string \<Rightarrow> vniAllocator \<Rightarrow> bool" where
  "vni_inv local_ip a \<longleftrightarrow>
     (\<forall>r v. map_of (lastVni a) r = Some v \<longrightarrow>
        (\<exists>c. compareIps (ParseIP local_ip) (ParseIP r) = Inr c \<and> (odd v \<longleftrightarrow> c < 0)))"

lemma even_plus_2_word [simp]: "even (v + 2 :: 64 word) \<longleftrightarrow> even v"
  by simp

lemma Vni_parity:
  assumes "vni_inv local_ip a" "Vni a local_ip r = (Inr v, a')"
  shows "\<exists>c. compareIps (ParseIP local_ip) (ParseIP r) = Inr c \<and> (odd v \<longleftrightarrow> c < 0)"
proof (cases "map_of (lastVni a) r")
  case None
  then show ?thesis using assms(2) by (auto simp: Vni_def split: sum.splits if_splits)
next
  case (Some w)
  then obtain c where "compareIps (ParseIP local_ip) (ParseIP r) = Inr c" "odd w \<longleftrightarrow> c < 0"
    using assms(1) by (auto simp: vni_inv_def)
  then show ?thesis using assms(2) Some by (auto simp: Vni_def split: if_splits)
qed

lemma Vni_state:
  assumes "Vni a local_ip r = (res, a')"
  shows "case res of Inl _ \<Rightarrow> a' = a | Inr v \<Rightarrow> lastVni a' = AList.update r v (lastVni a)"
  using assms by (auto simp: Vni_def Let_def split: sum.splits)

lemma Vni_inv:
  assumes "vni_inv local_ip a" "Vni a local_ip r = (res, a')"
  shows "vni_inv local_ip a'"
proof (cases res)
  case (Inl e)
  then show ?thesis using assms Vni_state [OF assms(2)] by simp
next
  case (Inr v)
  then show ?thesis
    using assms(1) Vni_parity [OF assms(1) assms(2) [unfolded Inr]] Vni_state [OF assms(2)]
    by (simp add: vni_inv_def)
qed

lemma allocations_parity:
  assumes "vni_inv local_ip a" "(r, v) \<in> set (allocations a local_ip rs)"
  shows "\<exists>c. compareIps (ParseIP local_ip) (ParseIP r) = Inr c \<and> (odd v \<longleftrightarrow> c < 0)"
  using assms
proof (induction rs arbitrary: a)
  case (Cons q rs)
  obtain res a' where V: "Vni a local_ip q = (res, a')" by (cases "Vni a local_ip q") auto
  show ?case
    using Cons Vni_inv [OF Cons.prems(1) V] V
    by (cases res) (auto dest: Vni_parity [OF Cons.prems(1)])
qed simp

lemma compareIps_append: "compareIps (r @ p) (r @ q) = compareIps p q"
  by (induction r) auto

lemma compareIps_antisym:
  assumes "length p = length q" "p \<noteq> q" "compareIps p q = Inr c" "compareIps q p = Inr d"
  shows "c < 0 \<longleftrightarrow> \<not> d < 0"
  using assms by (induction p q rule: compareIps.induct) (auto split: if_splits)

lemma NewVniAllocator_inv: "vni_inv local_ip NewVniAllocator"
  by (simp add: vni_inv_def NewVniAllocator_def)

text \<open>
  C8: Two nodes never choose the same VNI for the tunnel between them: whatever
  other tunnels each of them allocates in between, and even when a counter
  wraps around, the numbers one node takes for the other's address are odd and
  those of the other node even.
\<close>

theorem vni_no_collision:
  assumes "length (ParseIP ipa) = length (ParseIP ipb)" "ParseIP ipa \<noteq> ParseIP ipb"
    and "(ipb, v) \<in> set (allocations NewVniAllocator ipa rs)"
    and "(ipa, w) \<in> set (allocations NewVniAllocator ipb qs)"
  shows "v \<noteq> w"
  using allocations_parity [OF NewVniAllocator_inv assms(3)]
    allocations_parity [OF NewVniAllocator_inv assms(4)]
    compareIps_antisym [OF assms(1,2)] by blast

lemma ex_ip1: "ParseIP ''10.0.0.1'' = v4InV6Prefix @ [10, 0, 0, 1]"
  using ParseIP_v4_String [of "[10, 0, 0, 1]"] by (simp add: go_simps)

lemma ex_ip2: "ParseIP ''10.0.0.2'' = v4InV6Prefix @ [10, 0, 0, 2]"
  using ParseIP_v4_String [of "[10, 0, 0, 2]"] by (simp add: go_simps)

lemma ex_allocations:
  "allocations NewVniAllocator ''10.0.0.1'' [''10.0.0.2''] = [(''10.0.0.2'', 3)]"
  "allocations NewVniAllocator ''10.0.0.2'' [''10.0.0.1''] = [(''10.0.0.1'', 2)]"
  by (simp_all add: NewVniAllocator_def Vni_def ex_ip1 ex_ip2 compareIps_append)

theorem vni_no_collision_witness:
  "\<exists>v w. (''10.0.0.2'', v) \<in> set (allocations NewVniAllocator ''10.0.0.1'' [''10.0.0.2'']) \<and>
     (''10.0.0.1'', w) \<in> set (allocations NewVniAllocator ''10.0.0.2'' [''10.0.0.1'']) \<and> v \<noteq> w"
  using vni_no_collision [of "''10.0.0.1''" "''10.0.0.2''" 3 "[''10.0.0.2'']" 2 "[''10.0.0.1'']"]
  by (simp only: ex_allocations ex_ip1 ex_ip2) simp

end
