(* ===== verification/GoMonad.thy ===== *)
theory GoMonad
  imports Prelude
begin

text \<open>
  Go functions with effects: a computation takes the state of the process and
  ends with a result and the new state. An error value the function returns and
  a panic are both \<open>Inl\<close>; \<open>None\<close> means that the fuel given to a loop ran out.
\<close>

type_synonym ('s, 'a) go = "'s \<Rightarrow> ('a result \<times> 's) option"

definition ret :: "'a \<Rightarrow> ('s, 'a) go" where
  "ret x = (\<lambda>s. Some (Inr x, s))"

definition throw :: "error \<Rightarrow> ('s, 'a) go" where
  "throw e = (\<lambda>s. Some (Inl e, s))"

text \<open>Sequencing: an error or a panic ends the function.\<close>

definition bnd :: "('s, 'a) go \<Rightarrow> ('a \<Rightarrow> ('s, 'b) go) \<Rightarrow> ('s, 'b) go" where
  "bnd m f = (\<lambda>s. case m s of
     None \<Rightarrow> None
   | Some (Inl e, s') \<Rightarrow> Some (Inl e, s')
   | Some (Inr x, s') \<Rightarrow> f x s')"

definition get_state :: "('s, 's) go" where
  "get_state = (\<lambda>s. Some (Inr s, s))"

definition modify :: "('s \<Rightarrow> 's) \<Rightarrow> ('s, unit) go" where
  "modify f = (\<lambda>s. Some (Inr (), f s))"

text \<open>
  A call whose error the caller looks at itself (\<open>if err != nil\<close> with a body
  other than \<open>return\<close>): errors become values, panics pass.
\<close>

definition attempt :: "('s, 'a) go \<Rightarrow> ('s, string + 'a) go" where
  "attempt m = (\<lambda>s. case m s of
     None \<Rightarrow> None
   | Some (Inl (Errorf e), s') \<Rightarrow> Some (Inr (Inl e), s')
   | Some (Inl (Panic p), s') \<Rightarrow> Some (Inl (Panic p), s')
   | Some (Inr x, s') \<Rightarrow> Some (Inr (Inr x), s'))"

text \<open>A deferred call that only changes the state: it runs on every way out.\<close>

definition deferring :: "('s, 'a) go \<Rightarrow> ('s \<Rightarrow> 's) \<Rightarrow> ('s, 'a) go" where
  "deferring m d = (\<lambda>s. case m s of None \<Rightarrow> None | Some (r, s') \<Rightarrow> Some (r, d s'))"

definition lift_result :: "'a result \<Rightarrow> ('s, 'a) go" where
  "lift_result r = (\<lambda>s. Some (r, s))"

definition return_err :: "error option \<Rightarrow> ('s, unit) go" where
  "return_err e = (case e of None \<Rightarrow> ret () | Some x \<Rightarrow> throw x)"

subsection \<open>Running computations\<close>

named_theorems go_run \<open>evaluation rules for computations\<close>

lemma run_ret [go_run]: "ret x s = Some (Inr x, s)"
  by (simp add: ret_def)

lemma run_throw [go_run]: "throw e s = Some (Inl e, s)"
  by (simp add: throw_def)

lemma run_get [go_run]: "bnd get_state f s = f s s"
  by (simp add: bnd_def get_state_def)

lemma run_get_state [go_run]: "get_state s = Some (Inr s, s)"
  by (simp add: get_state_def)

lemma run_modify [go_run]: "bnd (modify g) f s = f () (g s)"
  by (simp add: bnd_def modify_def)

lemma run_lift [go_run]: "lift_result r s = Some (r, s)"
  by (simp add: lift_result_def)

lemma bnd_ret [go_run]: "bnd (ret x) f s = f x s"
  by (simp add: bnd_def ret_def)

lemma bnd_throw [go_run]: "bnd (throw e) f s = Some (Inl e, s)"
  by (simp add: bnd_def throw_def)

lemma bnd_Inr: "m s = Some (Inr x, s') \<Longrightarrow> bnd m f s = f x s'"
  by (simp add: bnd_def)

lemma bnd_Inl: "m s = Some (Inl e, s') \<Longrightarrow> bnd m f s = Some (Inl e, s')"
  by (simp add: bnd_def)

lemma bnd_assoc: "bnd (bnd m f) g = bnd m (\<lambda>x. bnd (f x) g)"
  by (auto simp: bnd_def fun_eq_iff split: option.split sum.split)

lemma bnd_ret_left: "bnd (ret x) f = f x"
  by (simp add: bnd_def ret_def)

lemma bnd_SomeE:
  assumes "bnd m f s = Some (r, s')"
  obtains (error) e where "m s = Some (Inl e, s')" "r = Inl e"
    | (ok) x t where "m s = Some (Inr x, t)" "f x t = Some (r, s')"
  using assms by (auto simp: bnd_def split: option.splits sum.splits)

subsection \<open>Relations kept by computations\<close>

text \<open>
  \<open>steps R m\<close>: whenever \<open>m\<close> ends, however it ends, its final state is related to
  its first by \<open>R\<close>. With a reflexive and transitive \<open>R\<close> this composes, so a
  property of a whole function follows from that of its calls.
\<close>

definition steps :: "('s \<Rightarrow> 's \<Rightarrow> bool) \<Rightarrow> ('s, 'a) go \<Rightarrow> bool" where
  "steps R m \<longleftrightarrow> (\<forall>s r s'. m s = Some (r, s') \<longrightarrow> R s s')"

lemma stepsD: "steps R m \<Longrightarrow> m s = Some (r, s') \<Longrightarrow> R s s'"
  by (simp add: steps_def)

locale frame =
  fixes R :: "'s \<Rightarrow> 's \<Rightarrow> bool"
  assumes refl_R: "R s s"
    and trans_R: "R s t \<Longrightarrow> R t u \<Longrightarrow> R s u"
begin

lemma steps_ret: "steps R (ret x)"
  by (simp add: steps_def ret_def refl_R)

lemma steps_throw: "steps R (throw e)"
  by (simp add: steps_def throw_def refl_R)

lemma steps_lift: "steps R (lift_result r)"
  by (simp add: steps_def lift_result_def refl_R)

lemma steps_get: "steps R get_state"
  by (simp add: steps_def get_state_def refl_R)

lemma steps_err: "steps R (return_err e)"
  by (simp add: return_err_def steps_ret steps_throw split: option.split)

lemma steps_bnd:
  assumes "steps R m" "\<And>x. steps R (f x)"
  shows "steps R (bnd m f)"
  unfolding steps_def
proof (intro allI impI)
  fix s r s' assume "bnd m f s = Some (r, s')"
  then show "R s s'"
    by (cases rule: bnd_SomeE) (use assms trans_R in \<open>unfold steps_def, blast+\<close>)
qed

lemma steps_modify: "(\<And>s. R s (f s)) \<Longrightarrow> steps R (modify f)"
  by (simp add: steps_def modify_def)

lemma steps_attempt: "steps R m \<Longrightarrow> steps R (attempt m)"
  unfolding steps_def attempt_def
  by (auto split: option.splits sum.splits error.splits)

lemma steps_deferring: "steps R m \<Longrightarrow> (\<And>s. R s (d s)) \<Longrightarrow> steps R (deferring m d)"
  unfolding steps_def deferring_def by (auto split: option.splits) (blast intro: trans_R)

lemma steps_let: "(\<And>x. steps R (f x)) \<Longrightarrow> steps R (Let v f)"
  by simp

lemmas steps_basic = steps_ret steps_throw steps_lift steps_get steps_err

end

end
