(* ===== verification/Manager.thy ===== *)
theory Manager
  imports Model Vni GoMonad
begin

text \<open>
  The network service manager, \<open>controlplane/pkg/nsm\<close>: it serves requests of
  local clients and of remote managers, selects and asks an endpoint, programs
  the dataplane, closes connections and heals them.

  The parties outside the process (endpoints, remote managers, the registry and
  the dataplane) are the record \<open>env\<close>: each of its functions gives the answer to
  a call, depending on the calls made before, which the state keeps in \<open>trace\<close>.
  A call to them ends with an answer or an error message, as gRPC calls do.
  Loops that may not end take fuel; a call that blocks forever has no result,
  like a loop that runs out of fuel.
\<close>

subsection \<open>State and environment\<close>

datatype call =
    C_DataplaneConnection Dataplane
  | C_DataplaneRequest Dataplane "CrossConnect option"
  | C_DataplaneClose Dataplane "CrossConnect option"
  | C_EndpointConnection "NSERegistration option"
  | C_RemoteClient "NetworkServiceManager option"
  | C_NSERequest "NSERegistration option" LocalRequest
  | C_NSMRequest "NetworkServiceManager option" RemoteRequest
  | C_NSEClose "NSERegistration option" LocalConnection
  | C_NSMClose "NetworkServiceManager option" RemoteConnection
  | C_Discovery
  | C_FindNetworkService string
  | C_WaitForDataplane
  | C_Notify listener model_event

record env =
  e_DataplaneConnection :: "call list \<Rightarrow> Dataplane \<Rightarrow> string option"
  e_DataplaneRequest :: "call list \<Rightarrow> Dataplane \<Rightarrow> CrossConnect option \<Rightarrow> string + CrossConnect"
  e_DataplaneClose :: "call list \<Rightarrow> Dataplane \<Rightarrow> CrossConnect option \<Rightarrow> string option"
  e_EndpointSocket :: "call list \<Rightarrow> string \<Rightarrow> string option"
  e_PortAvailable :: "call list \<Rightarrow> string \<Rightarrow> bool"
  e_RemoteClient :: "call list \<Rightarrow> NetworkServiceManager option \<Rightarrow> string option"
  e_NSERequest :: "call list \<Rightarrow> NSERegistration option \<Rightarrow> LocalRequest \<Rightarrow> string + LocalConnection"
  e_NSMRequest :: "call list \<Rightarrow> NetworkServiceManager option \<Rightarrow> RemoteRequest \<Rightarrow> string + RemoteConnection"
  e_NSEClose :: "call list \<Rightarrow> NSERegistration option \<Rightarrow> LocalConnection \<Rightarrow> string option"
  e_NSMClose :: "call list \<Rightarrow> NetworkServiceManager option \<Rightarrow> RemoteConnection \<Rightarrow> string option"
  e_Discovery :: "call list \<Rightarrow> string option"
  e_FindNetworkService :: "call list \<Rightarrow> string \<Rightarrow> string + FindNetworkServiceResponse"
  e_dataplane_order :: "call list \<Rightarrow> (string \<times> Dataplane) list \<Rightarrow> (string \<times> Dataplane) list"
  e_NewDataplane :: "call list \<Rightarrow> Dataplane option"

text \<open>
  The manager's process: the model, the VNI allocator, the workspace of each
  endpoint (by endpoint name), the excluded prefixes, the open gRPC connections
  and the calls made so far.
\<close>

record manager =
  mdl :: impl
  allocator :: vniAllocator
  workspaceByEndpoint :: "(string, string) gomap"
  excluded_prefixes :: "string list"
  next_ref :: cc_ref
  open_conns :: "nat list"
  next_conn :: nat
  trace :: "call list"

type_synonym 'a mgo = "(manager, 'a) go"

definition call_out :: "call \<Rightarrow> unit mgo" where
  "call_out c = modify (\<lambda>s. s\<lparr>trace := trace s @ [c]\<rparr>)"

text \<open>An answer of the environment as a result of the call.\<close>

definition answer :: "string + 'a \<Rightarrow> 'a mgo" where
  "answer r = (case r of Inl e \<Rightarrow> throw (Errorf e) | Inr x \<Rightarrow> ret x)"

definition answer_err :: "string option \<Rightarrow> unit mgo" where
  "answer_err r = (case r of None \<Rightarrow> ret () | Some e \<Rightarrow> throw (Errorf e))"

definition open_conn :: "nat mgo" where
  "open_conn = bnd get_state (\<lambda>s.
     bnd (modify (\<lambda>s. s\<lparr>open_conns := next_conn s # open_conns s, next_conn := next_conn s + 1\<rparr>)) (\<lambda>_.
     ret (next_conn s)))"

text \<open>Closing a connection that is already closed changes nothing.\<close>

definition close_conn :: "nat \<Rightarrow> manager \<Rightarrow> manager" where
  "close_conn c s = s\<lparr>open_conns := removeAll c (open_conns s)\<rparr>"

text \<open>The contents of a client connection, and a change to one.\<close>

definition deref :: "cc_ref \<Rightarrow> manager \<Rightarrow> ClientConnection" where
  "deref r s = store (mdl s) r"

definition assign :: "cc_ref \<Rightarrow> (ClientConnection \<Rightarrow> ClientConnection) \<Rightarrow> unit mgo" where
  "assign r f = modify (\<lambda>s. s\<lparr>mdl := (mdl s)\<lparr>store := (store (mdl s))(r := f (store (mdl s) r))\<rparr>\<rparr>)"

definition new_ClientConnection :: "ClientConnection \<Rightarrow> cc_ref mgo" where
  "new_ClientConnection c = bnd get_state (\<lambda>s.
     bnd (modify (\<lambda>s. s\<lparr>mdl := (mdl s)\<lparr>store := (store (mdl s))(next_ref s := c)\<rparr>,
       next_ref := next_ref s + 1\<rparr>)) (\<lambda>_.
     ret (next_ref s)))"

text \<open>An operation of the model, with its calls to listeners.\<close>

definition model_op :: "(impl \<Rightarrow> impl \<times> calls) \<Rightarrow> unit mgo" where
  "model_op f = modify (\<lambda>s. case f (mdl s) of
     (i, cs) \<Rightarrow> s\<lparr>mdl := i, trace := trace s @ map (\<lambda>(l, ev). C_Notify l ev) cs\<rparr>)"

definition createConnectionId :: "string mgo" where
  "createConnectionId = bnd get_state (\<lambda>s.
     bnd (modify (\<lambda>s. s\<lparr>mdl := snd (NextConnectionId (mdl s))\<rparr>)) (\<lambda>_.
     ret (fst (NextConnectionId (mdl s)))))"

subsection \<open>The service registry\<close>

definition DataplaneConnection :: "env \<Rightarrow> Dataplane option \<Rightarrow> nat mgo" where
  "DataplaneConnection env dataplane =
     (case dataplane of
        None \<Rightarrow> throw (Panic ''nil dereference'')
      | Some dp \<Rightarrow> bnd get_state (\<lambda>s.
          bnd (call_out (C_DataplaneConnection dp)) (\<lambda>_.
          bnd (answer_err (e_DataplaneConnection env (trace s) dp)) (\<lambda>_.
          open_conn))))"

definition dataplaneClient_Request :: "env \<Rightarrow> Dataplane \<Rightarrow> CrossConnect option \<Rightarrow> CrossConnect mgo" where
  "dataplaneClient_Request env dp xcon = bnd get_state (\<lambda>s.
     bnd (call_out (C_DataplaneRequest dp xcon)) (\<lambda>_.
     answer (e_DataplaneRequest env (trace s) dp xcon)))"

definition dataplaneClient_Close :: "env \<Rightarrow> Dataplane \<Rightarrow> CrossConnect option \<Rightarrow> unit mgo" where
  "dataplaneClient_Close env dp xcon = bnd get_state (\<lambda>s.
     bnd (call_out (C_DataplaneClose dp xcon)) (\<lambda>_.
     answer_err (e_DataplaneClose env (trace s) dp xcon)))"

definition WorkspaceByEndpoint :: "manager \<Rightarrow> NetworkServiceEndpoint option \<Rightarrow> string option" where
  "WorkspaceByEndpoint s endpoint = map_of (workspaceByEndpoint s) (NSE_GetEndpointName endpoint)"

definition EndpointConnection :: "env \<Rightarrow> NSERegistration option \<Rightarrow> nat mgo" where
  "EndpointConnection env endpoint = bnd get_state (\<lambda>s.
     bnd (call_out (C_EndpointConnection endpoint)) (\<lambda>_.
     case WorkspaceByEndpoint s (Reg_GetNetworkserviceEndpoint endpoint) of
       None \<Rightarrow> throw (Errorf ''cannot find workspace for endpoint %v'')
     | Some w \<Rightarrow>
         bnd (answer_err (e_EndpointSocket env (trace s) w)) (\<lambda>_.
         open_conn)))"

text \<open>
  \<open>RemoteNetworkServiceClient\<close> first dials the manager's address until that
  succeeds, with no time limit; dialing the empty address of a nil manager
  never does.
\<close>

definition WaitForPortAvailable :: "env \<Rightarrow> string \<Rightarrow> unit mgo" where
  "WaitForPortAvailable env address = (\<lambda>s.
     if address \<noteq> [] \<and> e_PortAvailable env (trace s) address then Some (Inr (), s) else None)"

definition NSM_GetUrl :: "NetworkServiceManager option \<Rightarrow> string" where
  "NSM_GetUrl m = (case m of None \<Rightarrow> [] | Some x \<Rightarrow> NSM_Url x)"

definition RemoteNetworkServiceClient :: "env \<Rightarrow> NetworkServiceManager option \<Rightarrow> nat mgo" where
  "RemoteNetworkServiceClient env nsm =
     bnd (WaitForPortAvailable env (NSM_GetUrl nsm)) (\<lambda>_.
     bnd get_state (\<lambda>s.
     bnd (call_out (C_RemoteClient nsm)) (\<lambda>_.
     bnd (answer_err (e_RemoteClient env (trace s) nsm)) (\<lambda>_.
     open_conn))))"

text \<open>
  \<open>WaitForDataplaneAvailable\<close> polls the model until it has a dataplane or the
  time is over, and returns no error in either case. A dataplane that registers
  while it waits is the environment's.
\<close>

definition WaitForDataplaneAvailable :: "env \<Rightarrow> unit mgo" where
  "WaitForDataplaneAvailable env = bnd get_state (\<lambda>s.
     bnd (call_out C_WaitForDataplane) (\<lambda>_.
     case e_NewDataplane env (trace s) of
       None \<Rightarrow> ret ()
     | Some dp \<Rightarrow> model_op (\<lambda>i. AddDataplane i dp)))"

subsection \<open>Clients of endpoints and remote managers\<close>

datatype NetworkServiceClient =
    endpointClient "NSERegistration option" nat
  | nsmClient "NetworkServiceManager option" nat

fun Cleanup :: "NetworkServiceClient \<Rightarrow> manager \<Rightarrow> manager" where
  "Cleanup (endpointClient _ c) s = close_conn c s"
| "Cleanup (nsmClient _ c) s = close_conn c s"

fun client_Request :: "env \<Rightarrow> NetworkServiceClient \<Rightarrow> NSMRequest \<Rightarrow> NSMConnection mgo" where
  "client_Request env (endpointClient ep c) (LocalReq r) = bnd get_state (\<lambda>s.
     bnd (call_out (C_NSERequest ep r)) (\<lambda>_.
     bnd (answer (e_NSERequest env (trace s) ep r)) (\<lambda>x. ret (Local x))))"
| "client_Request env (nsmClient m c) (RemoteReq r) = bnd get_state (\<lambda>s.
     bnd (call_out (C_NSMRequest m r)) (\<lambda>_.
     bnd (answer (e_NSMRequest env (trace s) m r)) (\<lambda>x. ret (Remote x))))"
| "client_Request env _ _ = throw (Panic ''interface conversion'')"

fun client_Close :: "env \<Rightarrow> NetworkServiceClient \<Rightarrow> NSMConnection \<Rightarrow> unit mgo" where
  "client_Close env (endpointClient ep c) (Local x) = bnd get_state (\<lambda>s.
     bnd (call_out (C_NSEClose ep x)) (\<lambda>_.
     bnd (modify (close_conn c)) (\<lambda>_.
     answer_err (e_NSEClose env (trace s) ep x))))"
| "client_Close env (nsmClient m c) (Remote x) = bnd get_state (\<lambda>s.
     bnd (call_out (C_NSMClose m x)) (\<lambda>_.
     bnd (modify (close_conn c)) (\<lambda>_.
     answer_err (e_NSMClose env (trace s) m x))))"
| "client_Close env _ _ = throw (Panic ''interface conversion'')"

subsection \<open>Mechanisms\<close>

fun findRemoteMechanism :: "RemoteMechanism list \<Rightarrow> RemoteMechanismType \<Rightarrow> RemoteMechanism option" where
  "findRemoteMechanism [] mechanismType = None"
| "findRemoteMechanism (m # ms) mechanismType =
     (if RM_Type m = mechanismType then Some m else findRemoteMechanism ms mechanismType)"

fun findLocalMechanism :: "LocalMechanism list \<Rightarrow> LocalMechanismType \<Rightarrow> LocalMechanism option" where
  "findLocalMechanism [] mechanismType = None"
| "findLocalMechanism (m # ms) mechanismType =
     (if LM_Type m = mechanismType then Some m else findLocalMechanism ms mechanismType)"

definition map_read :: "(string, string) gomap option \<Rightarrow> string \<Rightarrow> string" where
  "map_read m k = (case m of None \<Rightarrow> [] | Some ps \<Rightarrow> (case map_of ps k of None \<Rightarrow> [] | Some v \<Rightarrow> v))"

definition Vni_call :: "string \<Rightarrow> string \<Rightarrow> 64 word mgo" where
  "Vni_call l r = (\<lambda>s. case Vni (allocator s) l r of (v, a) \<Rightarrow> Some (v, s\<lparr>allocator := a\<rparr>))"

text \<open>
  The chosen preference and the list of preferences after the call: the code
  writes into the parameters of the preference it returns. Writing into a nil
  map panics.
\<close>

fun selectRemoteMechanism ::
    "RemoteMechanism list \<Rightarrow> Dataplane \<Rightarrow> (RemoteMechanism \<times> RemoteMechanism list) mgo" where
  "selectRemoteMechanism [] dp =
     throw (Errorf ''NSM:(5.1-%v) Failed to select mechanism. No matched mechanisms found...'')"
| "selectRemoteMechanism (mechanism # rest) dp =
     (case findRemoteMechanism (RemoteMechanisms dp) VXLAN of
        None \<Rightarrow> bnd (selectRemoteMechanism rest dp) (\<lambda>(m, ms). ret (m, mechanism # ms))
      | Some dp_mechanism \<Rightarrow>
          if RM_Type mechanism = VXLAN then
            (case RM_Parameters mechanism of
               None \<Rightarrow> throw (Panic ''assignment to entry in nil map'')
             | Some ps \<Rightarrow>
                 (let remoteSrc = map_read (Some ps) VXLANSrcIP;
                      dst = map_read (RM_Parameters dp_mechanism) VXLANSrcIP;
                      ps1 = AList.update VXLANDstIP dst (AList.update VXLANSrcIP remoteSrc ps)
                  in bnd (Vni_call dst remoteSrc) (\<lambda>v.
                       let m = mechanism\<lparr>RM_Parameters :=
                                 Some (AList.update VXLANVNI (FormatUint 10 (unat v)) ps1)\<rparr>
                       in ret (m, m # rest))))
          else ret (mechanism, mechanism # rest))"

text \<open>The first preference whose type the dataplane supports.\<close>

fun selectLocalMechanism :: "LocalMechanism list \<Rightarrow> Dataplane \<Rightarrow> LocalMechanism option" where
  "selectLocalMechanism [] dp = None"
| "selectLocalMechanism (m # ms) dp =
     (if findLocalMechanism (LocalMechanisms dp) (LM_Type m) \<noteq> None then Some m
      else selectLocalMechanism ms dp)"

definition nonnil :: "(string, string) gomap option \<Rightarrow> (string, string) gomap option" where
  "nonnil m = (case m of None \<Rightarrow> Some [] | Some ps \<Rightarrow> Some ps)"

text \<open>The connection with its mechanism set, and the request it was chosen from.\<close>

fun updateMechanism :: "NSMConnection \<Rightarrow> NSMRequest \<Rightarrow> Dataplane \<Rightarrow> (NSMConnection \<times> NSMRequest) mgo" where
  "updateMechanism (Remote c) (RemoteReq r) dp =
     bnd (selectRemoteMechanism (RQ_MechanismPreferences r) dp) (\<lambda>(m, ms).
     ret (Remote (c\<lparr>R_Mechanism := Some (m\<lparr>RM_Parameters := nonnil (RM_Parameters m)\<rparr>)\<rparr>),
          RemoteReq (r\<lparr>RQ_MechanismPreferences := ms\<rparr>)))"
| "updateMechanism (Local c) (LocalReq r) dp =
     (case (case selectLocalMechanism (LQ_MechanismPreferences r) dp of
              Some m \<Rightarrow> Some m | None \<Rightarrow> L_Mechanism c) of
        None \<Rightarrow> throw (Errorf ''Required mechanism are not found... %v '')
      | Some m \<Rightarrow>
          ret (Local (c\<lparr>L_Mechanism := Some (m\<lparr>LM_Parameters := nonnil (LM_Parameters m)\<rparr>)\<rparr>), LocalReq r))"
| "updateMechanism _ _ dp = throw (Panic ''interface conversion'')"

subsection \<open>Messages to endpoints and remote managers\<close>

definition getNetworkServiceManagerName :: "manager \<Rightarrow> string" where
  "getNetworkServiceManagerName s = NSM_GetName (GetNsm (mdl s))"

definition isLocalEndpoint :: "manager \<Rightarrow> NSERegistration option \<Rightarrow> bool" where
  "isLocalEndpoint s endpoint \<longleftrightarrow>
     getNetworkServiceManagerName s = NSM_GetName (Reg_GetNetworkServiceManager endpoint)"

definition createRemoteNSMRequest ::
    "NSERegistration option \<Rightarrow> NSMConnection \<Rightarrow> Dataplane \<Rightarrow> cc_ref option \<Rightarrow> RemoteRequest mgo" where
  "createRemoteNSMRequest endpoint requestConnection dataplane existingConnection = bnd get_state (\<lambda>s.
     let message = (\<lambda>i ns ctx labels.
           \<lparr>RQ_Connection = Some \<lparr>R_Id = i, R_NetworkService = ns, R_Mechanism = None, R_Context = ctx,
              R_Labels = labels, R_SourceNetworkServiceManagerName = getNetworkServiceManagerName s,
              R_DestinationNetworkServiceManagerName = NSM_GetName (Reg_GetNetworkServiceManager endpoint),
              R_NetworkServiceEndpointName = NSE_GetEndpointName (Reg_GetNetworkserviceEndpoint endpoint),
              R_State = UP\<rparr>,
            RQ_MechanismPreferences = RemoteMechanisms dataplane\<rparr>)
     in case existingConnection of
          Some e \<Rightarrow>
            (case GetRemoteDestination (Xcon (deref e s)) of
               None \<Rightarrow> throw (Panic ''nil dereference'')
             | Some d \<Rightarrow> ret (message (R_Id d) (R_NetworkService d) (R_Context d) (R_Labels d)))
        | None \<Rightarrow> ret (message ''-'' (GetNetworkService requestConnection) (GetContext requestConnection)
                         (GetLabels requestConnection)))"

definition createLocalNSERequest :: "NSERegistration option \<Rightarrow> NSMConnection \<Rightarrow> LocalRequest mgo" where
  "createLocalNSERequest endpoint requestConnection =
     bnd createConnectionId (\<lambda>i.
     ret \<lparr>LQ_Connection = Some \<lparr>L_Id = i,
            L_NetworkService = NS_GetName (Reg_GetNetworkService endpoint), L_Mechanism = None,
            L_Context = GetContext requestConnection, L_Labels = GetLabels requestConnection, L_State = UP\<rparr>,
          LQ_MechanismPreferences =
            [\<lparr>LM_Type = MEM_INTERFACE, LM_Parameters = Some []\<rparr>,
             \<lparr>LM_Type = KERNEL_INTERFACE, LM_Parameters = Some []\<rparr>]\<rparr>)"

subsection \<open>Asking an endpoint\<close>

definition createNSEClient :: "env \<Rightarrow> NSERegistration option \<Rightarrow> NetworkServiceClient mgo" where
  "createNSEClient env endpoint = bnd get_state (\<lambda>s.
     if isLocalEndpoint s endpoint then
       bnd (EndpointConnection env endpoint) (\<lambda>c. ret (endpointClient endpoint c))
     else
       bnd (RemoteNetworkServiceClient env (Reg_GetNetworkServiceManager endpoint)) (\<lambda>c.
       ret (nsmClient (Reg_GetNetworkServiceManager endpoint) c)))"

definition validateNSEConnection :: "NSMConnection \<Rightarrow> unit mgo" where
  "validateNSEConnection nseConnection =
     (case NSMConnection_IsComplete nseConnection of
        None \<Rightarrow> ret ()
      | Some _ \<Rightarrow> throw (Errorf ''NSM:(7.2.6.2.2-%v) failure Validating NSE Connection: %s''))"

text \<open>The workspace of a local endpoint is written into its mechanism's parameters.\<close>

definition updateConnectionParameters :: "NSMConnection \<Rightarrow> NSERegistration option \<Rightarrow> NSMConnection mgo" where
  "updateConnectionParameters nseConnection endpoint = bnd get_state (\<lambda>s.
     if isLocalEndpoint s endpoint then
       (case WorkspaceByEndpoint s (Reg_GetNetworkserviceEndpoint endpoint) of
          None \<Rightarrow> ret nseConnection
        | Some w \<Rightarrow>
            (case nseConnection of
               Remote _ \<Rightarrow> throw (Panic ''interface conversion'')
             | Local c \<Rightarrow>
                 (case L_Mechanism c of
                    None \<Rightarrow> throw (Panic ''assignment to entry in nil map'')
                  | Some m \<Rightarrow>
                      (case LM_Parameters m of
                         None \<Rightarrow> throw (Panic ''assignment to entry in nil map'')
                       | Some ps \<Rightarrow>
                           ret (Local (c\<lparr>L_Mechanism := Some (m\<lparr>LM_Parameters :=
                             Some (AList.update Workspace w ps)\<rparr>)\<rparr>))))))
     else ret nseConnection)"

definition createCrossConnect ::
    "NSMConnection \<Rightarrow> NSERegistration option \<Rightarrow> NSMRequest \<Rightarrow> NSMConnection \<Rightarrow> CrossConnect mgo" where
  "createCrossConnect requestConnection endpoint request nseConnection = bnd get_state (\<lambda>s.
     let remote_src = (case requestConnection of Remote _ \<Rightarrow> True | Local _ \<Rightarrow> False);
         remote_dst = (case nseConnection of Remote _ \<Rightarrow> True | Local _ \<Rightarrow> False)
     in if IsRemote request \<noteq> remote_src \<or> \<not> isLocalEndpoint s endpoint \<noteq> remote_dst then
          throw (Panic ''interface conversion'')
        else ret \<lparr>X_Id = GetId requestConnection,
                  X_Payload = (case Reg_GetNetworkService endpoint of None \<Rightarrow> [] | Some ns \<Rightarrow> NS_Payload ns),
                  X_Source = Some requestConnection, X_Destination = Some nseConnection\<rparr>)"

definition updateExcludePrefixes :: "manager \<Rightarrow> NSMConnection \<Rightarrow> NSMConnection" where
  "updateExcludePrefixes s requestConnection =
     (let c = (case GetContext requestConnection of None \<Rightarrow> empty_context | Some c \<Rightarrow> c)
      in SetContext requestConnection
           (Some (c\<lparr>ExcludedPrefixes := ExcludedPrefixes c @ excluded_prefixes s\<rparr>)))"

definition nse_message ::
    "NSERegistration option \<Rightarrow> NSMConnection \<Rightarrow> Dataplane \<Rightarrow> cc_ref option \<Rightarrow> NSMRequest mgo" where
  "nse_message endpoint requestConnection dp existingConnection = bnd get_state (\<lambda>s.
     if isLocalEndpoint s endpoint then
       bnd (createLocalNSERequest endpoint requestConnection) (\<lambda>m. ret (LocalReq m))
     else
       bnd (createRemoteNSMRequest endpoint requestConnection dp existingConnection) (\<lambda>m. ret (RemoteReq m)))"

text \<open>Steps 7.2.6.2.2 to 7.2.6.2.6: the answer is checked and becomes a client connection.\<close>

definition accept_connection ::
    "NSERegistration option \<Rightarrow> NSMConnection \<Rightarrow> NSMRequest \<Rightarrow> Dataplane \<Rightarrow> NSMConnection \<Rightarrow> cc_ref mgo" where
  "accept_connection endpoint requestConnection request dp nseConnection =
     bnd (validateNSEConnection nseConnection) (\<lambda>_.
     case UpdateContext requestConnection (GetContext nseConnection) of
       (_, Some _) \<Rightarrow> throw (Errorf ''NSM:(7.2.6.2.3-%v) failure Validating NSE Connection: %s'')
     | (requestConnection', None) \<Rightarrow>
         bnd (updateConnectionParameters nseConnection endpoint) (\<lambda>nseConnection'.
         bnd (createCrossConnect requestConnection' endpoint request nseConnection') (\<lambda>dpApiConnection.
         bnd get_state (\<lambda>s.
         new_ClientConnection
           \<lparr>CC_ConnectionId = GetId requestConnection', Xcon = Some dpApiConnection,
            RemoteNsm = (if isLocalEndpoint s endpoint then None else Reg_GetNetworkServiceManager endpoint),
            Endpoint = endpoint, CC_Dataplane = Some dp,
            ConnectionState = CC_Requesting, CC_Request = None\<rparr>))))"

definition performNSERequest ::
    "env \<Rightarrow> NSERegistration option \<Rightarrow> NSMConnection \<Rightarrow> NSMRequest \<Rightarrow> Dataplane \<Rightarrow> cc_ref option \<Rightarrow> cc_ref mgo" where
  "performNSERequest env endpoint requestConnection request dp existingConnection =
     bnd (attempt (createNSEClient env endpoint)) (\<lambda>cr.
     case cr of
       Inl _ \<Rightarrow> throw (Errorf ''NSM:(7.2.6.1-%v) Failed to create NSE Client'')
     | Inr client \<Rightarrow>
         deferring
           (bnd (nse_message endpoint requestConnection dp existingConnection) (\<lambda>message.
            bnd (client_Request env client message) (\<lambda>nseConnection.
            accept_connection endpoint requestConnection request dp nseConnection)))
           (Cleanup client))"

subsection \<open>Choosing an endpoint\<close>

definition filterEndpoints ::
    "NetworkServiceEndpoint list \<Rightarrow> (string, NSERegistration) gomap \<Rightarrow> NetworkServiceEndpoint list" where
  "filterEndpoints nses ignore_endpoints =
     filter (\<lambda>candidate. map_of ignore_endpoints (NSE_EndpointName candidate) = None) nses"

definition filterRegEndpoints ::
    "NSERegistration list \<Rightarrow> (string, NSERegistration) gomap \<Rightarrow> NSERegistration list" where
  "filterRegEndpoints nses ignore_endpoints =
     filter (\<lambda>candidate. map_of ignore_endpoints
       (NSE_GetEndpointName (Reg_NetworkserviceEndpoint candidate)) = None) nses"

definition NetworkServiceDiscovery :: "env \<Rightarrow> unit mgo" where
  "NetworkServiceDiscovery env = bnd get_state (\<lambda>s.
     bnd (call_out C_Discovery) (\<lambda>_. answer_err (e_Discovery env (trace s))))"

definition FindNetworkService :: "env \<Rightarrow> string \<Rightarrow> FindNetworkServiceResponse mgo" where
  "FindNetworkService env name = bnd get_state (\<lambda>s.
     bnd (call_out (C_FindNetworkService name)) (\<lambda>_. answer (e_FindNetworkService env (trace s) name)))"

definition select_call ::
    "LocalConnection \<Rightarrow> NetworkService option \<Rightarrow> NetworkServiceEndpoint list \<Rightarrow> NetworkServiceEndpoint option mgo" where
  "select_call c ns es = (\<lambda>s.
     case ms_SelectEndpoint (GetSelector (mdl s)) (Some c) ns es of
       (r, m) \<Rightarrow> Some (r, s\<lparr>mdl := (mdl s)\<lparr>impl_selector := m\<rparr>\<rparr>))"

definition getEndpoint ::
    "env \<Rightarrow> NSMConnection \<Rightarrow> (string, NSERegistration) gomap \<Rightarrow> NSERegistration option mgo" where
  "getEndpoint env requestConnection ignore_endpoints =
     (let targetEndpoint = GetNetworkServiceEndpointName requestConnection in
      if length targetEndpoint > 0 then
        bnd get_state (\<lambda>s.
        case GetEndpoint (mdl s) targetEndpoint of
          None \<Rightarrow> throw (Errorf ''Could not find endpoint with name: %s at local registry'')
        | Some endpoint \<Rightarrow>
            (case Reg_NetworkserviceEndpoint endpoint of
               None \<Rightarrow> throw (Panic ''nil dereference'')
             | Some e \<Rightarrow>
                 if map_of ignore_endpoints (NSE_EndpointName e) = None then ret (Some endpoint)
                 else throw (Errorf ''Could not find endpoint with name: %s at local registry'')))
      else
        bnd (NetworkServiceDiscovery env) (\<lambda>_.
        bnd (FindNetworkService env (GetNetworkService requestConnection)) (\<lambda>endpointResponse.
        let candidates = filterEndpoints (F_NetworkServiceEndpoints endpointResponse) ignore_endpoints in
        if length candidates = 0 then
          throw (Errorf ''Failed to find NSE for NetworkService %s. Checked: %d of total NSEs: %d'')
        else
          (case requestConnection of
             Remote _ \<Rightarrow> throw (Panic ''interface conversion'')
           | Local c \<Rightarrow>
               bnd (select_call c (F_NetworkService endpointResponse) candidates) (\<lambda>endpoint.
               case endpoint of
                 None \<Rightarrow> ret None
               | Some e \<Rightarrow>
                   ret (Some
                     \<lparr>Reg_NetworkService = F_NetworkService endpointResponse,
                      Reg_NetworkServiceManager =
                        map_of (F_NetworkServiceManagers endpointResponse) (NSE_NetworkServiceManagerName e),
                      Reg_NetworkserviceEndpoint = Some e\<rparr>))))))"

definition endpoint_name :: "NSERegistration option \<Rightarrow> string result" where
  "endpoint_name endpoint =
     (case endpoint of
        None \<Rightarrow> Inl (Panic ''nil dereference'')
      | Some r \<Rightarrow>
          (case Reg_NetworkserviceEndpoint r of
             None \<Rightarrow> Inl (Panic ''nil dereference'')
           | Some e \<Rightarrow> Inr (NSE_EndpointName e)))"

text \<open>The endpoint of the next round: the old one unless it is ignored, else a new one.\<close>

definition next_endpoint ::
    "env \<Rightarrow> NSMConnection \<Rightarrow> cc_ref option \<Rightarrow> (string, NSERegistration) gomap \<Rightarrow> NSERegistration option mgo" where
  "next_endpoint env nseConnection existingConnection ignore_endpoints = bnd get_state (\<lambda>s.
     case existingConnection of
       None \<Rightarrow> getEndpoint env nseConnection ignore_endpoints
     | Some e \<Rightarrow>
         bnd (lift_result (endpoint_name (Endpoint (deref e s)))) (\<lambda>n.
         if map_of ignore_endpoints n = None then ret (Endpoint (deref e s))
         else getEndpoint env nseConnection ignore_endpoints))"

fun findConnectNSE ::
    "nat \<Rightarrow> env \<Rightarrow> (string, NSERegistration) gomap \<Rightarrow> string option \<Rightarrow> NSMRequest \<Rightarrow> NSMConnection \<Rightarrow>
     cc_ref option \<Rightarrow> Dataplane \<Rightarrow> cc_ref mgo" where
  "findConnectNSE 0 env ignore_endpoints last_error request nsmConnection existingConnection dp = (\<lambda>s. None)"
| "findConnectNSE (Suc fuel) env ignore_endpoints last_error request nsmConnection existingConnection dp =
     bnd (attempt (next_endpoint env nsmConnection existingConnection ignore_endpoints)) (\<lambda>er.
     case er of
       Inl err \<Rightarrow>
         (case last_error of
            Some _ \<Rightarrow> throw (Errorf ''NSM:(7.2.4-%v) %v. Last NSE Error: %v'')
          | None \<Rightarrow> throw (Errorf err))
     | Inr endpoint \<Rightarrow>
         bnd get_state (\<lambda>s.
         bnd (attempt (performNSERequest env endpoint (updateExcludePrefixes s nsmConnection) request dp
                existingConnection)) (\<lambda>cr.
         case cr of
           Inr clientConnection \<Rightarrow> ret clientConnection
         | Inl err \<Rightarrow>
             bnd (lift_result (endpoint_name endpoint)) (\<lambda>n.
             findConnectNSE fuel env
               (case endpoint of None \<Rightarrow> ignore_endpoints | Some r \<Rightarrow> AList.update n r ignore_endpoints)
               (Some err) request nsmConnection existingConnection dp))))"

subsection \<open>Closing\<close>

definition closeDataplane :: "env \<Rightarrow> cc_ref \<Rightarrow> unit mgo" where
  "closeDataplane env clientConnection = bnd get_state (\<lambda>s.
     bnd (DataplaneConnection env (CC_Dataplane (deref clientConnection s))) (\<lambda>c.
     deferring
       (case CC_Dataplane (deref clientConnection s) of
          None \<Rightarrow> throw (Panic ''nil dereference'')
        | Some dp \<Rightarrow> bnd get_state (\<lambda>t. dataplaneClient_Close env dp (Xcon (deref clientConnection t))))
       (close_conn c)))"

definition err_of :: "string + 'a \<Rightarrow> string option" where
  "err_of r = (case r of Inl e \<Rightarrow> Some e | Inr _ \<Rightarrow> None)"

text \<open>
  The part of \<open>close\<close> that tells the endpoint or the remote manager: the errors
  of creating the client and of closing.
\<close>

definition closeNSE :: "env \<Rightarrow> cc_ref \<Rightarrow> (string option \<times> string option) mgo" where
  "closeNSE env clientConnection = bnd get_state (\<lambda>s.
     bnd (attempt (createNSEClient env (Endpoint (deref clientConnection s)))) (\<lambda>cr.
     case cr of
       Inl e \<Rightarrow> ret (Some e, None)
     | Inr client \<Rightarrow>
         deferring (bnd get_state (\<lambda>t.
           let xcon = Xcon (deref clientConnection t) in
           bnd (case GetLocalDestination xcon of
                  None \<Rightarrow> ret None
                | Some ld \<Rightarrow> bnd (attempt (client_Close env client (Local ld))) (\<lambda>r. ret (err_of r))) (\<lambda>e1.
           bnd (case GetRemoteDestination xcon of
                  None \<Rightarrow> ret e1
                | Some rd \<Rightarrow> bnd (attempt (client_Close env client (Remote rd))) (\<lambda>r. ret (err_of r))) (\<lambda>e2.
           ret (None, e2))))) (Cleanup client)))"

definition close_connection :: "env \<Rightarrow> cc_ref \<Rightarrow> bool \<Rightarrow> unit mgo" where
  "close_connection env clientConnection closeDp = bnd get_state (\<lambda>s.
     if ConnectionState (deref clientConnection s) = CC_Closing then ret ()
     else
       bnd (assign clientConnection (\<lambda>c. c\<lparr>ConnectionState := CC_Closing\<rparr>)) (\<lambda>_.
       bnd (closeNSE env clientConnection) (\<lambda>(nseClientError, nseCloseError).
       bnd (if closeDp then
              bnd (attempt (closeDataplane env clientConnection)) (\<lambda>r.
              bnd (model_op (\<lambda>i. DeleteClientConnection i (CC_ConnectionId (deref clientConnection s)))) (\<lambda>_.
              ret (err_of r)))
            else ret None) (\<lambda>dpCloseError.
       bnd (assign clientConnection (\<lambda>c. c\<lparr>ConnectionState := CC_Closed\<rparr>)) (\<lambda>_.
       if nseClientError \<noteq> None \<or> nseCloseError \<noteq> None \<or> dpCloseError \<noteq> None then
         throw (Errorf ''Close error: %v'')
       else ret ())))))"

definition Close :: "env \<Rightarrow> cc_ref \<Rightarrow> unit mgo" where
  "Close env connection = close_connection env connection True"

subsection \<open>Requests\<close>

definition params_equal :: "(string, string) gomap option \<Rightarrow> (string, string) gomap option \<Rightarrow> bool" where
  "params_equal a b \<longleftrightarrow>
     (let xs = (case a of None \<Rightarrow> [] | Some m \<Rightarrow> m); ys = (case b of None \<Rightarrow> [] | Some m \<Rightarrow> m)
      in length xs = length ys \<and> list_all (\<lambda>(k, v). map_of ys k = Some v) xs)"

definition RemoteMechanism_Equal :: "RemoteMechanism \<Rightarrow> RemoteMechanism \<Rightarrow> bool" where
  "RemoteMechanism_Equal a b \<longleftrightarrow> RM_Type a = RM_Type b \<and> params_equal (RM_Parameters a) (RM_Parameters b)"

definition checkNeedNSERequest :: "NSMConnection \<Rightarrow> ClientConnection \<Rightarrow> Dataplane \<Rightarrow> bool result" where
  "checkNeedNSERequest nsmConnection existingConnection dp =
     (if GetContext nsmConnection \<noteq>
           (case GetConnectionSource existingConnection of None \<Rightarrow> None | Some c \<Rightarrow> GetContext c) then Inr True
      else
        (case GetRemoteDestination (Xcon existingConnection) of
           None \<Rightarrow> Inr False
         | Some remoteDestination \<Rightarrow>
             (case findRemoteMechanism (RemoteMechanisms dp)
                     (case R_Mechanism remoteDestination of None \<Rightarrow> NONE | Some m \<Rightarrow> RM_Type m) of
                None \<Rightarrow> Inr True
              | Some dpM \<Rightarrow>
                  (case R_Mechanism remoteDestination of
                     None \<Rightarrow> (if RM_Parameters dpM = None \<or> RM_Parameters dpM = Some [] then Inr True
                              else Inl (Panic ''nil dereference''))
                   | Some m \<Rightarrow>
                       Inr (\<not> list_all (\<lambda>(k, v). map_read (RM_Parameters m) k = v)
                              (case RM_Parameters dpM of None \<Rightarrow> [] | Some ps \<Rightarrow> ps) \<or>
                            \<not> RemoteMechanism_Equal dpM m)))))"

fun newConnection :: "NSMRequest \<Rightarrow> NSMConnection result" where
  "newConnection (LocalReq r) =
     (case LQ_Connection r of None \<Rightarrow> Inl (Panic ''nil dereference'') | Some c \<Rightarrow> Inr (Local c))"
| "newConnection (RemoteReq r) =
     (case RQ_Connection r of None \<Rightarrow> Inl (Panic ''nil dereference'') | Some c \<Rightarrow> Inr (Remote c))"

text \<open>
  Step 7.2: the source of the existing cross connect gets the new mechanism and
  is up again.
\<close>

definition refresh_source :: "CrossConnect option \<Rightarrow> NSMConnection \<Rightarrow> CrossConnect result" where
  "refresh_source xcon nsmConnection =
     (case (nsmConnection, xcon) of
        (Remote c, Some x) \<Rightarrow>
          (case GetRemoteSource xcon of
             None \<Rightarrow> Inl (Panic ''nil dereference'')
           | Some rs \<Rightarrow> Inr (x\<lparr>X_Source := Some (Remote (rs\<lparr>R_Mechanism := R_Mechanism c, R_State := UP\<rparr>))\<rparr>))
      | (Local c, Some x) \<Rightarrow>
          (case GetLocalSource xcon of
             None \<Rightarrow> Inl (Panic ''nil dereference'')
           | Some ls \<Rightarrow> Inr (x\<lparr>X_Source := Some (Local (ls\<lparr>L_Mechanism := L_Mechanism c, L_State := UP\<rparr>))\<rparr>))
      | (_, None) \<Rightarrow> Inl (Panic ''nil dereference''))"

text \<open>
  Step 10: the dataplane is programmed; a failed request is repeated once. Every
  answer, also that of a failed request, replaces the cross connect.
\<close>

definition dataplane_attempt :: "env \<Rightarrow> Dataplane \<Rightarrow> cc_ref \<Rightarrow> (string option) mgo" where
  "dataplane_attempt env dp clientConnection = bnd get_state (\<lambda>s.
     bnd (attempt (dataplaneClient_Request env dp (Xcon (deref clientConnection s)))) (\<lambda>r.
     bnd (assign clientConnection (\<lambda>c. c\<lparr>Xcon := (case r of Inl _ \<Rightarrow> None | Inr x \<Rightarrow> Some x)\<rparr>)) (\<lambda>_.
     ret (err_of r))))"

definition programDataplane :: "env \<Rightarrow> Dataplane \<Rightarrow> cc_ref \<Rightarrow> unit mgo" where
  "programDataplane env dp clientConnection =
     bnd (dataplane_attempt env dp clientConnection) (\<lambda>e1.
     case e1 of
       None \<Rightarrow> ret ()
     | Some _ \<Rightarrow>
         bnd (dataplane_attempt env dp clientConnection) (\<lambda>e2.
         case e2 of
           None \<Rightarrow> ret ()
         | Some err \<Rightarrow>
             bnd (attempt (close_connection env clientConnection True)) (\<lambda>_.
             bnd get_state (\<lambda>s.
             bnd (model_op (\<lambda>i. DeleteClientConnection i (CC_ConnectionId (deref clientConnection s)))) (\<lambda>_.
             throw (Errorf err))))))"

definition source_of :: "bool \<Rightarrow> CrossConnect option \<Rightarrow> NSMConnection result" where
  "source_of remote xcon =
     (case (remote, GetSource xcon) of
        (True, Some (Remote c)) \<Rightarrow> Inr (Remote c)
      | (False, Some (Local c)) \<Rightarrow> Inr (Local c)
      | _ \<Rightarrow> Inl (Panic ''interface conversion''))"

text \<open>Step 4: whether the endpoint has to be asked again, closing it when the service changed.\<close>

definition prepare_update :: "env \<Rightarrow> NSMConnection \<Rightarrow> cc_ref \<Rightarrow> Dataplane \<Rightarrow> (bool \<times> bool) mgo" where
  "prepare_update env nsmConnection existingConnection dp = bnd get_state (\<lambda>s.
     if GetNetworkService nsmConnection \<noteq> CC_GetNetworkService (Some (deref existingConnection s)) then
       bnd (attempt (close_connection env existingConnection False)) (\<lambda>_. ret (True, True))
     else
       bnd (lift_result (checkNeedNSERequest nsmConnection (deref existingConnection s) dp)) (\<lambda>b.
       ret (b, False)))"

text \<open>
  The flag says whether an error closes the dataplane of the existing connection;
  \<open>closeDataplaneLog\<close> ignores errors of its own.
\<close>

definition failing_closes :: "env \<Rightarrow> bool \<Rightarrow> cc_ref option \<Rightarrow> 'a mgo \<Rightarrow> 'a mgo" where
  "failing_closes env flag existingConnection m =
     bnd (attempt m) (\<lambda>r.
     case r of
       Inr x \<Rightarrow> ret x
     | Inl err \<Rightarrow>
         (case (flag, existingConnection) of
            (True, Some e) \<Rightarrow> bnd (attempt (closeDataplane env e)) (\<lambda>_. throw (Errorf err))
          | _ \<Rightarrow> throw (Errorf err)))"

text \<open>Steps 7 to 11, with an open connection to the dataplane.\<close>

definition serve ::
    "nat \<Rightarrow> env \<Rightarrow> NSMRequest \<Rightarrow> NSMConnection \<Rightarrow> cc_ref option \<Rightarrow> Dataplane \<Rightarrow> bool \<Rightarrow> bool \<Rightarrow> NSMConnection mgo" where
  "serve fuel env request nsmConnection existingConnection dp requestNSE closeDp =
     bnd (case existingConnection of
            None \<Rightarrow> findConnectNSE fuel env [] None request nsmConnection None dp
          | Some e \<Rightarrow>
              if requestNSE then
                failing_closes env closeDp (Some e)
                  (findConnectNSE fuel env [] None request nsmConnection (Some e) dp)
              else
                bnd get_state (\<lambda>s.
                bnd (lift_result (refresh_source (Xcon (deref e s)) nsmConnection)) (\<lambda>x.
                bnd (assign e (\<lambda>c. c\<lparr>Xcon := Some x\<rparr>)) (\<lambda>_. ret e)))) (\<lambda>clientConnection.
     bnd (assign clientConnection (\<lambda>c. c\<lparr>CC_Request := Some request\<rparr>)) (\<lambda>_.
     bnd (case existingConnection of
            None \<Rightarrow> model_op (\<lambda>i. AddClientConnection i clientConnection)
          | Some e \<Rightarrow> bnd get_state (\<lambda>s.
              bnd (attempt (dataplaneClient_Close env dp (Xcon (deref e s)))) (\<lambda>_. ret ()))) (\<lambda>_.
     bnd (programDataplane env dp clientConnection) (\<lambda>_.
     bnd (assign clientConnection (\<lambda>c. c\<lparr>ConnectionState := CC_Ready\<rparr>)) (\<lambda>_.
     bnd (case existingConnection of
            None \<Rightarrow> ret ()
          | Some e \<Rightarrow> model_op (\<lambda>i. UpdateClientConnection i clientConnection)) (\<lambda>_.
     bnd get_state (\<lambda>s.
     lift_result (source_of (IsRemote request) (Xcon (deref clientConnection s))))))))))"

definition request_connection :: "nat \<Rightarrow> env \<Rightarrow> NSMRequest \<Rightarrow> cc_ref option \<Rightarrow> NSMConnection mgo" where
  "request_connection fuel env request existingConnection =
     (case NSMRequest_IsValid request of
        Some err \<Rightarrow> throw err
      | None \<Rightarrow>
          bnd (lift_result (newConnection request)) (\<lambda>newc.
          bnd (case existingConnection of
                 None \<Rightarrow> createConnectionId
               | Some e \<Rightarrow> bnd get_state (\<lambda>s. ret (CC_ConnectionId (deref e s)))) (\<lambda>cid.
          bnd get_state (\<lambda>s.
          bnd (lift_result (SelectDataplane (e_dataplane_order env (trace s)) (mdl s))) (\<lambda>dp.
          bnd (case existingConnection of
                 None \<Rightarrow> ret (False, False)
               | Some e \<Rightarrow> prepare_update env (SetId newc cid) e dp) (\<lambda>(requestNSE, closeDp).
          bnd (failing_closes env closeDp existingConnection
                 (updateMechanism (SetId newc cid) request dp)) (\<lambda>(nsmConnection, request').
          bnd (DataplaneConnection env (Some dp)) (\<lambda>c.
          deferring (serve fuel env request' nsmConnection existingConnection dp requestNSE closeDp)
            (close_conn c))))))))) "

definition Request :: "nat \<Rightarrow> env \<Rightarrow> NSMRequest \<Rightarrow> NSMConnection mgo" where
  "Request fuel env request = bnd get_state (\<lambda>s.
     request_connection fuel env request (GetClientConnection (mdl s) (GetConnectionId request)))"

subsection \<open>Healing\<close>

datatype HealState = DstDown | SrcDown | DataplaneDown | DstUpdate

definition requestOrClose :: "nat \<Rightarrow> env \<Rightarrow> NSMRequest \<Rightarrow> cc_ref \<Rightarrow> unit mgo" where
  "requestOrClose fuel env request clientConnection =
     bnd (attempt (request_connection fuel env request (Some clientConnection))) (\<lambda>r.
     case r of
       Inr _ \<Rightarrow> ret ()
     | Inl _ \<Rightarrow> bnd (attempt (Close env clientConnection)) (\<lambda>_. ret ()))"

text \<open>
  \<open>SetConnection\<close> with the source of the connection, which may be a nil pointer
  to a remote connection.
\<close>

definition set_source :: "NSMRequest \<Rightarrow> NSMConnection option \<Rightarrow> NSMRequest result" where
  "set_source request src =
     (case src of
        Some c \<Rightarrow> SetConnection request c
      | None \<Rightarrow>
          (case request of
             LocalReq _ \<Rightarrow> Inl (Panic ''interface conversion'')
           | RemoteReq r \<Rightarrow> Inr (RemoteReq (r\<lparr>RQ_Connection := None\<rparr>))))"

text \<open>The body of \<open>Heal\<close>, by heal state; \<open>True\<close> asks for the final close.\<close>

fun heal_body :: "nat \<Rightarrow> env \<Rightarrow> cc_ref \<Rightarrow> HealState \<Rightarrow> bool mgo" where
  "heal_body fuel env r DstDown = bnd get_state (\<lambda>s.
     if GetRemoteSource (Xcon (deref r s)) \<noteq> None then ret True
     else
       bnd (attempt (close_connection env r True)) (\<lambda>_.
       bnd get_state (\<lambda>t.
       case CC_Request (deref r t) of
         None \<Rightarrow> throw (Panic ''nil dereference'')
       | Some req \<Rightarrow>
           bnd (attempt (request_connection fuel env req (Some r))) (\<lambda>res.
           case res of
             Inr _ \<Rightarrow> ret False
           | Inl _ \<Rightarrow>
               bnd (model_op (\<lambda>i. DeleteClientConnection i (CC_ConnectionId (deref r t)))) (\<lambda>_.
               bnd (assign r (\<lambda>c. c\<lparr>ConnectionState := CC_Closed\<rparr>)) (\<lambda>_. ret False))))))"
| "heal_body fuel env r DataplaneDown =
     bnd (WaitForDataplaneAvailable env) (\<lambda>_.
     bnd (model_op (\<lambda>i. UpdateClientConnection i r)) (\<lambda>_.
     bnd get_state (\<lambda>s.
     if GetRemoteSource (Xcon (deref r s)) \<noteq> None then ret False
     else
       (case CC_Request (deref r s) of
          None \<Rightarrow> throw (Panic ''nil dereference'')
        | Some req \<Rightarrow>
            bnd (lift_result (set_source req (GetConnectionSource (deref r s)))) (\<lambda>req'.
            bnd (requestOrClose fuel env req' r) (\<lambda>_. ret False))))))"
| "heal_body fuel env r DstUpdate = bnd get_state (\<lambda>s.
     case CC_Request (deref r s) of
       None \<Rightarrow> ret True
     | Some req \<Rightarrow>
         bnd (lift_result (set_source req (GetConnectionSource (deref r s)))) (\<lambda>req'.
         bnd (requestOrClose fuel env req' r) (\<lambda>_. ret False)))"
| "heal_body fuel env r SrcDown = ret True"

definition set_ready :: "cc_ref \<Rightarrow> manager \<Rightarrow> manager" where
  "set_ready r s = s\<lparr>mdl := (mdl s)\<lparr>store :=
     (store (mdl s))(r := (store (mdl s) r)\<lparr>ConnectionState := CC_Ready\<rparr>)\<rparr>\<rparr>"

definition Heal :: "nat \<Rightarrow> env \<Rightarrow> cc_ref \<Rightarrow> HealState \<Rightarrow> unit mgo" where
  "Heal fuel env clientConnection healState = bnd get_state (\<lambda>s.
     if ConnectionState (deref clientConnection s) \<noteq> CC_Ready then ret ()
     else
       deferring
         (bnd (assign clientConnection (\<lambda>c. c\<lparr>ConnectionState := CC_Healing\<rparr>)) (\<lambda>_.
          bnd (heal_body fuel env clientConnection healState) (\<lambda>final.
          if final then bnd (attempt (Close env clientConnection)) (\<lambda>_. ret ())
          else ret ())))
         (set_ready clientConnection))"

end
