(* ===== verification/ManagerProps.thy ===== *)
theory ManagerProps
  imports Manager
begin

text \<open>
  Properties of the network service manager. The first part shows what each
  function leaves alone (frames), the later parts what requests, closing and
  healing achieve.
\<close>

subsection \<open>gRPC connections\<close>

text \<open>
  \<open>same_conns k\<close> relates states that agree on the open connections other than
  \<open>k\<close>; connection numbers in use lie below \<open>next_conn\<close>.
\<close>

definition conns_ok :: "manager \<Rightarrow> bool" where
  "conns_ok s \<longleftrightarrow> list_all (\<lambda>c. c < next_conn s) (open_conns s)"

definition same_conns :: "nat \<Rightarrow> manager \<Rightarrow> manager \<Rightarrow> bool" where
  "same_conns k s s' \<longleftrightarrow> (conns_ok s \<longrightarrow> conns_ok s' \<and> next_conn s \<le> next_conn s' \<and>
     removeAll k (open_conns s') = removeAll k (open_conns s))"

definition keeps_conns :: "manager \<Rightarrow> manager \<Rightarrow> bool" where
  "keeps_conns s s' \<longleftrightarrow> (conns_ok s \<longrightarrow> conns_ok s' \<and> next_conn s \<le> next_conn s' \<and>
     open_conns s' = open_conns s)"

interpretation sc: frame "same_conns k" for k
  by unfold_locales (auto simp: same_conns_def)

interpretation kc: frame keeps_conns
  by unfold_locales (auto simp: keeps_conns_def)

lemma keeps_same: "keeps_conns s s' \<Longrightarrow> same_conns k s s'"
  by (simp add: keeps_conns_def same_conns_def)

lemma steps_keeps_same: "steps keeps_conns m \<Longrightarrow> steps (same_conns k) m"
  by (auto simp: steps_def keeps_same)

lemma keeps_simple:
  "open_conns s' = open_conns s \<Longrightarrow> next_conn s' = next_conn s \<Longrightarrow> keeps_conns s s'"
  by (simp add: keeps_conns_def conns_ok_def)

lemma kc_call_out: "steps keeps_conns (call_out c)"
  by (auto simp: call_out_def intro!: kc.steps_modify keeps_simple)

lemma kc_answer: "steps keeps_conns (answer r)" "steps keeps_conns (answer_err e)"
  by (auto simp: answer_def answer_err_def intro: kc.steps_basic split: sum.split option.split)

lemma kc_assign: "steps keeps_conns (assign r f)"
  by (auto simp: assign_def intro!: kc.steps_modify keeps_simple)

lemma kc_model_op: "steps keeps_conns (model_op f)"
  by (auto simp: model_op_def intro!: kc.steps_modify keeps_simple split: prod.split)

lemma kc_state: "(\<And>s. open_conns (g s) = open_conns s \<and> next_conn (g s) = next_conn s) \<Longrightarrow>
    steps keeps_conns (\<lambda>s. Some (f s, g s))"
  by (auto simp: steps_def intro!: keeps_simple)

text \<open>
  \<open>acquires m f\<close>: \<open>m\<close> opens no connection, or one, which \<open>f\<close> reads off its result.
  \<open>closes k m\<close>: \<open>m\<close> closes connection \<open>k\<close> and leaves the others.
\<close>

definition acquires :: "'a mgo \<Rightarrow> ('a \<Rightarrow> nat option) \<Rightarrow> bool" where
  "acquires m f \<longleftrightarrow> (\<forall>s r s'. m s = Some (r, s') \<longrightarrow> conns_ok s \<longrightarrow>
     conns_ok s' \<and> next_conn s \<le> next_conn s' \<and>
     (case r of
        Inl _ \<Rightarrow> open_conns s' = open_conns s
      | Inr x \<Rightarrow> (case f x of
                    None \<Rightarrow> open_conns s' = open_conns s
                  | Some k \<Rightarrow> k \<notin> set (open_conns s) \<and> open_conns s' = k # open_conns s)))"

definition closes :: "nat \<Rightarrow> 'a mgo \<Rightarrow> bool" where
  "closes k m \<longleftrightarrow> (\<forall>s r s'. m s = Some (r, s') \<longrightarrow> conns_ok s \<longrightarrow>
     conns_ok s' \<and> next_conn s \<le> next_conn s' \<and> open_conns s' = removeAll k (open_conns s))"

lemma acq_open: "acquires open_conn Some"
  by (auto simp: acquires_def open_conn_def go_run conns_ok_def list_all_iff)

lemma acq_pre:
  assumes "steps keeps_conns m" "\<And>x. acquires (g x) f"
  shows "acquires (bnd m g) f"
  unfolding acquires_def
proof (intro allI impI)
  fix s r s' assume run: "bnd m g s = Some (r, s')" and ok: "conns_ok s"
  from run show "conns_ok s' \<and> next_conn s \<le> next_conn s' \<and>
     (case r of Inl _ \<Rightarrow> open_conns s' = open_conns s
      | Inr x \<Rightarrow> (case f x of None \<Rightarrow> open_conns s' = open_conns s
                  | Some k \<Rightarrow> k \<notin> set (open_conns s) \<and> open_conns s' = k # open_conns s))"
  proof (cases rule: bnd_SomeE)
    case (error e)
    then show ?thesis using assms(1) ok by (auto simp: steps_def keeps_conns_def)
  next
    case (ok x t)
    then have "keeps_conns s t" using assms(1) by (auto simp: steps_def)
    then have t: "conns_ok t" "next_conn s \<le> next_conn t" "open_conns t = open_conns s"
      using \<open>conns_ok s\<close> by (auto simp: keeps_conns_def)
    show ?thesis
      using assms(2) [of x, unfolded acquires_def, rule_format, OF ok(2) t(1), unfolded t(3)] t(2) by simp
  qed
qed

lemma acq_throw: "acquires (throw e) f"
  by (simp add: acquires_def throw_def)

lemma acquiresD:
  assumes "acquires m f" "m s = Some (r, s')" "conns_ok s"
  shows "conns_ok s'" "next_conn s \<le> next_conn s'"
    "r = Inl e \<Longrightarrow> open_conns s' = open_conns s"
    "r = Inr x \<Longrightarrow> f x = None \<Longrightarrow> open_conns s' = open_conns s"
    "r = Inr x \<Longrightarrow> f x = Some k \<Longrightarrow> k \<notin> set (open_conns s) \<and> open_conns s' = k # open_conns s"
  using assms(1) [unfolded acquires_def, rule_format, OF assms(2,3)] by auto

lemma acq_map:
  assumes "acquires m f" "\<And>x. h' (h x) = f x"
  shows "acquires (bnd m (\<lambda>x. ret (h x))) h'"
  unfolding acquires_def
proof (intro allI impI)
  fix s r s' assume "bnd m (\<lambda>x. ret (h x)) s = Some (r, s')" and c: "conns_ok s"
  then show "conns_ok s' \<and> next_conn s \<le> next_conn s' \<and>
     (case r of Inl _ \<Rightarrow> open_conns s' = open_conns s
      | Inr x \<Rightarrow> (case h' x of None \<Rightarrow> open_conns s' = open_conns s
                  | Some k \<Rightarrow> k \<notin> set (open_conns s) \<and> open_conns s' = k # open_conns s))"
  proof (cases rule: bnd_SomeE)
    case (error e)
    then show ?thesis using acquiresD(1,2,3) [OF assms(1) _ c] by simp
  next
    case (ok x t)
    then have "r = Inr (h x)" "s' = t" by (simp_all add: go_run)
    then show ?thesis using acquiresD [OF assms(1) ok(1) c] by (simp add: assms(2) split: option.split)
  qed
qed

lemma acq_attempt:
  assumes "acquires m f"
  shows "acquires (attempt m) (case_sum (\<lambda>_. None) f)"
  unfolding acquires_def
proof (intro allI impI)
  fix s r s' assume run: "attempt m s = Some (r, s')" and c: "conns_ok s"
  then obtain q where q: "m s = Some (q, s')"
    "case q of Inl (Errorf e) \<Rightarrow> r = Inr (Inl e) | Inl (Panic p) \<Rightarrow> r = Inl (Panic p) | Inr x \<Rightarrow> r = Inr (Inr x)"
    by (auto simp: attempt_def split: option.splits sum.splits error.splits)
  then show "conns_ok s' \<and> next_conn s \<le> next_conn s' \<and>
     (case r of Inl _ \<Rightarrow> open_conns s' = open_conns s
      | Inr x \<Rightarrow> (case case_sum (\<lambda>_. None) f x of None \<Rightarrow> open_conns s' = open_conns s
                  | Some k \<Rightarrow> k \<notin> set (open_conns s) \<and> open_conns s' = k # open_conns s))"
    using acquiresD [OF assms q(1) c]
    by (auto split: sum.splits error.splits option.split)
qed

lemma acq_use:
  assumes "acquires m f"
    and "\<And>x. f x = None \<Longrightarrow> steps keeps_conns (g x)"
    and "\<And>x k. f x = Some k \<Longrightarrow> closes k (g x)"
  shows "steps keeps_conns (bnd m g)"
  unfolding steps_def
proof (intro allI impI)
  fix s r s' assume "bnd m g s = Some (r, s')"
  then show "keeps_conns s s'"
  proof (cases rule: bnd_SomeE)
    case (error e)
    then show ?thesis unfolding keeps_conns_def using acquiresD(1,2,3) [OF assms(1)] by blast
  next
    case (ok x t)
    show ?thesis
    proof (cases "f x")
      case None
      then have "keeps_conns t s'" using assms(2) ok(2) by (auto simp: steps_def)
      moreover have "keeps_conns s t"
        unfolding keeps_conns_def using acquiresD(1,2,4) [OF assms(1) ok(1) _] None by blast
      ultimately show ?thesis using kc.trans_R by blast
    next
      case (Some k)
      show ?thesis unfolding keeps_conns_def
      proof
        assume c: "conns_ok s"
        then have t: "conns_ok t" "next_conn s \<le> next_conn t" "k \<notin> set (open_conns s)" "open_conns t = k # open_conns s"
          using acquiresD(1,2,5) [OF assms(1) ok(1) c] Some by blast+
        then show "conns_ok s' \<and> next_conn s \<le> next_conn s' \<and> open_conns s' = open_conns s"
          using assms(3) [OF Some, unfolded closes_def, rule_format, OF ok(2) t(1)] by (simp add: removeAll_id)
      qed
    qed
  qed
qed

lemma closes_deferring:
  assumes "steps (same_conns k) m"
  shows "closes k (deferring m (close_conn k))"
  unfolding closes_def
proof (intro allI impI)
  fix s r s' assume "deferring m (close_conn k) s = Some (r, s')" and c: "conns_ok s"
  then obtain t where t: "m s = Some (r, t)" "s' = close_conn k t"
    by (auto simp: deferring_def split: option.splits)
  have "same_conns k s t" using assms t(1) by (auto simp: steps_def)
  then show "conns_ok s' \<and> next_conn s \<le> next_conn s' \<and> open_conns s' = removeAll k (open_conns s)"
    using c t(2) by (auto simp: same_conns_def close_conn_def conns_ok_def list_all_iff)
qed

named_theorems kc_rules \<open>functions that keep the open connections\<close>

lemmas [kc_rules] = kc.steps_basic kc.steps_bnd kc.steps_attempt kc_call_out kc_answer kc_assign kc_model_op

lemma kc_deferring_ready [kc_rules]: "steps keeps_conns m \<Longrightarrow> steps keeps_conns (deferring m (set_ready r))"
  by (rule kc.steps_deferring) (auto simp: set_ready_def intro: keeps_simple)

lemma kc_createConnectionId [kc_rules]: "steps keeps_conns createConnectionId"
  by (auto simp: createConnectionId_def intro!: kc_rules kc.steps_modify keeps_simple)

lemma kc_new [kc_rules]: "steps keeps_conns (new_ClientConnection c)"
  by (auto simp: new_ClientConnection_def intro!: kc_rules kc.steps_modify keeps_simple)

lemma kc_Vni [kc_rules]: "steps keeps_conns (Vni_call l r)"
  by (auto simp: steps_def Vni_call_def intro!: keeps_simple split: prod.splits)

lemma kc_select [kc_rules]: "steps keeps_conns (select_call c ns es)"
  by (auto simp: steps_def select_call_def intro!: keeps_simple split: prod.splits)

lemma kc_dp_Request [kc_rules]: "steps keeps_conns (dataplaneClient_Request env dp x)"
  and kc_dp_Close [kc_rules]: "steps keeps_conns (dataplaneClient_Close env dp x)"
  and kc_Discovery [kc_rules]: "steps keeps_conns (NetworkServiceDiscovery env)"
  and kc_Find [kc_rules]: "steps keeps_conns (FindNetworkService env n)"
  and kc_Wait [kc_rules]: "steps keeps_conns (WaitForDataplaneAvailable env)"
  by (auto simp: dataplaneClient_Request_def dataplaneClient_Close_def NetworkServiceDiscovery_def
      FindNetworkService_def WaitForDataplaneAvailable_def intro!: kc_rules split: option.split)

lemma kc_port [kc_rules]: "steps keeps_conns (WaitForPortAvailable env a)"
  by (auto simp: steps_def WaitForPortAvailable_def intro: keeps_simple split: if_splits)

lemma kc_selectRemote [kc_rules]: "steps keeps_conns (selectRemoteMechanism ms dp)"
  by (induction ms) (auto simp: Let_def intro!: kc_rules split: option.split)

lemma kc_updateMechanism [kc_rules]: "steps keeps_conns (updateMechanism c r dp)"
  by (cases "(c, r, dp)" rule: updateMechanism.cases) (auto intro!: kc_rules split: option.split)

lemma kc_createRemote [kc_rules]: "steps keeps_conns (createRemoteNSMRequest e c dp x)"
  by (auto simp: createRemoteNSMRequest_def Let_def intro!: kc_rules split: option.split)

lemma kc_createLocal [kc_rules]: "steps keeps_conns (createLocalNSERequest e c)"
  by (auto simp: createLocalNSERequest_def intro!: kc_rules)

lemma kc_client_Request [kc_rules]: "steps keeps_conns (client_Request env cl m)"
  by (cases "(env, cl, m)" rule: client_Request.cases) (auto intro!: kc_rules)

lemma kc_validate [kc_rules]: "steps keeps_conns (validateNSEConnection c)"
  by (auto simp: validateNSEConnection_def intro!: kc_rules split: option.split)

lemma kc_params [kc_rules]: "steps keeps_conns (updateConnectionParameters c e)"
  by (auto simp: updateConnectionParameters_def intro!: kc_rules split: option.split NSMConnection.split)

lemma kc_xcon [kc_rules]: "steps keeps_conns (createCrossConnect c e r n)"
  by (auto simp: createCrossConnect_def Let_def intro!: kc_rules)

fun conn_of :: "NetworkServiceClient \<Rightarrow> nat" where
  "conn_of (endpointClient _ c) = c"
| "conn_of (nsmClient _ c) = c"

lemma Cleanup_conn: "Cleanup cl = close_conn (conn_of cl)"
  by (cases cl) auto

lemma acq_createNSEClient: "acquires (createNSEClient env e) (Some \<circ> conn_of)"
  unfolding createNSEClient_def EndpointConnection_def RemoteNetworkServiceClient_def
  by (auto intro!: acq_pre acq_open acq_throw acq_map [where f = Some] kc_rules split: option.split)

lemma acq_Dataplane: "acquires (DataplaneConnection env dp) Some"
  unfolding DataplaneConnection_def
  by (auto intro!: acq_pre acq_open acq_throw kc_rules split: option.split)

lemma kc_with_client:
  assumes "\<And>e. steps keeps_conns (g (Inl e))"
    and "\<And>cl. steps (same_conns (conn_of cl)) (body cl)"
    and "\<And>cl. g (Inr cl) = deferring (body cl) (Cleanup cl)"
  shows "steps keeps_conns (bnd (attempt (createNSEClient env e)) g)"
proof (rule acq_use [OF acq_attempt [OF acq_createNSEClient]])
  show "steps keeps_conns (g x)" if "case_sum (\<lambda>_. None) (Some \<circ> conn_of) x = None" for x
    using that assms(1) by (cases x) auto
  show "closes k (g x)" if "case_sum (\<lambda>_. None) (Some \<circ> conn_of) x = Some k" for x k
    using that assms(2,3) by (cases x) (auto simp: Cleanup_conn intro: closes_deferring)
qed

lemma kc_message [kc_rules]: "steps keeps_conns (nse_message e c dp x)"
  unfolding nse_message_def by (auto intro!: kc_rules)

lemma kc_accept [kc_rules]: "steps keeps_conns (accept_connection e c r dp n)"
  unfolding accept_connection_def by (auto intro!: kc_rules split: option.split prod.split)

lemma kc_perform [kc_rules]: "steps keeps_conns (performNSERequest env e c r dp x)"
  unfolding performNSERequest_def
  by (rule kc_with_client; (simp (no_asm))?)
    (auto intro!: steps_keeps_same kc_rules split: option.split prod.split)

lemma kc_getEndpoint [kc_rules]: "steps keeps_conns (getEndpoint env c ig)"
  unfolding getEndpoint_def Let_def
  by (auto intro!: kc_rules split: option.split NSMConnection.split)

lemma kc_next [kc_rules]: "steps keeps_conns (next_endpoint env c x ig)"
  unfolding next_endpoint_def by (auto intro!: kc_rules split: option.split)

lemma kc_find [kc_rules]: "steps keeps_conns (findConnectNSE fuel env ig le r c x dp)"
proof (induction fuel arbitrary: ig le)
  case 0
  then show ?case by (simp add: steps_def)
next
  case (Suc fuel)
  then show ?case by (auto intro!: kc_rules split: sum.split option.split)
qed

lemma sc_client_Close: "steps (same_conns (conn_of cl)) (client_Close env cl c)"
  by (cases "(env, cl, c)" rule: client_Close.cases)
    (auto intro!: sc.steps_bnd sc.steps_basic sc.steps_modify steps_keeps_same [OF kc_call_out]
      steps_keeps_same [OF kc_answer(2)]
      simp: same_conns_def close_conn_def conns_ok_def list_all_iff)

lemma kc_closeNSE [kc_rules]: "steps keeps_conns (closeNSE env r)"
  unfolding closeNSE_def Let_def
  by (intro kc.steps_bnd kc.steps_basic kc_with_client; (simp (no_asm))?)
    (auto intro!: sc.steps_bnd sc.steps_basic sc.steps_attempt sc_client_Close kc_rules split: option.split)

lemma kc_with_dp:
  assumes "\<And>k. steps keeps_conns (body k)"
  shows "steps keeps_conns (bnd (DataplaneConnection env dp) (\<lambda>k. deferring (body k) (close_conn k)))"
  by (rule acq_use [OF acq_Dataplane]) (auto intro: closes_deferring steps_keeps_same assms)

lemma kc_closeDataplane [kc_rules]: "steps keeps_conns (closeDataplane env r)"
  unfolding closeDataplane_def by (auto intro!: kc_with_dp kc_rules split: option.split)

lemma kc_close [kc_rules]: "steps keeps_conns (close_connection env r b)"
  unfolding close_connection_def by (auto intro!: kc_rules)

lemma kc_Close [kc_rules]: "steps keeps_conns (Close env r)"
  unfolding Close_def by (rule kc_close)

lemma kc_program [kc_rules]: "steps keeps_conns (programDataplane env dp r)"
  unfolding programDataplane_def dataplane_attempt_def by (auto intro!: kc_rules split: option.split)

lemma kc_prepare [kc_rules]: "steps keeps_conns (prepare_update env c r dp)"
  unfolding prepare_update_def by (auto intro!: kc_rules)

lemma kc_failing [kc_rules]: "steps keeps_conns m \<Longrightarrow> steps keeps_conns (failing_closes env b x m)"
  unfolding failing_closes_def by (auto intro!: kc_rules split: sum.split option.split bool.split)

lemma kc_serve [kc_rules]: "steps keeps_conns (serve fuel env r c x dp b b')"
  unfolding serve_def by (auto intro!: kc_rules split: option.split)

lemma kc_request [kc_rules]: "steps keeps_conns (request_connection fuel env r x)"
  unfolding request_connection_def by (auto intro!: kc_with_dp kc_rules split: option.split prod.split)

lemma kc_requestOrClose [kc_rules]: "steps keeps_conns (requestOrClose fuel env q r)"
  unfolding requestOrClose_def by (auto intro!: kc_rules split: sum.split)

lemma kc_heal [kc_rules]: "steps keeps_conns (heal_body fuel env r h)"
  by (cases h) (auto intro!: kc_rules split: sum.split option.split)

subsection \<open>What asking endpoints leaves alone\<close>

text \<open>The calls made while an endpoint is looked for.\<close>

fun nse_call :: "call \<Rightarrow> bool" where
  "nse_call (C_EndpointConnection _) = True"
| "nse_call (C_RemoteClient _) = True"
| "nse_call (C_NSERequest _ _) = True"
| "nse_call (C_NSMRequest _ _) = True"
| "nse_call C_Discovery = True"
| "nse_call (C_FindNetworkService _) = True"
| "nse_call _ = False"

text \<open>
  \<open>quiet P\<close>: the model keeps its connections, endpoints, dataplanes and
  listeners, no existing connection object changes, and only calls that satisfy
  \<open>P\<close> are made.
\<close>

definition quiet :: "(call \<Rightarrow> bool) \<Rightarrow> manager \<Rightarrow> manager \<Rightarrow> bool" where
  "quiet P s s' \<longleftrightarrow>
     clientConnections (mdl s') = clientConnections (mdl s) \<and> dataplanes (mdl s') = dataplanes (mdl s) \<and>
     endpoints (mdl s') = endpoints (mdl s) \<and> listeners (mdl s') = listeners (mdl s) \<and>
     impl_nsm (mdl s') = impl_nsm (mdl s) \<and> workspaceByEndpoint s' = workspaceByEndpoint s \<and>
     excluded_prefixes s' = excluded_prefixes s \<and> next_ref s \<le> next_ref s' \<and>
     (\<forall>r < next_ref s. deref r s' = deref r s) \<and> (\<exists>cs. trace s' = trace s @ cs \<and> list_all P cs)"

interpretation qt: frame "quiet P" for P
proof
  show "quiet P s s" for s by (auto simp: quiet_def)
  fix s t u assume st: "quiet P s t" and tu: "quiet P t u"
  from st obtain cs where "trace t = trace s @ cs" "list_all P cs" by (auto simp: quiet_def)
  moreover from tu obtain ds where "trace u = trace t @ ds" "list_all P ds" by (auto simp: quiet_def)
  ultimately have "trace u = trace s @ (cs @ ds) \<and> list_all P (cs @ ds)" by simp
  then show "quiet P s u" using st tu unfolding quiet_def by (metis less_le_trans order_trans)
qed

lemma quiet_simple:
  assumes "mdl s' = mdl s" "next_ref s' = next_ref s" "trace s' = trace s"
    "workspaceByEndpoint s' = workspaceByEndpoint s" "excluded_prefixes s' = excluded_prefixes s"
  shows "quiet P s s'"
  using assms by (auto simp: quiet_def deref_def)

named_theorems qt_rules \<open>functions that are quiet\<close>

lemmas [qt_rules] = qt.steps_basic qt.steps_bnd qt.steps_attempt

lemma qt_call_out [qt_rules]: "P c \<Longrightarrow> steps (quiet P) (call_out c)"
  by (auto simp: call_out_def quiet_def deref_def intro!: qt.steps_modify)

lemma qt_answer [qt_rules]: "steps (quiet P) (answer r)" "steps (quiet P) (answer_err e)"
  by (auto simp: answer_def answer_err_def intro: qt.steps_basic split: sum.split option.split)

lemma qt_open [qt_rules]: "steps (quiet P) open_conn"
  by (auto simp: open_conn_def intro!: qt_rules qt.steps_modify quiet_simple)

lemma qt_deferring [qt_rules]:
  "steps (quiet P) m \<Longrightarrow> steps (quiet P) (deferring m (close_conn k))"
  "steps (quiet P) m \<Longrightarrow> steps (quiet P) (deferring m (Cleanup cl))"
  by (auto simp: Cleanup_conn close_conn_def intro!: qt.steps_deferring quiet_simple)

lemma qt_createConnectionId [qt_rules]: "steps (quiet P) createConnectionId"
  by (auto simp: createConnectionId_def NextConnectionId_def Let_def quiet_def deref_def
      intro!: qt_rules qt.steps_modify)

lemma qt_new [qt_rules]: "steps (quiet P) (new_ClientConnection c)"
  by (auto simp: new_ClientConnection_def quiet_def deref_def intro!: qt_rules qt.steps_modify)

lemma qt_Vni [qt_rules]: "steps (quiet P) (Vni_call l r)"
  by (auto simp: steps_def Vni_call_def intro!: quiet_simple split: prod.splits)

lemma qt_select [qt_rules]: "steps (quiet P) (select_call c ns es)"
  by (auto simp: steps_def select_call_def quiet_def deref_def split: prod.splits)

lemma qt_port [qt_rules]: "steps (quiet P) (WaitForPortAvailable env a)"
  by (auto simp: steps_def WaitForPortAvailable_def intro: quiet_simple split: if_splits)

lemma qt_selectRemote [qt_rules]: "steps (quiet P) (selectRemoteMechanism ms dp)"
  by (induction ms) (auto simp: Let_def intro!: qt_rules split: option.split)

lemma qt_updateMechanism [qt_rules]: "steps (quiet P) (updateMechanism c r dp)"
  by (cases "(c, r, dp)" rule: updateMechanism.cases) (auto intro!: qt_rules split: option.split)

lemma qt_createRemote [qt_rules]: "steps (quiet P) (createRemoteNSMRequest e c dp x)"
  by (auto simp: createRemoteNSMRequest_def Let_def intro!: qt_rules split: option.split)

lemma qt_createLocal [qt_rules]: "steps (quiet P) (createLocalNSERequest e c)"
  by (auto simp: createLocalNSERequest_def intro!: qt_rules)

lemma qt_client [qt_rules]: "steps (quiet nse_call) (createNSEClient env e)"
  unfolding createNSEClient_def EndpointConnection_def RemoteNetworkServiceClient_def
  by (auto intro!: qt_rules split: option.split)

lemma qt_client_Request [qt_rules]: "steps (quiet nse_call) (client_Request env cl m)"
  by (cases "(env, cl, m)" rule: client_Request.cases) (auto intro!: qt_rules)

lemma qt_validate [qt_rules]: "steps (quiet P) (validateNSEConnection c)"
  by (auto simp: validateNSEConnection_def intro!: qt_rules split: option.split)

lemma qt_params [qt_rules]: "steps (quiet P) (updateConnectionParameters c e)"
  by (auto simp: updateConnectionParameters_def intro!: qt_rules split: option.split NSMConnection.split)

lemma qt_xcon [qt_rules]: "steps (quiet P) (createCrossConnect c e r n)"
  by (auto simp: createCrossConnect_def Let_def intro!: qt_rules)

lemma qt_message [qt_rules]: "steps (quiet P) (nse_message e c dp x)"
  unfolding nse_message_def by (auto intro!: qt_rules)

lemma qt_accept [qt_rules]: "steps (quiet P) (accept_connection e c r dp n)"
  unfolding accept_connection_def by (auto intro!: qt_rules split: option.split prod.split)

lemma qt_perform [qt_rules]: "steps (quiet nse_call) (performNSERequest env e c r dp x)"
  unfolding performNSERequest_def by (auto intro!: qt_rules split: sum.split option.split prod.split)

lemma qt_getEndpoint [qt_rules]: "steps (quiet nse_call) (getEndpoint env c ig)"
  unfolding getEndpoint_def Let_def NetworkServiceDiscovery_def FindNetworkService_def
  by (auto intro!: qt_rules split: option.split NSMConnection.split)

lemma qt_next [qt_rules]: "steps (quiet nse_call) (next_endpoint env c x ig)"
  unfolding next_endpoint_def by (auto intro!: qt_rules split: option.split)

lemma qt_find [qt_rules]: "steps (quiet nse_call) (findConnectNSE fuel env ig le r c x dp)"
proof (induction fuel arbitrary: ig le)
  case 0
  then show ?case by (simp add: steps_def)
next
  case (Suc fuel)
  then show ?case by (auto intro!: qt_rules split: sum.split option.split)
qed

subsection \<open>The connection a successful endpoint request creates\<close>

text \<open>
  Both ends of the new cross connect carry the context the endpoint chose, which
  meets what was asked for; the destination is complete.
\<close>

definition connected :: "NSMConnection \<Rightarrow> Dataplane \<Rightarrow> ClientConnection \<Rightarrow> bool" where
  "connected c dp cc \<longleftrightarrow>
     CC_ConnectionId cc = GetId c \<and> CC_Dataplane cc = Some dp \<and> ConnectionState cc = CC_Requesting \<and>
     (\<exists>x src dst. Xcon cc = Some x \<and> X_Id x = GetId c \<and> X_Source x = Some src \<and> X_Destination x = Some dst \<and>
        GetId src = GetId c \<and> GetContext src = GetContext dst \<and>
        NSMConnection_IsComplete dst = None \<and> MeetsRequirements (GetContext src) (GetContext c) = None)"

lemma UpdateContext_ok:
  assumes "UpdateContext c x = (c', None)"
  shows "GetContext c' = x \<and> GetId c' = GetId c \<and> MeetsRequirements x (GetContext c) = None"
  using assms
  by (cases c) (auto simp: LocalConnection_UpdateContext_def RemoteConnection_UpdateContext_def Let_def
      split: option.splits)

lemma Workspace_neq [simp]: "NetNsInodeKey \<noteq> Workspace" "InterfaceNameKey \<noteq> Workspace"
  by (simp_all add: Workspace_def NetNsInodeKey_def InterfaceNameKey_def)

lemma mechanism_valid_workspace:
  "LM_Parameters m = Some ps \<Longrightarrow>
   LocalMechanism_IsValid (Some (m\<lparr>LM_Parameters := Some (AList.update Workspace w ps)\<rparr>)) =
   LocalMechanism_IsValid (Some m)"
  by (auto simp: LocalMechanism_IsValid_def Let_def split: option.splits sum.splits)

lemma params_ok:
  assumes "updateConnectionParameters n e s = Some (Inr n', s')"
  shows "NSMConnection_IsComplete n' = NSMConnection_IsComplete n \<and> GetContext n' = GetContext n"
proof -
  have "n' = n \<or> (\<exists>c m ps w. n = Local c \<and> L_Mechanism c = Some m \<and> LM_Parameters m = Some ps \<and>
      n' = Local (c\<lparr>L_Mechanism := Some (m\<lparr>LM_Parameters := Some (AList.update Workspace w ps)\<rparr>)\<rparr>))"
    using assms by (auto simp: updateConnectionParameters_def go_run split: if_splits option.splits NSMConnection.splits)
  then show ?thesis
    by (auto simp: LocalConnection_IsComplete_def LocalConnection_IsValid_def mechanism_valid_workspace)
qed

lemma attempt_Inr: "attempt m s = Some (Inr (Inr x), s') \<Longrightarrow> m s = Some (Inr x, s')"
  by (auto simp: attempt_def split: option.splits sum.splits error.splits)

lemma attempt_Inl: "attempt m s = Some (Inr (Inl e), s') \<Longrightarrow> m s = Some (Inl (Errorf e), s')"
  by (auto simp: attempt_def split: option.splits sum.splits error.splits)

lemma attempt_panic: "attempt m s = Some (Inl e, s') \<Longrightarrow> \<exists>p. e = Panic p \<and> m s = Some (Inl e, s')"
  by (auto simp: attempt_def split: option.splits sum.splits error.splits)

lemma deferring_SomeE:
  assumes "deferring m d s = Some (r, s')"
  obtains t where "m s = Some (r, t)" "s' = d t"
  using assms by (auto simp: deferring_def split: option.splits)

lemma validate_ok: "validateNSEConnection n s = Some (Inr u, t) \<Longrightarrow> NSMConnection_IsComplete n = None"
  by (auto simp: validateNSEConnection_def go_run split: option.splits)

lemma xcon_ok:
  assumes "createCrossConnect c e q n s = Some (Inr x, s')"
  shows "X_Id x = GetId c \<and> X_Source x = Some c \<and> X_Destination x = Some n"
  using assms by (auto simp: createCrossConnect_def go_run Let_def split: if_splits)

lemma new_ok:
  assumes "new_ClientConnection cc s = Some (Inr r, s')"
  shows "r = next_ref s \<and> next_ref s' = Suc r \<and> deref r s' = cc"
  using assms by (auto simp: new_ClientConnection_def go_run deref_def)

lemma steps_ref_le: "steps (quiet P) m \<Longrightarrow> m s = Some (r, s') \<Longrightarrow> next_ref s \<le> next_ref s'"
  by (auto simp: steps_def quiet_def)

lemma accept_ok:
  assumes "accept_connection e c q dp n s = Some (Inr r, s')"
  shows "connected c dp (deref r s') \<and> Endpoint (deref r s') = e \<and> next_ref s \<le> r \<and> next_ref s' = Suc r"
proof -
  obtain t where v: "validateNSEConnection n s = Some (Inr (), t)"
    and r1: "(case UpdateContext c (GetContext n) of
       (_, Some _) \<Rightarrow> throw (Errorf ''NSM:(7.2.6.2.3-%v) failure Validating NSE Connection: %s'')
     | (c', None) \<Rightarrow>
         bnd (updateConnectionParameters n e) (\<lambda>n'.
         bnd (createCrossConnect c' e q n') (\<lambda>x.
         bnd get_state (\<lambda>s.
         new_ClientConnection \<lparr>CC_ConnectionId = GetId c', Xcon = Some x,
            RemoteNsm = (if isLocalEndpoint s e then None else Reg_GetNetworkServiceManager e),
            Endpoint = e, CC_Dataplane = Some dp,
            ConnectionState = CC_Requesting, CC_Request = None\<rparr>)))) t = Some (Inr r, s')"
    using assms unfolding accept_connection_def by (auto elim!: bnd_SomeE)
  obtain c' where c': "UpdateContext c (GetContext n) = (c', None)"
    using r1 by (auto simp: go_run split: prod.splits option.splits)
  with r1 obtain n' t1 x t2 m where p: "updateConnectionParameters n e t = Some (Inr n', t1)"
    and x: "createCrossConnect c' e q n' t1 = Some (Inr x, t2)"
    and w: "new_ClientConnection \<lparr>CC_ConnectionId = GetId c', Xcon = Some x, RemoteNsm = m,
            Endpoint = e, CC_Dataplane = Some dp,
            ConnectionState = CC_Requesting, CC_Request = None\<rparr> t2 = Some (Inr r, s')"
    by (auto simp: go_run elim!: bnd_SomeE)
  have "next_ref s \<le> next_ref t2"
    using steps_ref_le [OF qt_validate v] steps_ref_le [OF qt_params p] steps_ref_le [OF qt_xcon x]
    by (meson order_trans)
  then show ?thesis
    using validate_ok [OF v] UpdateContext_ok [OF c'] params_ok [OF p] xcon_ok [OF x] new_ok [OF w]
    by (auto simp: connected_def)
qed

lemma perform_result:
  assumes "performNSERequest env e c q dp x s = Some (Inr r, s')"
  shows "connected c dp (deref r s') \<and> Endpoint (deref r s') = e \<and> next_ref s \<le> r \<and> next_ref s' = Suc r"
proof -
  obtain cl t0 where cl: "createNSEClient env e s = Some (Inr cl, t0)"
    and rest: "deferring (bnd (nse_message e c dp x) (\<lambda>m. bnd (client_Request env cl m) (\<lambda>n.
       accept_connection e c q dp n))) (Cleanup cl) t0 = Some (Inr r, s')"
    using assms unfolding performNSERequest_def
    by (auto elim!: bnd_SomeE simp: go_run dest!: attempt_Inr split: sum.splits)
  from rest obtain m t1 n t2 u where m: "nse_message e c dp x t0 = Some (Inr m, t1)"
    and q: "client_Request env cl m t1 = Some (Inr n, t2)"
    and a: "accept_connection e c q dp n t2 = Some (Inr r, u)" and u: "s' = Cleanup cl u"
    by (auto elim!: deferring_SomeE bnd_SomeE)
  have "next_ref s \<le> next_ref t2"
    using steps_ref_le [OF qt_client cl] steps_ref_le [OF qt_message m] steps_ref_le [OF qt_client_Request q]
    by (meson order_trans)
  then show ?thesis using accept_ok [OF a] u by (auto simp: Cleanup_conn close_conn_def deref_def)
qed

lemma connected_prefixes:
  "GetId (updateExcludePrefixes s c) = GetId c"
  by (cases c) (simp_all add: updateExcludePrefixes_def Let_def)

lemma find_result:
  assumes "findConnectNSE fuel env ig le q c x dp s = Some (Inr r, s')"
  shows "\<exists>t. connected (updateExcludePrefixes t c) dp (deref r s') \<and> excluded_prefixes t = excluded_prefixes s \<and>
    next_ref s \<le> r \<and> next_ref s' = Suc r \<and>
    (\<exists>ig' u v. next_endpoint env c x ig' u = Some (Inr (Endpoint (deref r s')), v))"
  using assms
proof (induction fuel arbitrary: ig le s)
  case (Suc fuel)
  from Suc.prems obtain e t where n: "next_endpoint env c x ig s = Some (Inr e, t)"
    and rest: "bnd (attempt (performNSERequest env e (updateExcludePrefixes t c) q dp x)) (\<lambda>cr.
         case cr of Inr clientConnection \<Rightarrow> ret clientConnection
         | Inl err \<Rightarrow> bnd (lift_result (endpoint_name e)) (\<lambda>n.
             findConnectNSE fuel env
               (case e of None \<Rightarrow> ig | Some r \<Rightarrow> AList.update n r ig) (Some err) q c x dp)) t = Some (Inr r, s')"
    unfolding findConnectNSE.simps
    by (erule_tac bnd_SomeE) (auto simp: go_run dest!: attempt_Inr split: sum.splits option.splits)
  have st: "quiet nse_call s t" using qt_next n by (auto simp: steps_def)
  from rest show ?case
  proof (cases rule: bnd_SomeE)
    case (ok cr u)
    have tu: "quiet nse_call t u"
      using qt.steps_attempt [OF qt_perform] ok(1) by (auto simp: steps_def)
    show ?thesis
    proof (cases cr)
      case (Inr r')
      then have "performNSERequest env e (updateExcludePrefixes t c) q dp x t = Some (Inr r, s')"
        using ok attempt_Inr by (auto simp: go_run)
      from perform_result [OF this] show ?thesis using st n by (auto simp: quiet_def)
    next
      case (Inl err)
      then obtain ig' le' where "findConnectNSE fuel env ig' le' q c x dp u = Some (Inr r, s')"
        using ok(2) by (auto elim!: bnd_SomeE simp: go_run)
      moreover have "excluded_prefixes u = excluded_prefixes s" "next_ref s \<le> next_ref u"
        using st tu by (auto simp: quiet_def)
      ultimately show ?thesis using Suc.IH [of ig' le' u] by (metis order_trans)
    qed
  qed simp
qed simp

subsection \<open>Closing\<close>

text \<open>\<open>still P\<close>: the model does not change at all, and only calls in \<open>P\<close> are made.\<close>

definition still :: "(call \<Rightarrow> bool) \<Rightarrow> manager \<Rightarrow> manager \<Rightarrow> bool" where
  "still P s s' \<longleftrightarrow> mdl s' = mdl s \<and> next_ref s' = next_ref s \<and>
     (\<exists>cs. trace s' = trace s @ cs \<and> list_all P cs)"

interpretation sl: frame "still P" for P
proof
  show "still P s s" for s by (auto simp: still_def)
  fix s t u assume st: "still P s t" and tu: "still P t u"
  from st obtain cs where "trace t = trace s @ cs" "list_all P cs" by (auto simp: still_def)
  moreover from tu obtain ds where "trace u = trace t @ ds" "list_all P ds" by (auto simp: still_def)
  ultimately have "trace u = trace s @ (cs @ ds) \<and> list_all P (cs @ ds)" by simp
  then show "still P s u" using st tu unfolding still_def by metis
qed

fun nse_close_call :: "call \<Rightarrow> bool" where
  "nse_close_call (C_NSEClose _ _) = True"
| "nse_close_call (C_NSMClose _ _) = True"
| "nse_close_call _ = False"

named_theorems sl_rules \<open>functions that do not touch the model\<close>

lemmas [sl_rules] = sl.steps_basic sl.steps_bnd sl.steps_attempt

lemma still_simple: "mdl s' = mdl s \<Longrightarrow> next_ref s' = next_ref s \<Longrightarrow> trace s' = trace s \<Longrightarrow> still P s s'"
  by (simp add: still_def)

lemma sl_call_out [sl_rules]: "P c \<Longrightarrow> steps (still P) (call_out c)"
  by (auto simp: call_out_def still_def intro!: sl.steps_modify)

lemma sl_answer [sl_rules]: "steps (still P) (answer r)" "steps (still P) (answer_err e)"
  by (auto simp: answer_def answer_err_def intro: sl.steps_basic split: sum.split option.split)

lemma sl_open [sl_rules]: "steps (still P) open_conn"
  by (auto simp: open_conn_def intro!: sl_rules sl.steps_modify still_simple)

lemma sl_close_conn [sl_rules]: "steps (still P) (modify (close_conn k))"
  by (auto simp: close_conn_def intro!: sl.steps_modify still_simple)

lemma sl_deferring [sl_rules]:
  "steps (still P) m \<Longrightarrow> steps (still P) (deferring m (close_conn k))"
  "steps (still P) m \<Longrightarrow> steps (still P) (deferring m (Cleanup cl))"
  by (auto simp: Cleanup_conn close_conn_def intro!: sl.steps_deferring still_simple)

lemma sl_port [sl_rules]: "steps (still P) (WaitForPortAvailable env a)"
  by (auto simp: steps_def WaitForPortAvailable_def intro: still_simple split: if_splits)

lemma sl_createNSEClient [sl_rules]:
  "(\<And>e. P (C_EndpointConnection e)) \<Longrightarrow> (\<And>m. P (C_RemoteClient m)) \<Longrightarrow>
   steps (still P) (createNSEClient env e)"
  unfolding createNSEClient_def EndpointConnection_def RemoteNetworkServiceClient_def
  by (auto intro!: sl_rules split: option.split)

lemma sl_client_Close:
  "(\<And>e c. P (C_NSEClose e c)) \<Longrightarrow> (\<And>m c. P (C_NSMClose m c)) \<Longrightarrow> steps (still P) (client_Close env cl c)"
  by (cases "(env, cl, c)" rule: client_Close.cases) (auto intro!: sl_rules)

lemma sl_dataplane [sl_rules]:
  "(\<And>d. P (C_DataplaneConnection d)) \<Longrightarrow> steps (still P) (DataplaneConnection env dp)"
  "(\<And>d. P (C_DataplaneClose d y)) \<Longrightarrow> steps (still P) (dataplaneClient_Close env d' y)"
  "(\<And>d. P (C_DataplaneRequest d y)) \<Longrightarrow> steps (still P) (dataplaneClient_Request env d' y)"
  by (auto simp: DataplaneConnection_def dataplaneClient_Close_def dataplaneClient_Request_def
      intro!: sl_rules split: option.split)

lemma sl_closeDataplane [sl_rules]:
  "(\<And>d. P (C_DataplaneConnection d)) \<Longrightarrow> (\<And>d y. P (C_DataplaneClose d y)) \<Longrightarrow>
   steps (still P) (closeDataplane env r)"
  unfolding closeDataplane_def by (auto intro!: sl_rules split: option.split)

lemma sl_closeNSE:
  assumes "\<And>e. P (C_EndpointConnection e)" "\<And>m. P (C_RemoteClient m)"
    "\<And>e c. P (C_NSEClose e c)" "\<And>m c. P (C_NSMClose m c)"
  shows "steps (still P) (closeNSE env r)"
  unfolding closeNSE_def Let_def using assms
  by (auto intro!: sl_rules sl_client_Close split: option.split sum.split)

text \<open>With no cross connect there is no destination to close.\<close>

lemma closeNSE_no_xcon:
  assumes "closeNSE env r s = Some (res, s')" "Xcon (deref r s) = None"
  shows "still (\<lambda>c. \<not> nse_close_call c) s s'"
proof -
  have sl: "steps (still (\<lambda>c. \<not> nse_close_call c)) (createNSEClient env e)" for e
    by (rule sl_createNSEClient) auto
  from assms(1) have "bnd (attempt (createNSEClient env (Endpoint (deref r s)))) (\<lambda>cr.
     case cr of
       Inl e \<Rightarrow> ret (Some e, None)
     | Inr client \<Rightarrow>
         deferring (bnd get_state (\<lambda>t.
           let xcon = Xcon (deref r t) in
           bnd (case GetLocalDestination xcon of
                  None \<Rightarrow> ret None
                | Some ld \<Rightarrow> bnd (attempt (client_Close env client (Local ld))) (\<lambda>r. ret (err_of r))) (\<lambda>e1.
           bnd (case GetRemoteDestination xcon of
                  None \<Rightarrow> ret e1
                | Some rd \<Rightarrow> bnd (attempt (client_Close env client (Remote rd))) (\<lambda>r. ret (err_of r))) (\<lambda>e2.
           ret (None, e2))))) (Cleanup client)) s = Some (res, s')"
    by (simp add: closeNSE_def go_run)
  then show ?thesis
  proof (cases rule: bnd_SomeE)
    case (error e)
    then show ?thesis using sl.steps_attempt [OF sl] by (auto simp: steps_def)
  next
    case (ok cr t)
    have st: "still (\<lambda>c. \<not> nse_close_call c) s t" using sl.steps_attempt [OF sl] ok(1) by (auto simp: steps_def)
    then have x: "Xcon (deref r t) = None" using assms(2) by (simp add: still_def deref_def)
    show ?thesis
    proof (cases cr)
      case (Inl e)
      then show ?thesis using ok(2) st by (simp add: go_run)
    next
      case (Inr cl)
      then have "s' = Cleanup cl t"
        using ok(2) x by (auto elim!: deferring_SomeE simp: go_run Let_def GetLocalDestination_def GetRemoteDestination_def GetDestination_def)
      then show ?thesis using st by (auto simp: Cleanup_conn close_conn_def still_def)
    qed
  qed
qed

lemma attempt_no_err: "attempt m s \<noteq> Some (Inl (Errorf e), s')"
  by (auto simp: attempt_def split: option.splits sum.splits error.splits)

lemma closeNSE_no_err: "closeNSE env r s \<noteq> Some (Inl (Errorf e), s')"
  by (auto simp: closeNSE_def Let_def go_run attempt_no_err elim!: bnd_SomeE deferring_SomeE
      split: sum.splits option.splits)

lemma run_assign [go_run]:
  "bnd (assign r f) g s = g () (s\<lparr>mdl := (mdl s)\<lparr>store := (store (mdl s))(r := f (store (mdl s) r))\<rparr>\<rparr>)"
  by (simp add: assign_def go_run)

lemma run_model_op [go_run]:
  "bnd (model_op f) g s = g () (s\<lparr>mdl := fst (f (mdl s)),
     trace := trace s @ map (\<lambda>(l, ev). C_Notify l ev) (snd (f (mdl s)))\<rparr>)"
  by (simp add: model_op_def go_run case_prod_beta)

lemma map_of_DeleteClientConnection [simp]:
  "map_of (clientConnections (fst (DeleteClientConnection i c))) = (map_of (clientConnections i))(c := None)"
  by (auto simp: DeleteClientConnection_def fun_eq_iff split: option.split)

lemma DeleteClientConnection_other [simp]:
  "store (fst (DeleteClientConnection i c)) = store i" "dataplanes (fst (DeleteClientConnection i c)) = dataplanes i"
  "listeners (fst (DeleteClientConnection i c)) = listeners i"
  by (auto simp: DeleteClientConnection_def split: option.split)

text \<open>What closing does to the model, when it does not panic.\<close>

definition closed_model :: "cc_ref \<Rightarrow> bool \<Rightarrow> manager \<Rightarrow> manager \<Rightarrow> bool" where
  "closed_model r b s s' \<longleftrightarrow>
     map_of (clientConnections (mdl s')) =
       (if b then (map_of (clientConnections (mdl s)))(CC_ConnectionId (deref r s) := None)
        else map_of (clientConnections (mdl s))) \<and>
     store (mdl s') = (store (mdl s))(r := (store (mdl s) r)\<lparr>ConnectionState := CC_Closed\<rparr>) \<and>
     next_ref s' = next_ref s"

lemma close_ok:
  assumes "close_connection env r b s = Some (res, s')" "ConnectionState (deref r s) \<noteq> CC_Closing"
    and "\<And>p. res \<noteq> Inl (Panic p)"
  shows "closed_model r b s s'"
proof -
  let ?s1 = "s\<lparr>mdl := (mdl s)\<lparr>store := (store (mdl s))(r := (store (mdl s) r)\<lparr>ConnectionState := CC_Closing\<rparr>)\<rparr>\<rparr>"
  let ?fin = "\<lambda>e1 e2 e3. bnd (assign r (\<lambda>c. c\<lparr>ConnectionState := CC_Closed\<rparr>)) (\<lambda>_.
       if e1 \<noteq> None \<or> e2 \<noteq> None \<or> e3 \<noteq> None then throw (Errorf ''Close error: %v'') else ret ())"
  have run: "bnd (closeNSE env r) (\<lambda>(e1, e2).
       bnd (if b then
              bnd (attempt (closeDataplane env r)) (\<lambda>q.
              bnd (model_op (\<lambda>i. DeleteClientConnection i (CC_ConnectionId (deref r s)))) (\<lambda>_.
              ret (err_of q)))
            else ret None) (?fin e1 e2)) ?s1 = Some (res, s')"
    using assms(1,2) by (simp add: close_connection_def go_run)
  from run obtain e1 e2 t where t: "closeNSE env r ?s1 = Some (Inr (e1, e2), t)"
    and r2: "bnd (if b then
              bnd (attempt (closeDataplane env r)) (\<lambda>q.
              bnd (model_op (\<lambda>i. DeleteClientConnection i (CC_ConnectionId (deref r s)))) (\<lambda>_.
              ret (err_of q)))
            else ret None) (?fin e1 e2) t = Some (res, s')"
  proof (cases rule: bnd_SomeE)
    case (error e)
    then show ?thesis using closeNSE_no_err assms(3) by (cases e) blast+
  next
    case (ok x t)
    obtain e1 e2 where x: "x = (e1, e2)" by (cases x)
    show ?thesis by (rule that [of e1 e2 t]) (use ok x in simp_all)
  qed
  have "still (\<lambda>_. True) ?s1 t" by (rule stepsD [OF sl_closeNSE t]) auto
  then have mt: "mdl t = mdl ?s1" "next_ref t = next_ref s" by (simp_all add: still_def)
  show ?thesis
  proof (cases b)
    case False
    then have "\<exists>x. s' = t\<lparr>mdl := (mdl t)\<lparr>store := (store (mdl t))(r := (store (mdl t) r)\<lparr>ConnectionState := CC_Closed\<rparr>)\<rparr>\<rparr>"
      using r2 by (auto simp: go_run split: if_splits)
    then show ?thesis using mt False by (auto simp: closed_model_def deref_def)
  next
    case True
    then have r2': "bnd (attempt (closeDataplane env r)) (\<lambda>q.
        bnd (model_op (\<lambda>i. DeleteClientConnection i (CC_ConnectionId (deref r s)))) (\<lambda>_.
        ?fin e1 e2 (err_of q))) t = Some (res, s')"
      using r2 by (simp only: if_True bnd_assoc bnd_ret_left)
    obtain q u where u: "attempt (closeDataplane env r) t = Some (Inr q, u)"
      and r3: "?fin e1 e2 (err_of q) (u\<lparr>mdl := fst (DeleteClientConnection (mdl u) (CC_ConnectionId (deref r s))),
        trace := trace u @ map (\<lambda>(l, ev). C_Notify l ev)
          (snd (DeleteClientConnection (mdl u) (CC_ConnectionId (deref r s))))\<rparr>) = Some (res, s')"
      using r2'
    proof (cases rule: bnd_SomeE)
      case (error e)
      obtain p where "e = Panic p" using attempt_panic [OF error(1)] by (elim exE conjE)
      then show ?thesis using error(2) assms(3) [of p] by simp
    next
      case (ok q u)
      show ?thesis by (rule that [OF ok(1)]) (use ok(2) in \<open>simp add: run_model_op\<close>)
    qed
    have "still (\<lambda>_. True) t u" by (rule stepsD [OF sl.steps_attempt [OF sl_closeDataplane] u]) auto
    then have "mdl u = mdl t" "next_ref u = next_ref t" by (simp_all add: still_def)
    then show ?thesis using r3 mt True by (auto simp: go_run closed_model_def deref_def split: if_splits)
  qed
qed

subsection \<open>Programming the dataplane\<close>

lemma run_dataplane_attempt:
  "dataplane_attempt env dp r s =
     (let a = e_DataplaneRequest env (trace s) dp (Xcon (deref r s)) in
      Some (Inr (err_of a), s\<lparr>trace := trace s @ [C_DataplaneRequest dp (Xcon (deref r s))],
        mdl := (mdl s)\<lparr>store := (store (mdl s))(r := (store (mdl s) r)
          \<lparr>Xcon := (case a of Inl _ \<Rightarrow> None | Inr x \<Rightarrow> Some x)\<rparr>)\<rparr>\<rparr>))"
  by (auto simp: dataplane_attempt_def dataplaneClient_Request_def attempt_def answer_def call_out_def
      bnd_def get_state_def modify_def ret_def throw_def assign_def err_of_def Let_def split: sum.splits)

definition programmed :: "env \<Rightarrow> Dataplane \<Rightarrow> cc_ref \<Rightarrow> manager \<Rightarrow> manager \<Rightarrow> bool" where
  "programmed env dp r s s' \<longleftrightarrow>
     (\<exists>x y tr. e_DataplaneRequest env tr dp y = Inr x \<and> C_DataplaneRequest dp y \<in> set (trace s') \<and>
        store (mdl s') = (store (mdl s))(r := (store (mdl s) r)\<lparr>Xcon := Some x\<rparr>)) \<and>
     clientConnections (mdl s') = clientConnections (mdl s) \<and> next_ref s' = next_ref s"

lemma bnd_dataplane_attempt:
  "bnd (dataplane_attempt env dp r) f s = f (err_of (e_DataplaneRequest env (trace s) dp (Xcon (deref r s))))
     (s\<lparr>trace := trace s @ [C_DataplaneRequest dp (Xcon (deref r s))],
        mdl := (mdl s)\<lparr>store := (store (mdl s))(r := (store (mdl s) r)
          \<lparr>Xcon := (case e_DataplaneRequest env (trace s) dp (Xcon (deref r s)) of Inl _ \<Rightarrow> None | Inr x \<Rightarrow> Some x)\<rparr>)\<rparr>\<rparr>)"
  by (simp add: bnd_def run_dataplane_attempt Let_def)

text \<open>
  \<open>programDataplane\<close> succeeds with an answer of the dataplane, or fails after two
  attempts and a close of the connection whose cross connect is gone by then.
\<close>

lemma program_cases:
  assumes "programDataplane env dp r s = Some (res, s')"
  obtains (ok) "res = Inr ()" "programmed env dp r s s'"
    | (failed) err t cr u where
        "mdl t = (mdl s)\<lparr>store := (store (mdl s))(r := (store (mdl s) r)\<lparr>Xcon := None\<rparr>)\<rparr>"
        "next_ref t = next_ref s"
        "trace t = trace s @ [C_DataplaneRequest dp (Xcon (deref r s)), C_DataplaneRequest dp None]"
        "close_connection env r True t = Some (cr, u)"
        "(\<exists>p. cr = Inl (Panic p)) \<and> res = cr \<and> s' = u \<or>
         (\<forall>p. cr \<noteq> Inl (Panic p)) \<and> res = Inl (Errorf err) \<and>
         s' = u\<lparr>mdl := fst (DeleteClientConnection (mdl u) (CC_ConnectionId (deref r u))),
           trace := trace u @ map (\<lambda>(l, ev). C_Notify l ev)
             (snd (DeleteClientConnection (mdl u) (CC_ConnectionId (deref r u))))\<rparr>"
proof (cases "e_DataplaneRequest env (trace s) dp (Xcon (deref r s))")
  case (Inr x)
  then have "res = Inr () \<and> programmed env dp r s s'"
    using assms unfolding programDataplane_def
    by (auto simp: bnd_dataplane_attempt err_of_def go_run programmed_def) blast
  then show ?thesis using ok by blast
next
  case (Inl e1)
  define t1 where "t1 = s\<lparr>trace := trace s @ [C_DataplaneRequest dp (Xcon (deref r s))],
        mdl := (mdl s)\<lparr>store := (store (mdl s))(r := (store (mdl s) r)\<lparr>Xcon := None\<rparr>)\<rparr>\<rparr>"
  have x1: "Xcon (deref r t1) = None" by (simp add: t1_def deref_def)
  have run: "bnd (dataplane_attempt env dp r) (\<lambda>e2.
         case e2 of None \<Rightarrow> ret () | Some err \<Rightarrow>
             bnd (attempt (close_connection env r True)) (\<lambda>_.
             bnd get_state (\<lambda>s.
             bnd (model_op (\<lambda>i. DeleteClientConnection i (CC_ConnectionId (deref r s)))) (\<lambda>_.
             throw (Errorf err))))) t1 = Some (res, s')"
    using assms Inl unfolding programDataplane_def t1_def by (simp add: bnd_dataplane_attempt err_of_def)
  show ?thesis
  proof (cases "e_DataplaneRequest env (trace t1) dp None")
    case (Inr x)
    then have "res = Inr () \<and> programmed env dp r s s'"
      using run x1 by (auto simp: bnd_dataplane_attempt err_of_def go_run programmed_def t1_def) blast
    then show ?thesis using ok by blast
  next
    case (Inl e2)
    define t where "t = t1\<lparr>trace := trace t1 @ [C_DataplaneRequest dp None],
        mdl := (mdl t1)\<lparr>store := (store (mdl t1))(r := (store (mdl t1) r)\<lparr>Xcon := None\<rparr>)\<rparr>\<rparr>"
    have run2: "bnd (attempt (close_connection env r True)) (\<lambda>_.
             bnd get_state (\<lambda>s.
             bnd (model_op (\<lambda>i. DeleteClientConnection i (CC_ConnectionId (deref r s)))) (\<lambda>_.
             throw (Errorf e2)))) t = Some (res, s')"
      using run Inl x1 unfolding t_def by (simp add: bnd_dataplane_attempt err_of_def)
    have t: "mdl t = (mdl s)\<lparr>store := (store (mdl s))(r := (store (mdl s) r)\<lparr>Xcon := None\<rparr>)\<rparr>"
        "next_ref t = next_ref s"
        "trace t = trace s @ [C_DataplaneRequest dp (Xcon (deref r s)), C_DataplaneRequest dp None]"
      by (simp_all add: t_def t1_def)
    from run2 show ?thesis
    proof (cases rule: bnd_SomeE)
      case (error e)
      obtain p where p: "e = Panic p" "close_connection env r True t = Some (Inl e, s')"
        using attempt_panic [OF error(1)] by (elim exE conjE)
      show ?thesis by (rule failed [OF t p(2)]) (use p(1) error(2) in simp)
    next
      case (ok cr u)
      obtain cr' where c: "close_connection env r True t = Some (cr', u)" "\<forall>p. cr' \<noteq> Inl (Panic p)"
        using ok(1) by (cases cr) (auto dest!: attempt_Inl attempt_Inr)
      show ?thesis by (rule failed [OF t c(1), of e2]) (use c(2) ok(2) in \<open>simp add: go_run\<close>)
    qed
  qed
qed

end
