(* ===== verification/ManagerRequest.thy ===== *)
theory ManagerRequest
  imports ManagerProps
begin

text \<open>
  Requests for new connections: what a success and what a failure leave behind,
  and that looking for an endpoint ends.
\<close>

text \<open>The calls a request makes before it registers the connection.\<close>

fun early_call :: "call \<Rightarrow> bool" where
  "early_call (C_DataplaneConnection _) = True"
| "early_call c = nse_call c"

text \<open>The last part of a request for a new connection: steps 8 to 11.\<close>

definition finish_new :: "env \<Rightarrow> NSMRequest \<Rightarrow> Dataplane \<Rightarrow> cc_ref \<Rightarrow> NSMConnection mgo" where
  "finish_new env q dp r =
     bnd (assign r (\<lambda>c. c\<lparr>CC_Request := Some q\<rparr>)) (\<lambda>_.
     bnd (model_op (\<lambda>i. AddClientConnection i r)) (\<lambda>_.
     bnd (programDataplane env dp r) (\<lambda>_.
     bnd (assign r (\<lambda>c. c\<lparr>ConnectionState := CC_Ready\<rparr>)) (\<lambda>_.
     bnd get_state (\<lambda>s. lift_result (source_of (IsRemote q) (Xcon (deref r s))))))))"

text \<open>What a registered connection looks like.\<close>

definition registered :: "string \<Rightarrow> NSMRequest \<Rightarrow> Dataplane \<Rightarrow> NSMConnection \<Rightarrow> manager \<Rightarrow> bool" where
  "registered cid q dp c s \<longleftrightarrow>
     (\<exists>r cc x. map_of (clientConnections (mdl s)) cid = Some r \<and> deref r s = cc \<and>
        CC_ConnectionId cc = cid \<and> ConnectionState cc = CC_Ready \<and> CC_Dataplane cc = Some dp \<and>
        (\<exists>q'. CC_Request cc = Some q' \<and> IsRemote q' = IsRemote q) \<and>
        Xcon cc = Some x \<and> X_Source x = Some c)"

lemma serve_new:
  "serve fuel env q c None dp b b' = bnd (findConnectNSE fuel env [] None q c None dp) (finish_new env q dp)"
  by (simp add: serve_def finish_new_def [abs_def] bnd_ret_left)

lemma quiet_mono: "quiet P s s' \<Longrightarrow> (\<And>c. P c \<Longrightarrow> Q c) \<Longrightarrow> quiet Q s s'"
  unfolding quiet_def by (meson list.pred_mono_strong)

lemma nse_early: "nse_call c \<Longrightarrow> early_call c"
  by (cases c) auto

lemma still_quiet:
  assumes "still P s s'" "workspaceByEndpoint s' = workspaceByEndpoint s"
    "excluded_prefixes s' = excluded_prefixes s"
  shows "quiet P s s'"
  using assms by (auto simp: still_def quiet_def deref_def)

lemma qt_Dataplane: "steps (quiet early_call) (DataplaneConnection env dp)"
  by (auto simp: DataplaneConnection_def intro!: qt_rules split: option.split)

lemma updateMechanism_kind:
  assumes "updateMechanism c q dp s = Some (Inr (c', q'), s')"
  shows "GetId c' = GetId c \<and> IsRemote q' = IsRemote q"
  using assms
  by (cases "(c, q, dp)" rule: updateMechanism.cases)
    (auto simp: go_run elim!: bnd_SomeE split: option.splits)

lemma GetId_SetId [simp]: "GetId (SetId c i) = i"
  by (cases c) auto

lemma NextConnectionId_other [simp]:
  "clientConnections (snd (NextConnectionId i)) = clientConnections i"
  "dataplanes (snd (NextConnectionId i)) = dataplanes i" "store (snd (NextConnectionId i)) = store i"
  "endpoints (snd (NextConnectionId i)) = endpoints i" "listeners (snd (NextConnectionId i)) = listeners i"
  "impl_nsm (snd (NextConnectionId i)) = impl_nsm i"
  by (simp_all add: NextConnectionId_def Let_def)

lemma failing_closes_new [simp]: "failing_closes env b None m = m"
  by (cases b) (auto simp: failing_closes_def bnd_def attempt_def throw_def ret_def fun_eq_iff
      split: option.split sum.split error.split)

lemma run_bnd_lift [go_run]:
  "bnd (lift_result r) f s = (case r of Inl e \<Rightarrow> Some (Inl e, s) | Inr x \<Rightarrow> f x s)"
  by (simp add: bnd_def lift_result_def split: sum.split)

lemma run_createConnectionId [go_run]:
  "bnd createConnectionId f s = f (fst (NextConnectionId (mdl s))) (s\<lparr>mdl := snd (NextConnectionId (mdl s))\<rparr>)"
  by (simp add: createConnectionId_def bnd_assoc go_run)

text \<open>A request for a new connection, cut where it registers the connection.\<close>

lemma new_request_cases:
  assumes run: "Request fuel env q s = Some (res, s')"
    and new: "GetClientConnection (mdl s) (GetConnectionId q) = None"
  obtains (early) e where "res = Inl e" "quiet early_call s s'"
    | (late) c q' dp r t u v k where "quiet early_call s t"
        "dp \<in> snd ` set (e_dataplane_order env (trace s) (dataplanes (mdl s)))"
        "GetId c = fst (NextConnectionId (mdl s))" "IsRemote q' = IsRemote q"
        "findConnectNSE fuel env [] None q' c None dp t = Some (Inr r, u)"
        "finish_new env q' dp r u = Some (res, v)" "s' = close_conn k v"
proof -
  let ?s1 = "s\<lparr>mdl := snd (NextConnectionId (mdl s))\<rparr>"
  let ?cid = "fst (NextConnectionId (mdl s))"
  have q1: "quiet early_call s ?s1" by (auto simp: quiet_def deref_def)
  have q0: "quiet early_call s s" by (rule qt.refl_R)
  have r0: "request_connection fuel env q None s = Some (res, s')"
    using run new by (simp add: Request_def go_run)
  show ?thesis
  proof (cases "NSMRequest_IsValid q \<noteq> None \<or> (\<exists>e. newConnection q = Inl e) \<or>
      (\<exists>e. SelectDataplane (e_dataplane_order env (trace s)) (mdl ?s1) = Inl e)")
    case True
    then have "(\<exists>e. res = Inl e) \<and> (s' = s \<or> s' = ?s1)"
      using r0 by (auto simp: request_connection_def go_run split: option.splits sum.splits) metis
    then show ?thesis using early q0 q1 by blast
  next
    case False
    then obtain newc dp where newc: "newConnection q = Inr newc"
      and dp: "SelectDataplane (e_dataplane_order env (trace s)) (mdl ?s1) = Inr dp"
      by (metis sum.exhaust_sel)
    have dpin: "dp \<in> snd ` set (e_dataplane_order env (trace s) (dataplanes (mdl s)))"
      using dp by (auto simp: SelectDataplane_def split: list.splits)
    have "bnd (updateMechanism (SetId newc ?cid) q dp) (\<lambda>(c, q').
          bnd (DataplaneConnection env (Some dp)) (\<lambda>k.
          deferring (serve fuel env q' c None dp False False) (close_conn k))) ?s1 = Some (res, s')"
      using r0 False newc dp by (simp add: request_connection_def go_run)
    then show ?thesis
    proof (cases rule: bnd_SomeE)
      case (error e)
      show ?thesis
        by (rule early [OF error(2)]) (rule qt.trans_R [OF q1 stepsD [OF qt_updateMechanism error(1)]])
    next
      case (ok cq t1)
      obtain c q' where cq: "cq = (c, q')" by (cases cq)
      note k = updateMechanism_kind [OF ok(1) [unfolded cq]]
      have qt1: "quiet early_call s t1" by (rule qt.trans_R [OF q1 stepsD [OF qt_updateMechanism ok(1)]])
      from ok(2) [unfolded cq prod.case] show ?thesis
      proof (cases rule: bnd_SomeE)
        case (error e)
        show ?thesis
          by (rule early [OF error(2)]) (rule qt.trans_R [OF qt1 stepsD [OF qt_Dataplane error(1)]])
      next
        case (ok k t)
        have qt: "quiet early_call s t" by (rule qt.trans_R [OF qt1 stepsD [OF qt_Dataplane ok(1)]])
        from ok(2) obtain v where v: "serve fuel env q' c None dp False False t = Some (res, v)" "s' = close_conn k v"
          by (rule deferring_SomeE)
        from v(1) [unfolded serve_new] show ?thesis
        proof (cases rule: bnd_SomeE)
          case (error e)
          have "quiet early_call t v"
            by (rule quiet_mono [OF stepsD [OF qt_find error(1)]]) (rule nse_early)
          moreover have "quiet early_call v s'" using v(2) by (auto simp: close_conn_def intro: quiet_simple)
          ultimately show ?thesis using qt early [OF error(2)] qt.trans_R by blast
        next
          case (ok r u)
          show ?thesis
            by (rule late [OF qt dpin _ _ ok(1) ok(2) v(2)]) (use k in simp_all)
        qed
      qed
    qed
  qed
qed

text \<open>The state in which the dataplane is programmed.\<close>

definition added :: "NSMRequest \<Rightarrow> cc_ref \<Rightarrow> manager \<Rightarrow> manager \<Rightarrow> bool" where
  "added q r s t \<longleftrightarrow>
     clientConnections (mdl t) = AList.update (CC_ConnectionId (deref r s)) r (clientConnections (mdl s)) \<and>
     store (mdl t) = (store (mdl s))(r := (store (mdl s) r)\<lparr>CC_Request := Some q\<rparr>) \<and>
     next_ref t = next_ref s \<and>
     (\<exists>ns. trace t = trace s @ ns \<and> list_all (\<lambda>c. case c of C_Notify _ _ \<Rightarrow> True | _ \<Rightarrow> False) ns)"

lemma finish_added:
  assumes "finish_new env q dp r s = Some (res, s')"
  obtains t where "added q r s t" "bnd (programDataplane env dp r) (\<lambda>_.
     bnd (assign r (\<lambda>c. c\<lparr>ConnectionState := CC_Ready\<rparr>)) (\<lambda>_.
     bnd get_state (\<lambda>s. lift_result (source_of (IsRemote q) (Xcon (deref r s)))))) t = Some (res, s')"
proof -
  let ?t1 = "s\<lparr>mdl := (mdl s)\<lparr>store := (store (mdl s))(r := (store (mdl s) r)\<lparr>CC_Request := Some q\<rparr>)\<rparr>\<rparr>"
  let ?t = "?t1\<lparr>mdl := fst (AddClientConnection (mdl ?t1) r),
     trace := trace ?t1 @ map (\<lambda>(l, ev). C_Notify l ev) (snd (AddClientConnection (mdl ?t1) r))\<rparr>"
  have "added q r s ?t"
    by (auto simp: added_def AddClientConnection_def deref_def notify_def list_all_iff)
  then show ?thesis
    by (rule that) (use assms in \<open>simp add: finish_new_def run_assign run_model_op\<close>)
qed

lemma finish_ok:
  assumes "finish_new env q dp r s = Some (Inr c, s')" "CC_Dataplane (deref r s) = Some dp"
  shows "registered (CC_ConnectionId (deref r s)) q dp c s' \<and>
    map_of (clientConnections (mdl s')) = (map_of (clientConnections (mdl s)))(CC_ConnectionId (deref r s) \<mapsto> r) \<and>
    (\<exists>x y tr. e_DataplaneRequest env tr dp y = Inr x \<and> C_DataplaneRequest dp y \<in> set (trace s') \<and>
       X_Source x = Some c)"
proof -
  obtain t where t: "added q r s t" and rest: "bnd (programDataplane env dp r) (\<lambda>_.
     bnd (assign r (\<lambda>c. c\<lparr>ConnectionState := CC_Ready\<rparr>)) (\<lambda>_.
     bnd get_state (\<lambda>s. lift_result (source_of (IsRemote q) (Xcon (deref r s)))))) t = Some (Inr c, s')"
    by (rule finish_added [OF assms(1)])
  from rest obtain u where u: "programDataplane env dp r t = Some (Inr (), u)"
    and fin: "source_of (IsRemote q) (Xcon (deref r u)) = Inr c"
      "s' = u\<lparr>mdl := (mdl u)\<lparr>store := (store (mdl u))(r := (store (mdl u) r)\<lparr>ConnectionState := CC_Ready\<rparr>)\<rparr>\<rparr>"
    by (cases rule: bnd_SomeE) (auto simp: go_run deref_def)
  from u have "programmed env dp r t u" by (cases rule: program_cases) auto
  then obtain x y tr where x: "e_DataplaneRequest env tr dp y = Inr x" "C_DataplaneRequest dp y \<in> set (trace u)"
    "store (mdl u) = (store (mdl t))(r := (store (mdl t) r)\<lparr>Xcon := Some x\<rparr>)"
    "clientConnections (mdl u) = clientConnections (mdl t)"
    by (auto simp: programmed_def)
  have src: "X_Source x = Some c"
    using fin(1) x(3) by (auto simp: source_of_def GetSource_def deref_def split: bool.splits option.splits NSMConnection.splits)
  show ?thesis
    using t x src fin(2) assms(2) by (auto simp: registered_def added_def deref_def)
qed

lemma finish_err:
  assumes "finish_new env q dp r s = Some (Inl (Errorf e), s')" "ConnectionState (deref r s) = CC_Requesting"
  shows "map_of (clientConnections (mdl s')) = (map_of (clientConnections (mdl s)))(CC_ConnectionId (deref r s) := None)"
proof -
  obtain t where t: "added q r s t" and rest: "bnd (programDataplane env dp r) (\<lambda>_.
     bnd (assign r (\<lambda>c. c\<lparr>ConnectionState := CC_Ready\<rparr>)) (\<lambda>_.
     bnd get_state (\<lambda>s. lift_result (source_of (IsRemote q) (Xcon (deref r s)))))) t = Some (Inl (Errorf e), s')"
    by (rule finish_added [OF assms(1)])
  have "programDataplane env dp r t = Some (Inl (Errorf e), s')"
    using rest
    by (cases rule: bnd_SomeE) (auto simp: go_run source_of_def split: bool.splits option.splits NSMConnection.splits)
  then show ?thesis
  proof (cases rule: program_cases)
    case (failed err t1 cr u)
    then have np: "\<And>p. cr \<noteq> Inl (Panic p)" by auto
    have "ConnectionState (deref r t1) \<noteq> CC_Closing" using failed(1) t assms(2) by (simp add: added_def deref_def)
    from close_ok [OF failed(4) this np] show ?thesis
      using failed t np by (auto simp: closed_model_def added_def deref_def)
  qed auto
qed


text \<open>
  C12: A request for a new connection that fails with an error leaves no
  connection behind: the model's connections are the same as before, except that
  an entry under the id reserved for the request is gone.
\<close>

theorem failed_request_leaves_nothing:
  assumes "Request fuel env q s = Some (Inl (Errorf e), s')"
    and "GetClientConnection (mdl s) (GetConnectionId q) = None"
  shows "map_of (clientConnections (mdl s')) \<in>
    {map_of (clientConnections (mdl s)),
     (map_of (clientConnections (mdl s)))(fst (NextConnectionId (mdl s)) := None)}"
  using assms
proof (cases rule: new_request_cases)
  case (early x)
  then show ?thesis by (auto simp: quiet_def)
next
  case (late c q' dp r t u v k)
  from find_result [OF late(5)] have c: "CC_ConnectionId (deref r u) = fst (NextConnectionId (mdl s))"
    "ConnectionState (deref r u) = CC_Requesting"
    using late(3) by (auto simp: connected_def connected_prefixes)
  have "clientConnections (mdl u) = clientConnections (mdl s)"
    using late(1) stepsD [OF qt_find late(5)] by (simp add: quiet_def)
  then show ?thesis using finish_err [OF late(6) c(2)] c(1) late(7) by (simp add: close_conn_def)
qed


subsection \<open>Looking for an endpoint ends\<close>

definition total :: "'a mgo \<Rightarrow> bool" where
  "total m \<longleftrightarrow> (\<forall>s. m s \<noteq> None)"

text \<open>
  A registry that only ever names endpoints of \<open>N\<close>, whose managers have an
  address, for services without matches; ports that accept connections.
\<close>

definition finite_registry :: "env \<Rightarrow> string list \<Rightarrow> bool" where
  "finite_registry env N \<longleftrightarrow>
     (\<forall>tr a. e_PortAvailable env tr a) \<and>
     (\<forall>tr n resp. e_FindNetworkService env tr n = Inr resp \<longrightarrow>
        NS_GetMatches (F_NetworkService resp) = [] \<and>
        (\<forall>e \<in> set (F_NetworkServiceEndpoints resp). NSE_EndpointName e \<in> set N \<and>
           NSM_GetUrl (map_of (F_NetworkServiceManagers resp) (NSE_NetworkServiceManagerName e)) \<noteq> []))"

text \<open>An endpoint found in such a registry and not ignored.\<close>

definition found :: "string list \<Rightarrow> (string, NSERegistration) gomap \<Rightarrow> NSERegistration option \<Rightarrow> bool" where
  "found N ig e \<longleftrightarrow> (\<exists>reg n. e = Some reg \<and> Reg_NetworkserviceEndpoint reg = Some n \<and>
     NSE_EndpointName n \<in> set N \<and> map_of ig (NSE_EndpointName n) = None \<and>
     NSM_GetUrl (Reg_NetworkServiceManager reg) \<noteq> [])"

named_theorems total_rules \<open>computations that end\<close>

lemma total_basic [total_rules]:
  "total (ret x)" "total (throw e)" "total (lift_result r)" "total get_state" "total (modify f)"
  "total (return_err eo)"
  by (auto simp: total_def ret_def throw_def lift_result_def get_state_def modify_def return_err_def
      split: option.split)

lemma total_bnd [total_rules]: "total m \<Longrightarrow> (\<And>x. total (f x)) \<Longrightarrow> total (bnd m f)"
  unfolding total_def bnd_def by (auto split: option.splits sum.splits)

lemma total_attempt [total_rules]: "total m \<Longrightarrow> total (attempt m)"
  unfolding total_def attempt_def by (auto split: option.splits sum.splits error.splits)

lemma total_deferring [total_rules]: "total m \<Longrightarrow> total (deferring m d)"
  unfolding total_def deferring_def by (auto split: option.splits)

lemma total_simple [total_rules]:
  "total (call_out c)" "total (answer a)" "total (answer_err e)" "total open_conn" "total (assign r f)"
  "total (model_op g)" "total createConnectionId" "total (new_ClientConnection cc)"
  by (auto simp: call_out_def answer_def answer_err_def open_conn_def assign_def model_op_def
      createConnectionId_def new_ClientConnection_def intro!: total_rules split: sum.split option.split)

lemma total_state [total_rules]: "total (Vni_call l v)" "total (select_call lc ns es)"
  by (auto simp: total_def Vni_call_def select_call_def split: prod.split)

lemma total_selectRemote [total_rules]: "total (selectRemoteMechanism ms dp)"
  by (induction ms) (auto simp: Let_def intro!: total_rules split: option.split)

lemma total_updateMechanism [total_rules]: "total (updateMechanism c r dp)"
  by (cases "(c, r, dp)" rule: updateMechanism.cases) (auto intro!: total_rules split: option.split)

lemma total_calls [total_rules]:
  "total (DataplaneConnection env dpo)" "total (dataplaneClient_Request env dp x)"
  "total (dataplaneClient_Close env dp x)" "total (NetworkServiceDiscovery env)"
  "total (FindNetworkService env n)" "total (EndpointConnection env e)"
  by (auto simp: DataplaneConnection_def dataplaneClient_Request_def dataplaneClient_Close_def
      NetworkServiceDiscovery_def FindNetworkService_def EndpointConnection_def
      intro!: total_rules split: option.split)

lemma total_message [total_rules]: "total (nse_message e c dp x)"
  by (auto simp: nse_message_def createLocalNSERequest_def createRemoteNSMRequest_def Let_def
      intro!: total_rules split: option.split)

lemma total_client_Request [total_rules]: "total (client_Request env cl m)"
  by (cases "(env, cl, m)" rule: client_Request.cases) (auto intro!: total_rules)

lemma total_client_Close [total_rules]: "total (client_Close env cl c)"
  by (cases "(env, cl, c)" rule: client_Close.cases) (auto intro!: total_rules)

lemma total_accept [total_rules]: "total (accept_connection e c q dp n)"
  unfolding accept_connection_def validateNSEConnection_def updateConnectionParameters_def
    createCrossConnect_def Let_def
  by (auto intro!: total_rules split: option.split prod.split NSMConnection.split)

lemma total_getEndpoint [total_rules]: "total (getEndpoint env c ig)"
  unfolding getEndpoint_def Let_def
  by (auto intro!: total_rules split: option.split NSMConnection.split)

lemma total_client:
  assumes "finite_registry env N" "NSM_GetUrl (Reg_GetNetworkServiceManager e) \<noteq> []"
  shows "total (createNSEClient env e)"
proof -
  have "total (WaitForPortAvailable env (NSM_GetUrl (Reg_GetNetworkServiceManager e)))"
    using assms by (auto simp: total_def WaitForPortAvailable_def finite_registry_def)
  then show ?thesis
    unfolding createNSEClient_def RemoteNetworkServiceClient_def by (auto intro!: total_rules)
qed

lemma found_url: "found N ig e \<Longrightarrow> NSM_GetUrl (Reg_GetNetworkServiceManager e) \<noteq> []"
  by (auto simp: found_def Reg_GetNetworkServiceManager_def)

lemma total_perform:
  assumes "finite_registry env N" "found N ig e"
  shows "total (performNSERequest env e c q dp x)"
  unfolding performNSERequest_def
  by (auto intro!: total_rules total_client [OF assms(1) found_url [OF assms(2)]] split: sum.split)

lemma rr_selects: "es \<noteq> [] \<Longrightarrow> rr_SelectEndpoint rr c ns es \<noteq> (Inr None, rr')"
  by (auto simp: rr_SelectEndpoint_def Let_def)

lemma select_found:
  assumes "select_call c ns es s = Some (Inr e, s')" "NS_GetMatches ns = []" "es \<noteq> []"
  shows "\<exists>x \<in> set es. e = Some x"
proof -
  obtain r m where m: "ms_SelectEndpoint (GetSelector (mdl s)) (Some c) ns es = (r, m)" by fastforce
  then have r: "r = Inr e" using assms(1) by (auto simp: select_call_def)
  have "e \<noteq> None"
  proof
    assume "e = None"
    then obtain rr' where "rr_SelectEndpoint (ms_roundRobin (GetSelector (mdl s))) None ns es = (Inr None, rr')"
      using m r assms(2) by (auto simp: ms_SelectEndpoint_def split: prod.splits)
    then show False using rr_selects [OF assms(3)] by blast
  qed
  then obtain x where "e = Some x" by blast
  then show ?thesis using ms.sel_in [of "GetSelector (mdl s)" "Some c" ns es x m] m r by blast
qed

lemma FindNetworkService_answer:
  "FindNetworkService env n s = Some (Inr resp, t) \<Longrightarrow> e_FindNetworkService env (trace s) n = Inr resp"
  by (auto simp: FindNetworkService_def answer_def call_out_def go_run split: sum.splits)

lemma getEndpoint_found:
  assumes reg: "finite_registry env N" and run: "getEndpoint env (Local c) ig s = Some (Inr e, s')"
  shows "found N ig e"
proof -
  let ?cand = "\<lambda>resp. filterEndpoints (F_NetworkServiceEndpoints resp) ig"
  let ?reg = "\<lambda>resp x. \<lparr>Reg_NetworkService = F_NetworkService resp, Reg_NetworkServiceManager =
             map_of (F_NetworkServiceManagers resp) (NSE_NetworkServiceManagerName x),
           Reg_NetworkserviceEndpoint = Some x\<rparr>"
  from run obtain resp t u where f: "FindNetworkService env (L_NetworkService c) t = Some (Inr resp, u)"
    and rest: "(if length (?cand resp) = 0 then
          throw (Errorf ''Failed to find NSE for NetworkService %s. Checked: %d of total NSEs: %d'')
        else bnd (select_call c (F_NetworkService resp) (?cand resp)) (\<lambda>n.
               case n of None \<Rightarrow> ret None | Some x \<Rightarrow> ret (Some (?reg resp x)))) u = Some (Inr e, s')"
    unfolding getEndpoint_def Let_def NSMConnection.case by (auto elim!: bnd_SomeE [where m = "FindNetworkService _ _"]
        bnd_SomeE [where m = "NetworkServiceDiscovery _"])
  note r = reg [unfolded finite_registry_def, THEN conjunct2, rule_format, OF FindNetworkService_answer [OF f]]
  have ne: "?cand resp \<noteq> []" using rest by (auto simp: go_run)
  with rest have "bnd (select_call c (F_NetworkService resp) (?cand resp)) (\<lambda>n.
               case n of None \<Rightarrow> ret None | Some x \<Rightarrow> ret (Some (?reg resp x))) u = Some (Inr e, s')"
    by simp
  then obtain n v where n: "select_call c (F_NetworkService resp) (?cand resp) u = Some (Inr n, v)"
    and e: "(case n of None \<Rightarrow> ret None | Some x \<Rightarrow> ret (Some (?reg resp x))) v = Some (Inr e, s')"
    by (cases rule: bnd_SomeE) auto
  obtain x where x: "x \<in> set (?cand resp)" "n = Some x"
    using select_found [OF n conjunct1 [OF r] ne] by blast
  then have "e = Some (?reg resp x)" using e by (simp add: go_run)
  then show ?thesis using x(1) conjunct2 [OF r] by (auto simp: found_def filterEndpoints_def)
qed

lemma totalE:
  assumes "total m"
  obtains r t where "m s = Some (r, t)"
proof -
  have "m s \<noteq> None" using assms by (simp add: total_def)
  then show ?thesis using that by (cases "m s") auto
qed

lemma find_ends:
  assumes reg: "finite_registry env N" and "card (set N - dom (map_of ig)) < fuel"
  shows "findConnectNSE fuel env ig le q (Local c) None dp s \<noteq> None"
  using assms(2)
proof (induction fuel arbitrary: ig le s)
  case (Suc fuel)
  have next_eq: "next_endpoint env (Local c) None ig = getEndpoint env (Local c) ig"
    by (rule ext) (simp add: next_endpoint_def go_run)
  obtain er t where n: "attempt (getEndpoint env (Local c) ig) s = Some (er, t)"
    by (rule totalE [OF total_attempt [OF total_getEndpoint]])
  consider (panic) x where "er = Inl x" | (none) err where "er = Inr (Inl err)" | (some) e where "er = Inr (Inr e)"
    by (metis sum.exhaust)
  then show ?case
  proof cases
    case panic
    then show ?thesis unfolding findConnectNSE.simps next_eq
      by (simp add: bnd_def [of "attempt (getEndpoint env (Local c) ig)"] n)
  next
    case none
    then show ?thesis unfolding findConnectNSE.simps next_eq
      by (simp add: bnd_def [of "attempt (getEndpoint env (Local c) ig)"] n throw_def split: option.split)
  next
    case some
    have f: "found N ig e" by (rule getEndpoint_found [OF reg attempt_Inr [OF n [unfolded some]]])
    obtain cr u where p: "attempt (performNSERequest env e (updateExcludePrefixes t (Local c)) q dp None) t = Some (cr, u)"
      by (rule totalE [OF total_attempt [OF total_perform [OF reg f]]])
    from f obtain reg' x where x: "e = Some reg'" "Reg_NetworkserviceEndpoint reg' = Some x"
      "NSE_EndpointName x \<in> set N" "map_of ig (NSE_EndpointName x) = None" by (auto simp: found_def)
    let ?ig = "AList.update (NSE_EndpointName x) reg' ig"
    have sub: "set N - dom (map_of ?ig) \<subset> set N - dom (map_of ig)" using x(3,4) by auto
    have "card (set N - dom (map_of ?ig)) < card (set N - dom (map_of ig))"
      by (rule psubset_card_mono [OF _ sub]) simp
    then have ih: "findConnectNSE fuel env ?ig le' q (Local c) None dp u \<noteq> None" for le'
      using Suc.prems by (intro Suc.IH) linarith
    have nm: "endpoint_name e = Inr (NSE_EndpointName x)" using x by (simp add: endpoint_name_def)
    show ?thesis
      unfolding findConnectNSE.simps next_eq bnd_Inr [where m = "attempt (getEndpoint env (Local c) ig)", OF n [unfolded some]] sum.case run_get
      using p ih nm x(1) by (cases cr) (auto simp: bnd_def lift_result_def ret_def split: sum.split)
  qed
qed simp

lemma totalD: "total m \<Longrightarrow> m s \<noteq> None"
  by (simp add: total_def)

lemma bnd_not_None: "m s \<noteq> None \<Longrightarrow> (\<And>x. total (f x)) \<Longrightarrow> bnd m f s \<noteq> None"
  by (auto simp: bnd_def total_def split: option.splits sum.splits)

lemma bnd_returns: "total m \<Longrightarrow> (\<And>x. total (f x)) \<Longrightarrow> bnd m f s \<noteq> None"
  by (rule totalD, rule total_bnd)

lemma total_bnd_post:
  assumes "total m" "\<And>s x t. m s = Some (Inr x, t) \<Longrightarrow> f x t \<noteq> None"
  shows "total (bnd m f)"
  using assms by (auto simp: bnd_def total_def split: option.splits sum.splits)

lemma attempt_not_None: "m s \<noteq> None \<Longrightarrow> attempt m s \<noteq> None"
  by (auto simp: attempt_def split: option.splits sum.splits error.splits)

text \<open>A connection whose endpoint was found can be closed without blocking.\<close>

lemma close_returns:
  assumes "finite_registry env N" "NSM_GetUrl (Reg_GetNetworkServiceManager (Endpoint (deref r s))) \<noteq> []"
  shows "close_connection env r b s \<noteq> None"
proof (cases "ConnectionState (deref r s) = CC_Closing")
  case True
  then show ?thesis by (simp add: close_connection_def go_run)
next
  case False
  let ?s1 = "s\<lparr>mdl := (mdl s)\<lparr>store := (store (mdl s))(r := (store (mdl s) r)\<lparr>ConnectionState := CC_Closing\<rparr>)\<rparr>\<rparr>"
  have tc: "total (createNSEClient env (Endpoint (deref r ?s1)))"
    by (rule total_client [OF assms(1)]) (use assms(2) in \<open>simp add: deref_def\<close>)
  have n: "closeNSE env r ?s1 \<noteq> None"
    by (subst closeNSE_def, subst run_get, rule bnd_returns [OF total_attempt [OF tc]])
      (auto simp: Let_def intro!: total_rules split: sum.split option.split)
  have td: "total (closeDataplane env r)"
    unfolding closeDataplane_def by (auto intro!: total_rules split: option.split)
  show ?thesis
    by (subst close_connection_def, subst run_get, subst if_not_P [OF False], subst run_assign,
        rule bnd_not_None) (rule n, auto intro!: total_rules td split: prod.split)
qed

lemma program_returns:
  assumes "finite_registry env N" "NSM_GetUrl (Reg_GetNetworkServiceManager (Endpoint (deref r s))) \<noteq> []"
  shows "programDataplane env dp r s \<noteq> None"
proof -
  have c: "attempt (close_connection env r True) t \<noteq> None" if "Endpoint (deref r t) = Endpoint (deref r s)" for t
    by (rule attempt_not_None, rule close_returns [OF assms(1)]) (use that assms(2) in simp)
  have again: "bnd (dataplane_attempt env dp r) (\<lambda>e2. case e2 of None \<Rightarrow> ret () | Some err \<Rightarrow>
             bnd (attempt (close_connection env r True)) (\<lambda>_.
             bnd get_state (\<lambda>s.
             bnd (model_op (\<lambda>i. DeleteClientConnection i (CC_ConnectionId (deref r s)))) (\<lambda>_.
             throw (Errorf err))))) t \<noteq> None"
    if e: "Endpoint (deref r t) = Endpoint (deref r s)" for t
  proof (cases "e_DataplaneRequest env (trace t) dp (Xcon (deref r t))")
    case (Inl a)
    show ?thesis
      unfolding bnd_dataplane_attempt Inl err_of_def sum.case option.case
      by (rule bnd_not_None, rule c) (use e in \<open>simp add: deref_def\<close>, auto intro!: total_rules)
  qed (simp add: bnd_dataplane_attempt err_of_def go_run)
  show ?thesis
  proof (cases "e_DataplaneRequest env (trace s) dp (Xcon (deref r s))")
    case (Inl a)
    show ?thesis
      unfolding programDataplane_def
      by (subst bnd_dataplane_attempt, unfold Inl err_of_def sum.case option.case, rule again) (simp add: deref_def)
  qed (simp add: programDataplane_def bnd_dataplane_attempt err_of_def go_run)
qed

lemma finish_returns:
  assumes "finite_registry env N" "NSM_GetUrl (Reg_GetNetworkServiceManager (Endpoint (deref r s))) \<noteq> []"
  shows "finish_new env q dp r s \<noteq> None"
  unfolding finish_new_def
  by (subst run_assign, subst run_model_op, rule bnd_not_None, rule program_returns [OF assms(1)])
    (use assms(2) in \<open>simp add: deref_def AddClientConnection_def\<close>, auto intro!: total_rules)

lemma total_serve:
  assumes "finite_registry env N" "length N < fuel"
  shows "total (serve fuel env q (Local c) None dp b b')"
proof -
  have "card (set N - dom (map_of [])) < fuel" using card_length [of N] assms(2) by simp
  then have "total (findConnectNSE fuel env [] None q (Local c) None dp)"
    using find_ends [OF assms(1)] by (simp add: total_def)
  moreover have "finish_new env q dp r t \<noteq> None"
    if f: "findConnectNSE fuel env [] None q (Local c) None dp s = Some (Inr r, t)" for r s t
  proof (rule finish_returns [OF assms(1)])
    obtain ig u v where "next_endpoint env (Local c) None ig u = Some (Inr (Endpoint (deref r t)), v)"
      using find_result [OF f] by blast
    then have "getEndpoint env (Local c) ig u = Some (Inr (Endpoint (deref r t)), v)"
      by (simp add: next_endpoint_def go_run)
    from found_url [OF getEndpoint_found [OF assms(1) this]]
    show "NSM_GetUrl (Reg_GetNetworkServiceManager (Endpoint (deref r t))) \<noteq> []" .
  qed
  ultimately show ?thesis unfolding serve_new by (rule total_bnd_post)
qed

lemma updateMechanism_local:
  "updateMechanism (Local c) (LocalReq q) dp s = Some (Inr (c', q'), t) \<Longrightarrow> \<exists>l. c' = Local l"
  by (auto simp: go_run split: option.splits)


end
