(* ===== verification/ManagerExample.thy ===== *)
theory ManagerExample
  imports ManagerRequest
begin

text \<open>
  A concrete environment: one dataplane, one endpoint behind a remote manager,
  and a local client asking for its service. Every party answers, so the
  theorems on requests can be applied to it.
\<close>

definition ex_dp :: Dataplane where
  "ex_dp = \<lparr>RegisteredName = ''vpp'', SocketLocation = ''vpp.sock'',
     LocalMechanisms = [\<lparr>LM_Type = VHOST_INTERFACE, LM_Parameters = None\<rparr>],
     RemoteMechanisms = [\<lparr>RM_Type = VXLAN, RM_Parameters = Some [(''src_ip'', ''10.0.0.1'')]\<rparr>]\<rparr>"

definition ex_response :: FindNetworkServiceResponse where
  "ex_response = \<lparr>F_Payload = ''IP'',
     F_NetworkService = Some \<lparr>NS_Name = ''icmp'', NS_Payload = ''IP'', NS_Matches = []\<rparr>,
     F_NetworkServiceManagers = [(''nsm-2'', \<lparr>NSM_Name = ''nsm-2'', NSM_Url = ''tcp:5000'', NSM_State = ''RUNNING''\<rparr>)],
     F_NetworkServiceEndpoints = [\<lparr>NSE_NetworkServiceName = ''icmp'', NSE_Payload = ''IP'',
       NSE_NetworkServiceManagerName = ''nsm-2'', NSE_EndpointName = ''nse-1'', NSE_Labels = [], NSE_State = ''RUNNING''\<rparr>]\<rparr>"

definition ex_env :: env where
  "ex_env = \<lparr>e_DataplaneConnection = (\<lambda>_ _. None),
     e_DataplaneRequest = (\<lambda>_ _ x. case x of None \<Rightarrow> Inl ''nil'' | Some y \<Rightarrow> Inr y),
     e_DataplaneClose = (\<lambda>_ _ _. None), e_EndpointSocket = (\<lambda>_ _. None), e_PortAvailable = (\<lambda>_ _. True),
     e_RemoteClient = (\<lambda>_ _. None), e_NSERequest = (\<lambda>_ _ _. Inl ''none''),
     e_NSMRequest = (\<lambda>_ _ _. Inr \<lparr>R_Id = ''1'', R_NetworkService = ''icmp'', R_Mechanism = None,
       R_Context = Some empty_context, R_Labels = [], R_SourceNetworkServiceManagerName = ''nsm-1'',
       R_DestinationNetworkServiceManagerName = ''nsm-2'', R_NetworkServiceEndpointName = ''nse-1'', R_State = UP\<rparr>),
     e_NSEClose = (\<lambda>_ _ _. None), e_NSMClose = (\<lambda>_ _ _. None), e_Discovery = (\<lambda>_. None),
     e_FindNetworkService = (\<lambda>_ _. Inr ex_response), e_dataplane_order = (\<lambda>_ x. x), e_NewDataplane = (\<lambda>_. None)\<rparr>"

definition ex_state :: manager where
  "ex_state = \<lparr>mdl = NewModel\<lparr>dataplanes := [(''vpp'', ex_dp)],
       impl_nsm := Some \<lparr>NSM_Name = ''nsm-1'', NSM_Url = '''', NSM_State = ''''\<rparr>\<rparr>,
     allocator = NewVniAllocator, workspaceByEndpoint = [], excluded_prefixes = [], next_ref = 0,
     open_conns = [], next_conn = 0, trace = []\<rparr>"

definition ex_request :: NSMRequest where
  "ex_request = LocalReq \<lparr>LQ_Connection = Some \<lparr>L_Id = '''', L_NetworkService = ''icmp'', L_Mechanism = None,
       L_Context = Some empty_context, L_Labels = [], L_State = UP\<rparr>,
     LQ_MechanismPreferences = [\<lparr>LM_Type = VHOST_INTERFACE, LM_Parameters = Some []\<rparr>]\<rparr>"

lemma ex_request_ok: "case Request 1 ex_env ex_request ex_state of Some (Inr _, _) \<Rightarrow> True | _ \<Rightarrow> False"
  by code_simp

text \<open>The same environment with a remote manager that refuses every request.\<close>

definition ex_busy :: env where
  "ex_busy = ex_env\<lparr>e_NSMRequest := (\<lambda>_ _ _. Inl ''busy'')\<rparr>"

lemma ex_request_fails:
  "case Request 2 ex_busy ex_request ex_state of Some (Inl (Errorf _), _) \<Rightarrow> True | _ \<Rightarrow> False"
  by code_simp

lemma ex_new: "GetClientConnection (mdl ex_state) (GetConnectionId ex_request) = None"
  by code_simp

lemma ex_served:
  obtains c s' where "Request 1 ex_env ex_request ex_state = Some (Inr c, s')"
  using ex_request_ok by (auto split: option.splits sum.splits prod.splits)

lemma ex_refused:
  obtains e s' where "Request 2 ex_busy ex_request ex_state = Some (Inl (Errorf e), s')"
  using ex_request_fails by (auto split: option.splits sum.splits prod.splits error.splits)

lemma ex_conns: "conns_ok ex_state"
  by (simp add: conns_ok_def ex_state_def)


theorem failed_request_leaves_nothing_witness:
  "case Request 2 ex_busy ex_request ex_state of
     Some (Inl (Errorf e), s') \<Rightarrow> map_of (clientConnections (mdl s')) \<in>
       {map_of (clientConnections (mdl ex_state)),
        (map_of (clientConnections (mdl ex_state)))(fst (NextConnectionId (mdl ex_state)) := None)}
   | _ \<Rightarrow> False"
proof -
  obtain e s' where r: "Request 2 ex_busy ex_request ex_state = Some (Inl (Errorf e), s')" by (rule ex_refused)
  from failed_request_leaves_nothing [OF r ex_new] show ?thesis unfolding r by simp
qed



end
