(* ===== verification/Monitor.thy ===== *)
theory Monitor
  imports Api
begin

text \<open>
  The monitor server (\<open>controlplane/pkg/monitor\<close>): a loop that keeps a map of
  entities, applies the events queued by \<open>Update\<close> and \<open>Delete\<close>, and sends every
  event to its recipients, after a first message with all entities. The three
  converters for cross connects, local and remote connections turn events into
  messages. Channels are queues of bounded length; \<open>select\<close> takes any case that
  can proceed, so the loop is a relation. A message is recorded when \<open>SendMsg\<close> is
  called with it; an error of \<open>SendMsg\<close> is only logged by the code.
\<close>

subsection \<open>Entities and events\<close>

text \<open>
  An entity is a pointer to one of three messages, possibly nil. Its id does not
  change after the message was handed to a monitor.
\<close>

datatype Entity =
    XconEntity "CrossConnect option"
  | LocalEntity "LocalConnection option"
  | RemoteEntity "RemoteConnection option"

fun Entity_GetId :: "Entity \<Rightarrow> string" where
  "Entity_GetId (XconEntity x) = XC_GetId x"
| "Entity_GetId (LocalEntity c) = (case c of None \<Rightarrow> '''' | Some c \<Rightarrow> L_Id c)"
| "Entity_GetId (RemoteEntity c) = (case c of None \<Rightarrow> '''' | Some c \<Rightarrow> R_Id c)"

definition defaultSize :: nat where "defaultSize = 10"
definition UPDATE :: string where "UPDATE = ''UPDATE''"
definition DELETE :: string where "DELETE = ''DELETE''"
definition INITIAL_STATE_TRANSFER :: string where "INITIAL_STATE_TRANSFER = ''INITIAL_STATE_TRANSFER''"

record Event =
  EventType :: string
  Entities :: "(string, Entity) gomap"

subsection \<open>The server\<close>

text \<open>
  \<open>'r\<close> are the recipients and \<open>'m\<close> the messages of a converter. \<open>sent\<close> lists the
  calls of \<open>SendMsg\<close>; \<open>None\<close> is a nil message.
\<close>

record ('r, 'm) monitorServerImpl =
  eventCh :: "Event list"
  newMonitorRecipientCh :: "'r list"
  closedMonitorRecipientCh :: "'r list"
  entities :: "(string, Entity) gomap"
  recipients :: "'r list"
  sent :: "('r \<times> 'm option) list"

definition NewMonitorServer :: "('r, 'm) monitorServerImpl" where
  "NewMonitorServer = \<lparr>eventCh = [], newMonitorRecipientCh = [], closedMonitorRecipientCh = [],
     entities = [], recipients = [], sent = []\<rparr>"

text \<open>Sending on a channel; \<open>None\<close> means that the sender has to wait.\<close>

definition chan_send :: "'a \<Rightarrow> 'a list \<Rightarrow> 'a list option" where
  "chan_send x ch = (if length ch < defaultSize then Some (ch @ [x]) else None)"

definition update_event :: "Entity \<Rightarrow> Event" where
  "update_event e = \<lparr>EventType = UPDATE, Entities = [(Entity_GetId e, e)]\<rparr>"

definition delete_event :: "Entity \<Rightarrow> Event" where
  "delete_event e = \<lparr>EventType = DELETE, Entities = [(Entity_GetId e, e)]\<rparr>"

definition monitor_Update :: "Entity \<Rightarrow> ('r, 'm) monitorServerImpl \<Rightarrow> ('r, 'm) monitorServerImpl option" where
  "monitor_Update entity m = map_option (\<lambda>ch. m\<lparr>eventCh := ch\<rparr>) (chan_send (update_event entity) (eventCh m))"

definition monitor_Delete :: "Entity \<Rightarrow> ('r, 'm) monitorServerImpl \<Rightarrow> ('r, 'm) monitorServerImpl option" where
  "monitor_Delete entity m = map_option (\<lambda>ch. m\<lparr>eventCh := ch\<rparr>) (chan_send (delete_event entity) (eventCh m))"

definition AddRecipient :: "'r \<Rightarrow> ('r, 'm) monitorServerImpl \<Rightarrow> ('r, 'm) monitorServerImpl option" where
  "AddRecipient recipient m =
     map_option (\<lambda>ch. m\<lparr>newMonitorRecipientCh := ch\<rparr>) (chan_send recipient (newMonitorRecipientCh m))"

definition DeleteRecipient :: "'r \<Rightarrow> ('r, 'm) monitorServerImpl \<Rightarrow> ('r, 'm) monitorServerImpl option" where
  "DeleteRecipient recipient m =
     map_option (\<lambda>ch. m\<lparr>closedMonitorRecipientCh := ch\<rparr>) (chan_send recipient (closedMonitorRecipientCh m))"

text \<open>\<open>send\<close> converts the event for every recipient, and sends nil when that fails.\<close>

definition send :: "(Event \<Rightarrow> 'm result) \<Rightarrow> Event \<Rightarrow> 'r list \<Rightarrow> ('r \<times> 'm option) list" where
  "send Convert event rs =
     map (\<lambda>r. (r, case Convert event of Inl _ \<Rightarrow> None | Inr msg \<Rightarrow> Some msg)) rs"

definition apply_entity :: "string \<Rightarrow> Entity \<Rightarrow> (string, Entity) gomap \<Rightarrow> (string, Entity) gomap" where
  "apply_entity ty e es =
     (if ty = UPDATE then AList.update (Entity_GetId e) e es
      else if ty = DELETE then AList.delete (Entity_GetId e) es else es)"

text \<open>The three cases of the loop \<open>Serve\<close>; \<open>ord\<close> is the order of the \<open>range\<close> loop.\<close>

definition serve_new :: "(Event \<Rightarrow> 'm result) \<Rightarrow> ('r, 'm) monitorServerImpl \<Rightarrow> ('r, 'm) monitorServerImpl option" where
  "serve_new Convert m =
     (case newMonitorRecipientCh m of
        [] \<Rightarrow> None
      | r # rs \<Rightarrow> Some (m\<lparr>newMonitorRecipientCh := rs,
          sent := sent m @ send Convert \<lparr>EventType = INITIAL_STATE_TRANSFER, Entities = entities m\<rparr> [r],
          recipients := recipients m @ [r]\<rparr>))"

definition serve_closed :: "('r, 'm) monitorServerImpl \<Rightarrow> ('r, 'm) monitorServerImpl option" where
  "serve_closed m =
     (case closedMonitorRecipientCh m of
        [] \<Rightarrow> None
      | r # rs \<Rightarrow> Some (m\<lparr>closedMonitorRecipientCh := rs, recipients := remove1 r (recipients m)\<rparr>))"

definition serve_event ::
    "(Event \<Rightarrow> 'm result) \<Rightarrow> ((string \<times> Entity) list \<Rightarrow> (string \<times> Entity) list) \<Rightarrow>
     ('r, 'm) monitorServerImpl \<Rightarrow> ('r, 'm) monitorServerImpl option" where
  "serve_event Convert ord m =
     (case eventCh m of
        [] \<Rightarrow> None
      | ev # evs \<Rightarrow> Some (m\<lparr>eventCh := evs,
          entities := fold (\<lambda>(_, e). apply_entity (EventType ev) e) (ord (Entities ev)) (entities m),
          sent := sent m @ send Convert ev (recipients m)\<rparr>))"

inductive Serve :: "(Event \<Rightarrow> 'm result) \<Rightarrow> ((string \<times> Entity) list \<Rightarrow> (string \<times> Entity) list) \<Rightarrow>
    ('r, 'm) monitorServerImpl \<Rightarrow> ('r, 'm) monitorServerImpl \<Rightarrow> bool" for Convert ord where
  Serve_new: "serve_new Convert m = Some m' \<Longrightarrow> Serve Convert ord m m'"
| Serve_closed: "serve_closed m = Some m' \<Longrightarrow> Serve Convert ord m m'"
| Serve_event: "serve_event Convert ord m = Some m' \<Longrightarrow> Serve Convert ord m m'"

inductive_cases ServeE: "Serve Convert ord m m'"

subsection \<open>The converters\<close>

datatype EventTypeMsg = INITIAL_STATE_TRANSFER_T | UPDATE_T | DELETE_T

record CrossConnectEvent =
  XE_Type :: EventTypeMsg
  XE_CrossConnects :: "(string, CrossConnect option) gomap"

record LocalConnectionEvent =
  LE_Type :: EventTypeMsg
  LE_Connections :: "(string, LocalConnection option) gomap"

record RemoteConnectionEvent =
  RE_Type :: EventTypeMsg
  RE_Connections :: "(string, RemoteConnection option) gomap"

definition xcon_convertType :: "string \<Rightarrow> EventTypeMsg result" where
  "xcon_convertType eventType =
     (if eventType = UPDATE then Inr UPDATE_T
      else if eventType = DELETE then Inr DELETE_T
      else if eventType = INITIAL_STATE_TRANSFER then Inr INITIAL_STATE_TRANSFER_T
      else Inl (Errorf ''unable to cast type %v to CrossConnectEventType''))"

definition local_convertType :: "string \<Rightarrow> EventTypeMsg result" where
  "local_convertType eventType =
     (if eventType = UPDATE then Inr UPDATE_T
      else if eventType = DELETE then Inr DELETE_T
      else if eventType = INITIAL_STATE_TRANSFER then Inr INITIAL_STATE_TRANSFER_T
      else Inl (Errorf ''unable to cast type %v to ConnectionEventType''))"

definition remote_convertType :: "string \<Rightarrow> EventTypeMsg result" where
  "remote_convertType eventType =
     (if eventType = UPDATE then Inr UPDATE_T
      else if eventType = DELETE then Inr DELETE_T
      else if eventType = INITIAL_STATE_TRANSFER then Inr INITIAL_STATE_TRANSFER_T
      else Inl (Errorf ''unable to cast type %v to ConnectionEventType''))"

fun xcon_convertEntities :: "(string, Entity) gomap \<Rightarrow> (string, CrossConnect option) gomap result" where
  "xcon_convertEntities [] = Inr []"
| "xcon_convertEntities ((k, XconEntity x) # es) =
     (case xcon_convertEntities es of Inl e \<Rightarrow> Inl e | Inr rv \<Rightarrow> Inr ((k, x) # rv))"
| "xcon_convertEntities (_ # es) = Inl (Errorf ''unable to cast Entity to CrossConnect'')"

fun local_convertEntities :: "(string, Entity) gomap \<Rightarrow> (string, LocalConnection option) gomap result" where
  "local_convertEntities [] = Inr []"
| "local_convertEntities ((k, LocalEntity x) # es) =
     (case local_convertEntities es of Inl e \<Rightarrow> Inl e | Inr rv \<Rightarrow> Inr ((k, x) # rv))"
| "local_convertEntities (_ # es) = Inl (Errorf ''unable to cast Entity to remote.Connection'')"

fun remote_convertEntities :: "(string, Entity) gomap \<Rightarrow> (string, RemoteConnection option) gomap result" where
  "remote_convertEntities [] = Inr []"
| "remote_convertEntities ((k, RemoteEntity x) # es) =
     (case remote_convertEntities es of Inl e \<Rightarrow> Inl e | Inr rv \<Rightarrow> Inr ((k, x) # rv))"
| "remote_convertEntities (_ # es) = Inl (Errorf ''unable to cast Entity to remote.Connection'')"

definition xcon_Convert :: "Event \<Rightarrow> CrossConnectEvent result" where
  "xcon_Convert event =
     (case xcon_convertType (EventType event) of
        Inl e \<Rightarrow> Inl e
      | Inr ty \<Rightarrow>
          (case xcon_convertEntities (Entities event) of
             Inl e \<Rightarrow> Inl e
           | Inr xcons \<Rightarrow> Inr \<lparr>XE_Type = ty, XE_CrossConnects = xcons\<rparr>))"

definition local_Convert :: "Event \<Rightarrow> LocalConnectionEvent result" where
  "local_Convert event =
     (case local_convertType (EventType event) of
        Inl e \<Rightarrow> Inl e
      | Inr ty \<Rightarrow>
          (case local_convertEntities (Entities event) of
             Inl e \<Rightarrow> Inl e
           | Inr connections \<Rightarrow> Inr \<lparr>LE_Type = ty, LE_Connections = connections\<rparr>))"

definition remote_Convert :: "Event \<Rightarrow> RemoteConnectionEvent result" where
  "remote_Convert event =
     (case remote_convertType (EventType event) of
        Inl e \<Rightarrow> Inl e
      | Inr ty \<Rightarrow>
          (case remote_convertEntities (Entities event) of
             Inl e \<Rightarrow> Inl e
           | Inr connections \<Rightarrow> Inr \<lparr>RE_Type = ty, RE_Connections = connections\<rparr>))"

subsection \<open>Filtered streams of remote connections\<close>

text \<open>
  The stream of a remote manager, wrapped with the selector of its request. The
  wrapper redefines \<open>Send\<close>; \<open>SendMsg\<close>, which the monitor calls, is that of the
  embedded stream.
\<close>

record monitorConnectionFilter =
  mf_stream :: nat
  mf_selector :: "string option"

definition NewMonitorConnectionFilter :: "string option \<Rightarrow> nat \<Rightarrow> monitorConnectionFilter" where
  "NewMonitorConnectionFilter selector monitor = \<lparr>mf_stream = monitor, mf_selector = selector\<rparr>"

definition selects :: "string option \<Rightarrow> RemoteConnection option \<Rightarrow> bool" where
  "selects selector c \<longleftrightarrow>
     (let name = (case selector of None \<Rightarrow> '''' | Some n \<Rightarrow> n) in
      (case c of None \<Rightarrow> '''' | Some c \<Rightarrow> R_SourceNetworkServiceManagerName c) = name \<or>
      (case c of None \<Rightarrow> '''' | Some c \<Rightarrow> R_DestinationNetworkServiceManagerName c) = name)"

definition filter_Send :: "monitorConnectionFilter \<Rightarrow> RemoteConnectionEvent \<Rightarrow> (nat \<times> RemoteConnectionEvent) list" where
  "filter_Send d inev =
     (let out = \<lparr>RE_Type = RE_Type inev, RE_Connections = filter (\<lambda>(_, v). selects (mf_selector d) v) (RE_Connections inev)\<rparr> in
      if RE_Connections out \<noteq> [] \<or> RE_Type out = INITIAL_STATE_TRANSFER_T then [(mf_stream d, out)] else [])"

definition filter_SendMsg :: "monitorConnectionFilter \<Rightarrow> RemoteConnectionEvent option \<Rightarrow> (nat \<times> RemoteConnectionEvent option) list" where
  "filter_SendMsg d msg = [(mf_stream d, msg)]"

subsection \<open>Runs of a monitor\<close>

text \<open>
  Everything that can happen to a monitor: a producer queues an event, a stream
  joins or leaves, the loop takes one turn. \<open>accepts\<close> restricts the entities the
  producers use.
\<close>

inductive monitor_run :: "(Event \<Rightarrow> 'm result) \<Rightarrow> ((string \<times> Entity) list \<Rightarrow> (string \<times> Entity) list) \<Rightarrow>
    (Entity \<Rightarrow> bool) \<Rightarrow> ('r, 'm) monitorServerImpl \<Rightarrow> bool" for Convert ord accepts where
  run_New: "monitor_run Convert ord accepts NewMonitorServer"
| run_Update: "monitor_run Convert ord accepts m \<Longrightarrow> accepts e \<Longrightarrow> monitor_Update e m = Some m' \<Longrightarrow>
    monitor_run Convert ord accepts m'"
| run_Delete: "monitor_run Convert ord accepts m \<Longrightarrow> accepts e \<Longrightarrow> monitor_Delete e m = Some m' \<Longrightarrow>
    monitor_run Convert ord accepts m'"
| run_Add: "monitor_run Convert ord accepts m \<Longrightarrow> AddRecipient r m = Some m' \<Longrightarrow>
    monitor_run Convert ord accepts m'"
| run_Leave: "monitor_run Convert ord accepts m \<Longrightarrow> DeleteRecipient r m = Some m' \<Longrightarrow>
    monitor_run Convert ord accepts m'"
| run_Serve: "monitor_run Convert ord accepts m \<Longrightarrow> Serve Convert ord m m' \<Longrightarrow>
    monitor_run Convert ord accepts m'"

text \<open>The messages a recipient was sent, in order.\<close>

definition received :: "'r \<Rightarrow> ('r, 'm) monitorServerImpl \<Rightarrow> 'm option list" where
  "received r m = map snd (filter (\<lambda>(q, _). q = r) (sent m))"

text \<open>
  A client of the monitor that applies every message to a map it keeps: the
  first message replaces it, updates and deletions change it entry by entry.
\<close>

definition replica_step :: "EventTypeMsg \<Rightarrow> (string \<rightharpoonup> 'e) \<Rightarrow> (string \<rightharpoonup> 'e) \<Rightarrow> (string \<rightharpoonup> 'e)" where
  "replica_step ty es st =
     (case ty of
        INITIAL_STATE_TRANSFER_T \<Rightarrow> es
      | UPDATE_T \<Rightarrow> st ++ es
      | DELETE_T \<Rightarrow> st |` (- dom es))"

definition replica :: "('m \<Rightarrow> (string \<rightharpoonup> 'e) \<Rightarrow> (string \<rightharpoonup> 'e)) \<Rightarrow> 'm option list \<Rightarrow> (string \<rightharpoonup> 'e)" where
  "replica step msgs = fold (\<lambda>msg st. case msg of None \<Rightarrow> st | Some x \<Rightarrow> step x st) msgs Map.empty"

text \<open>The work left in the channels.\<close>

definition pending :: "('r, 'm) monitorServerImpl \<Rightarrow> nat" where
  "pending m = length (eventCh m) + length (newMonitorRecipientCh m) + length (closedMonitorRecipientCh m)"

subsection \<open>What a converter promises, and what follows for the monitor\<close>

locale event_converter =
  fixes Convert :: "Event \<Rightarrow> 'm result"
    and accepts :: "Entity \<Rightarrow> bool"
    and step :: "'m \<Rightarrow> (string \<rightharpoonup> Entity) \<Rightarrow> (string \<rightharpoonup> Entity)"
  assumes convert_update: "accepts e \<Longrightarrow>
      \<exists>msg. Convert (update_event e) = Inr msg \<and> (\<forall>st. step msg st = st(Entity_GetId e \<mapsto> e))"
    and convert_delete: "accepts e \<Longrightarrow>
      \<exists>msg. Convert (delete_event e) = Inr msg \<and> (\<forall>st. step msg st = st(Entity_GetId e := None))"
    and convert_initial: "(\<And>e. e \<in> snd ` set es \<Longrightarrow> accepts e) \<Longrightarrow>
      \<exists>msg. Convert \<lparr>EventType = INITIAL_STATE_TRANSFER, Entities = es\<rparr> = Inr msg \<and> (\<forall>st. step msg st = map_of es)"
begin

definition event_ok :: "Event \<Rightarrow> bool" where
  "event_ok ev \<longleftrightarrow> (\<exists>e. accepts e \<and> (ev = update_event e \<or> ev = delete_event e))"

text \<open>A map of entities under their ids, and the messages a monitor can produce from one.\<close>

definition keyed :: "(string, Entity) gomap \<Rightarrow> bool" where
  "keyed es \<longleftrightarrow> gomap_ok es \<and> (\<forall>(k, e) \<in> set es. accepts e \<and> k = Entity_GetId e)"

definition genuine :: "'m option \<Rightarrow> bool" where
  "genuine msg \<longleftrightarrow> (\<exists>ev x. msg = Some x \<and> Convert ev = Inr x \<and>
     (event_ok ev \<or> (EventType ev = INITIAL_STATE_TRANSFER \<and> keyed (Entities ev))))"

definition synced :: "('r, 'm) monitorServerImpl \<Rightarrow> bool" where
  "synced m \<longleftrightarrow> keyed (entities m) \<and> (\<forall>ev \<in> set (eventCh m). event_ok ev) \<and>
     (\<forall>msg \<in> snd ` set (sent m). genuine msg) \<and>
     (\<forall>r \<in> set (recipients m). replica step (received r m) = map_of (entities m))"

lemma replica_snoc: "replica step (ms @ [Some x]) = step x (replica step ms)"
  by (simp add: replica_def)

lemma received_send:
  assumes "Convert ev = Inr msg"
  shows "received r (m\<lparr>sent := sent m @ send Convert ev rs\<rparr>) =
    received r m @ map (\<lambda>_. Some msg) (filter (\<lambda>q. q = r) rs)"
  using assms by (simp add: received_def send_def filter_map o_def)

text \<open>Applying the same message several times is applying it once.\<close>

lemma replica_repeat:
  assumes "\<And>st. step x (step x st) = step x st" "xs \<noteq> []"
  shows "replica step (ms @ map (\<lambda>_. Some x) xs) = step x (replica step ms)"
  using assms(2)
proof (induction xs rule: rev_nonempty_induct)
  case (single y)
  then show ?case by (simp add: replica_snoc)
next
  case (snoc y ys)
  then show ?case
    using replica_snoc [of "ms @ map (\<lambda>_. Some x) ys" x] assms(1) by simp
qed

lemma synced_new: "synced NewMonitorServer"
  by (simp add: synced_def keyed_def NewMonitorServer_def)

lemma keyed_accepts: "keyed es \<Longrightarrow> e \<in> snd ` set es \<Longrightarrow> accepts e"
  by (auto simp: keyed_def)

lemma keyed_update: "keyed es \<Longrightarrow> accepts e \<Longrightarrow> keyed (AList.update (Entity_GetId e) e es)"
  using entries_update [of "Entity_GetId e" e es] by (auto simp: keyed_def)

lemma keyed_delete: "keyed es \<Longrightarrow> keyed (AList.delete k es)"
  using entries_delete [of k es] by (auto simp: keyed_def)

lemma synced_queue:
  assumes "synced m" "event_ok ev"
  shows "synced (m\<lparr>eventCh := eventCh m @ [ev]\<rparr>)"
  using assms by (simp add: synced_def received_def)

lemma synced_serve_new:
  assumes "synced m" "serve_new Convert m = Some m'"
  shows "synced m'"
proof -
  obtain r rs where ch: "newMonitorRecipientCh m = r # rs"
    using assms(2) by (cases "newMonitorRecipientCh m") (auto simp: serve_new_def)
  let ?ev = "\<lparr>EventType = INITIAL_STATE_TRANSFER, Entities = entities m\<rparr>"
  obtain msg where msg: "Convert ?ev = Inr msg" "\<And>st. step msg st = map_of (entities m)"
    using convert_initial [of "entities m"] assms(1) keyed_accepts by (auto simp: synced_def)
  have m': "m' = m\<lparr>newMonitorRecipientCh := rs, sent := sent m @ send Convert ?ev [r],
      recipients := recipients m @ [r]\<rparr>"
    using assms(2) ch by (simp add: serve_new_def)
  have "received q m' = received q m @ (if q = r then [Some msg] else [])" for q
    using received_send [OF msg(1), of q m "[r]"] by (auto simp: m' received_def)
  then have "replica step (received q m') = map_of (entities m)" if "q = r \<or> q \<in> set (recipients m)" for q
    using that assms(1) by (auto simp: replica_snoc msg(2) synced_def)
  moreover have "genuine (Some msg)"
    using assms(1) msg(1) by (auto simp: genuine_def synced_def intro!: exI [of _ ?ev])
  ultimately show ?thesis using assms(1) msg(1) by (auto simp: m' synced_def send_def)
qed

lemma synced_serve_closed: "synced m \<Longrightarrow> serve_closed m = Some m' \<Longrightarrow> synced m'"
  by (auto simp: synced_def serve_closed_def received_def split: list.splits dest: notin_set_remove1)

lemma event_ok_convert:
  assumes "event_ok ev" "is_order ord"
  obtains msg where "Convert ev = Inr msg"
    "\<And>es. map_of (fold (\<lambda>(_, e). apply_entity (EventType ev) e) (ord (Entities ev)) es) = step msg (map_of es)"
    "\<And>st. step msg (step msg st) = step msg st"
    "\<And>es. keyed es \<Longrightarrow> keyed (fold (\<lambda>(_, e). apply_entity (EventType ev) e) (ord (Entities ev)) es)"
proof -
  obtain e where e: "accepts e" "ev = update_event e \<or> ev = delete_event e"
    using assms(1) by (auto simp: event_ok_def)
  have one: "ord [x] = [x]" for x
    using is_order_mset [OF assms(2), of "[x]"] by simp
  have d: "DELETE \<noteq> UPDATE" by (simp add: DELETE_def UPDATE_def)
  from e(2) show thesis
  proof
    assume ev: "ev = update_event e"
    obtain msg where "Convert ev = Inr msg" "\<And>st. step msg st = st(Entity_GetId e \<mapsto> e)"
      using convert_update [OF e(1)] ev by blast
    then show thesis
      by (intro that) (auto simp: ev update_event_def one apply_entity_def e(1) keyed_update)
  next
    assume ev: "ev = delete_event e"
    obtain msg where "Convert ev = Inr msg" "\<And>st. step msg st = st(Entity_GetId e := None)"
      using convert_delete [OF e(1)] ev by blast
    then show thesis
      by (intro that) (auto simp: ev delete_event_def one apply_entity_def d keyed_delete)
  qed
qed

lemma synced_serve_event:
  assumes "synced m" "is_order ord" "serve_event Convert ord m = Some m'"
  shows "synced m'"
proof -
  obtain ev evs where ch: "eventCh m = ev # evs"
    using assms(3) by (cases "eventCh m") (auto simp: serve_event_def)
  have "event_ok ev" using assms(1) ch by (simp add: synced_def)
  then obtain msg where msg: "Convert ev = Inr msg"
    "\<And>es. map_of (fold (\<lambda>(_, e). apply_entity (EventType ev) e) (ord (Entities ev)) es) = step msg (map_of es)"
    "\<And>st. step msg (step msg st) = step msg st"
    "\<And>es. keyed es \<Longrightarrow> keyed (fold (\<lambda>(_, e). apply_entity (EventType ev) e) (ord (Entities ev)) es)"
    using assms(2) by (rule event_ok_convert) blast
  have m': "m' = m\<lparr>eventCh := evs,
      entities := fold (\<lambda>(_, e). apply_entity (EventType ev) e) (ord (Entities ev)) (entities m),
      sent := sent m @ send Convert ev (recipients m)\<rparr>"
    using assms(3) ch by (simp add: serve_event_def)
  have rc: "received r m' = received r m @ map (\<lambda>_. Some msg) (filter (\<lambda>q. q = r) (recipients m))" for r
    using received_send [OF msg(1), of r m "recipients m"] by (simp add: m' received_def)
  have "replica step (received r m') = map_of (entities m')" if "r \<in> set (recipients m)" for r
  proof -
    have "filter (\<lambda>q. q = r) (recipients m) \<noteq> []" using that by (simp add: filter_empty_conv)
    then have "replica step (received r m') = step msg (replica step (received r m))"
      unfolding rc by (rule replica_repeat [OF msg(3)])
    then show ?thesis using that assms(1) by (simp add: synced_def m' msg(2))
  qed
  moreover have "genuine (Some msg)" using msg(1) \<open>event_ok ev\<close> by (auto simp: genuine_def)
  then have "\<forall>msg \<in> snd ` set (sent m'). genuine msg" "\<forall>ev \<in> set (eventCh m'). event_ok ev"
    using assms(1) msg(1) ch by (auto simp: m' synced_def send_def)
  moreover have "keyed (entities m')"
    unfolding m' using msg(4) [of "entities m"] assms(1) by (simp add: synced_def)
  ultimately show ?thesis by (simp add: synced_def m')
qed

lemma synced_run:
  assumes "monitor_run Convert ord accepts m" "is_order ord"
  shows "synced m"
  using assms(1)
proof (induction rule: monitor_run.induct)
  case (run_Serve m m')
  then show ?case
    by (auto elim!: ServeE intro: synced_serve_new synced_serve_closed synced_serve_event [OF _ assms(2)])
next
  case (run_Update m e m')
  have "event_ok (update_event e)" using run_Update(2) by (auto simp: event_ok_def)
  with run_Update show ?case
    by (auto simp: monitor_Update_def chan_send_def intro: synced_queue split: if_splits)
next
  case (run_Delete m e m')
  have "event_ok (delete_event e)" using run_Delete(2) by (auto simp: event_ok_def)
  with run_Delete show ?case
    by (auto simp: monitor_Delete_def chan_send_def intro: synced_queue split: if_splits)
qed (auto simp: synced_def keyed_def NewMonitorServer_def AddRecipient_def DeleteRecipient_def received_def)

lemma replica_exact:
  "monitor_run Convert ord accepts m \<Longrightarrow> is_order ord \<Longrightarrow> r \<in> set (recipients m) \<Longrightarrow>
    replica step (received r m) = map_of (entities m)"
  by (drule (1) synced_run) (simp add: synced_def)

lemma received_genuine:
  "monitor_run Convert ord accepts m \<Longrightarrow> is_order ord \<Longrightarrow> msg \<in> set (received r m) \<Longrightarrow> genuine msg"
  by (drule (1) synced_run) (force simp: synced_def received_def)

end

subsection \<open>The converters keep the contract\<close>

fun is_xcon :: "Entity \<Rightarrow> bool" where
  "is_xcon (XconEntity x) = True"
| "is_xcon _ = False"

fun is_local :: "Entity \<Rightarrow> bool" where
  "is_local (LocalEntity x) = True"
| "is_local _ = False"

fun is_remote :: "Entity \<Rightarrow> bool" where
  "is_remote (RemoteEntity x) = True"
| "is_remote _ = False"

definition xcon_step :: "CrossConnectEvent \<Rightarrow> (string \<rightharpoonup> Entity) \<Rightarrow> (string \<rightharpoonup> Entity)" where
  "xcon_step ev = replica_step (XE_Type ev) (map_option XconEntity \<circ> map_of (XE_CrossConnects ev))"

definition local_step :: "LocalConnectionEvent \<Rightarrow> (string \<rightharpoonup> Entity) \<Rightarrow> (string \<rightharpoonup> Entity)" where
  "local_step ev = replica_step (LE_Type ev) (map_option LocalEntity \<circ> map_of (LE_Connections ev))"

definition remote_step :: "RemoteConnectionEvent \<Rightarrow> (string \<rightharpoonup> Entity) \<Rightarrow> (string \<rightharpoonup> Entity)" where
  "remote_step ev = replica_step (RE_Type ev) (map_option RemoteEntity \<circ> map_of (RE_Connections ev))"

lemma xcon_entities:
  "(\<forall>e \<in> snd ` set es. is_xcon e) \<Longrightarrow>
    \<exists>rv. xcon_convertEntities es = Inr rv \<and> map_option XconEntity \<circ> map_of rv = map_of es"
  by (induction es rule: xcon_convertEntities.induct) (auto simp: fun_eq_iff)

lemma local_entities:
  "(\<forall>e \<in> snd ` set es. is_local e) \<Longrightarrow>
    \<exists>rv. local_convertEntities es = Inr rv \<and> map_option LocalEntity \<circ> map_of rv = map_of es"
  by (induction es rule: local_convertEntities.induct) (auto simp: fun_eq_iff)

lemma remote_entities:
  "(\<forall>e \<in> snd ` set es. is_remote e) \<Longrightarrow>
    \<exists>rv. remote_convertEntities es = Inr rv \<and> map_option RemoteEntity \<circ> map_of rv = map_of es"
  by (induction es rule: remote_convertEntities.induct) (auto simp: fun_eq_iff)

lemmas event_type_defs = UPDATE_def DELETE_def INITIAL_STATE_TRANSFER_def update_event_def delete_event_def

lemma replica_step_single [simp]:
  "replica_step UPDATE_T [k \<mapsto> v] st = st(k \<mapsto> v)"
  "replica_step DELETE_T [k \<mapsto> v] st = st(k := None)"
  by (auto simp: replica_step_def restrict_map_def)

interpretation xcm: event_converter xcon_Convert is_xcon xcon_step
proof unfold_locales
  fix es :: "(string, Entity) gomap" assume "\<And>e. e \<in> snd ` set es \<Longrightarrow> is_xcon e"
  then show "\<exists>msg. xcon_Convert \<lparr>EventType = INITIAL_STATE_TRANSFER, Entities = es\<rparr> = Inr msg \<and> (\<forall>st. xcon_step msg st = map_of es)"
    using xcon_entities [of es]
    by (auto simp: xcon_Convert_def xcon_convertType_def event_type_defs xcon_step_def replica_step_def)
qed (auto simp: xcon_Convert_def xcon_convertType_def event_type_defs xcon_step_def elim: is_xcon.elims)

interpretation lcm: event_converter local_Convert is_local local_step
proof unfold_locales
  fix es :: "(string, Entity) gomap" assume "\<And>e. e \<in> snd ` set es \<Longrightarrow> is_local e"
  then show "\<exists>msg. local_Convert \<lparr>EventType = INITIAL_STATE_TRANSFER, Entities = es\<rparr> = Inr msg \<and> (\<forall>st. local_step msg st = map_of es)"
    using local_entities [of es]
    by (auto simp: local_Convert_def local_convertType_def event_type_defs local_step_def replica_step_def)
qed (auto simp: local_Convert_def local_convertType_def event_type_defs local_step_def elim: is_local.elims)

interpretation rcm: event_converter remote_Convert is_remote remote_step
proof unfold_locales
  fix es :: "(string, Entity) gomap" assume "\<And>e. e \<in> snd ` set es \<Longrightarrow> is_remote e"
  then show "\<exists>msg. remote_Convert \<lparr>EventType = INITIAL_STATE_TRANSFER, Entities = es\<rparr> = Inr msg \<and> (\<forall>st. remote_step msg st = map_of es)"
    using remote_entities [of es]
    by (auto simp: remote_Convert_def remote_convertType_def event_type_defs remote_step_def replica_step_def)
qed (auto simp: remote_Convert_def remote_convertType_def event_type_defs remote_step_def elim: is_remote.elims)

subsection \<open>Progress of the loop\<close>

text \<open>The entities once all queued events are applied.\<close>

definition flushed ::
    "((string \<times> Entity) list \<Rightarrow> (string \<times> Entity) list) \<Rightarrow> ('r, 'm) monitorServerImpl \<Rightarrow> (string, Entity) gomap" where
  "flushed ord m = fold (\<lambda>ev. fold (\<lambda>(_, e). apply_entity (EventType ev) e) (ord (Entities ev))) (eventCh m) (entities m)"

lemmas serve_defs = serve_new_def serve_closed_def serve_event_def

lemma Serve_pending: "Serve Convert ord m m' \<Longrightarrow> Suc (pending m') = pending m"
  by (auto elim!: ServeE simp: serve_defs pending_def split: list.splits)

lemma Serve_flushed: "Serve Convert ord m m' \<Longrightarrow> flushed ord m' = flushed ord m"
  by (auto elim!: ServeE simp: serve_defs flushed_def split: list.splits)

lemma Serve_enabled:
  assumes "pending m \<noteq> 0"
  shows "\<exists>m'. Serve Convert ord m m'"
proof -
  have "serve_new Convert m \<noteq> None \<or> serve_closed m \<noteq> None \<or> serve_event Convert ord m \<noteq> None"
    using assms by (auto simp: pending_def serve_defs split: list.splits)
  then show ?thesis by (auto intro: Serve.intros)
qed

lemma Serve_runs:
  "(Serve Convert ord ^^ n) m m' \<Longrightarrow> n + pending m' = pending m \<and> flushed ord m' = flushed ord m"
proof (induction n arbitrary: m')
  case (Suc n)
  then show ?case by (force dest: Serve_pending Serve_flushed)
qed simp

lemma Serve_runs_out: "\<exists>m'. (Serve Convert ord ^^ pending m) m m'"
proof (induction "pending m" arbitrary: m)
  case (Suc n)
  obtain m1 where m1: "Serve Convert ord m m1" using Serve_enabled [of m] Suc(2) by force
  then have n: "n = pending m1" using Serve_pending Suc(2) by force
  then obtain m' where "(Serve Convert ord ^^ n) m1 m'" using Suc(1) by blast
  with m1 have "(Serve Convert ord ^^ Suc n) m m'" by (rule relpowp_Suc_I2)
  then show ?case using Suc(2) by auto
qed auto

text \<open>
  C15: Every stream of a monitor can follow it. For the monitors of cross connects,
  of local and of remote connections, at any time and for any interleaving of
  producers, joining and leaving streams and the loop: a client that applies the
  messages its stream was sent holds exactly the entities of the monitor.
\<close>

theorem monitor_replicas:
  assumes "is_order ord"
  shows "(monitor_run xcon_Convert ord is_xcon m1 \<and> r \<in> set (recipients m1) \<longrightarrow>
      replica xcon_step (received r m1) = map_of (entities m1)) \<and>
    (monitor_run local_Convert ord is_local m2 \<and> r \<in> set (recipients m2) \<longrightarrow>
      replica local_step (received r m2) = map_of (entities m2)) \<and>
    (monitor_run remote_Convert ord is_remote m3 \<and> r \<in> set (recipients m3) \<longrightarrow>
      replica remote_step (received r m3) = map_of (entities m3))"
  using assms by (auto intro: xcm.replica_exact lcm.replica_exact rcm.replica_exact)

definition ex_xcon :: CrossConnect where
  "ex_xcon = \<lparr>X_Id = ''1'', X_Payload = ''IP'', X_Source = None, X_Destination = None\<rparr>"

definition ex_monitor :: "(nat, CrossConnectEvent) monitorServerImpl" where
  "ex_monitor = the (serve_event xcon_Convert id (the (monitor_Update (XconEntity (Some ex_xcon))
     (the (serve_new xcon_Convert (the (AddRecipient 7 NewMonitorServer)))))))"

lemma ex_monitor_run:
  assumes "accepts (XconEntity (Some ex_xcon))"
  shows "monitor_run xcon_Convert id accepts ex_monitor"
proof -
  have "monitor_run xcon_Convert id accepts (the (AddRecipient (7::nat) NewMonitorServer))"
    by (rule run_Add [OF run_New]) (simp add: AddRecipient_def chan_send_def NewMonitorServer_def defaultSize_def)
  then have "monitor_run xcon_Convert id accepts (the (serve_new xcon_Convert (the (AddRecipient (7::nat) NewMonitorServer))))"
    by (rule run_Serve [OF _ Serve_new])
      (simp add: AddRecipient_def chan_send_def NewMonitorServer_def defaultSize_def serve_new_def)
  then have "monitor_run xcon_Convert id accepts (the (monitor_Update (XconEntity (Some ex_xcon))
     (the (serve_new xcon_Convert (the (AddRecipient (7::nat) NewMonitorServer))))))"
    by (rule run_Update [where e = "XconEntity (Some ex_xcon)"])
      (use assms in \<open>simp_all add: AddRecipient_def chan_send_def NewMonitorServer_def defaultSize_def serve_new_def
          monitor_Update_def\<close>)
  then show ?thesis unfolding ex_monitor_def
    by (rule run_Serve [OF _ Serve_event])
      (simp add: AddRecipient_def chan_send_def NewMonitorServer_def defaultSize_def serve_new_def
        monitor_Update_def serve_event_def)
qed

theorem monitor_replicas_witness:
  "7 \<in> set (recipients ex_monitor) \<and> length (received 7 ex_monitor) = 2 \<and>
    replica xcon_step (received 7 ex_monitor) = map_of (entities ex_monitor)"
proof -
  have "7 \<in> set (recipients ex_monitor)" "length (received 7 ex_monitor) = 2" by code_simp+
  with monitor_replicas [of id ex_monitor 7] ex_monitor_run [of is_xcon] show ?thesis by (auto simp: is_order_def)
qed



text \<open>
  The filter is bypassed: the message of a connection between two other managers
  passes \<open>SendMsg\<close> of a filtered stream unchanged, although \<open>Send\<close> would drop it.
\<close>

lemma filter_bypassed:
  fixes s :: nat
  assumes "\<not> selects (Some n) (Some c)"
  defines "ev \<equiv> \<lparr>RE_Type = UPDATE_T, RE_Connections = [(R_Id c, Some c)]\<rparr>"
    and "d \<equiv> NewMonitorConnectionFilter (Some n) s"
  shows "filter_Send d ev = []" "filter_SendMsg d (Some ev) = [(s, Some ev)]"
  using assms by (simp_all add: filter_Send_def filter_SendMsg_def NewMonitorConnectionFilter_def)

end
