(* ===== verification/NetNs.thy ===== *)
theory NetNs
  imports Monitor
begin

text \<open>
  The network namespace monitor of the dataplane (\<open>monitor_crossconnect_server\<close>):
  a recipient of the cross connect monitor that keeps a copy of the cross
  connects, and every three seconds marks those ends \<open>DOWN\<close> whose network
  namespace is gone, reporting each change back to the monitor. The live
  namespaces are read from \<open>/proc\<close> (\<open>utils/fs\<close>); the directory, the inode of a
  file and the command line of a process are arguments.
\<close>

subsection \<open>Network namespaces under /proc\<close>

definition isDigits :: "string \<Rightarrow> bool" where
  "isDigits s \<longleftrightarrow> list_all is_dec s"

definition netns_file :: "string \<Rightarrow> string" where
  "netns_file name = ''/proc/'' @ name @ ''/ns/net''"

text \<open>\<open>stat\<close> is \<open>GetInode\<close>; a process that ends while the directory is read is skipped.\<close>

definition GetAllNetNs :: "string list result \<Rightarrow> (string \<Rightarrow> (64 word) result) \<Rightarrow> (64 word) list result" where
  "GetAllNetNs files stat =
     (case files of
        Inl _ \<Rightarrow> Inl (Errorf ''can't read /proc directory: %+v'')
      | Inr fs \<Rightarrow> Inr (concat (map (\<lambda>name. case stat (netns_file name) of Inl _ \<Rightarrow> [] | Inr i \<Rightarrow> [i]) (filter isDigits fs))))"

text \<open>\<open>strings.Contains\<close>.\<close>

fun contains_at :: "string \<Rightarrow> string \<Rightarrow> bool" where
  "contains_at [] pat = (pat = [])"
| "contains_at (c # cs) pat = (take (length pat) (c # cs) = pat \<or> contains_at cs pat)"

fun resolve_files :: "(string \<Rightarrow> (64 word) result) \<Rightarrow> (string \<Rightarrow> string result) \<Rightarrow> 64 word \<Rightarrow> string list \<Rightarrow> string result" where
  "resolve_files stat cmdline inode [] = Inl (Errorf ''not found'')"
| "resolve_files stat cmdline inode (name # fs) =
     (if isDigits name \<and> stat (netns_file name) = Inr inode \<and>
         (case cmdline name of Inl _ \<Rightarrow> False | Inr c \<Rightarrow> contains_at c ''pause'')
      then Inr (netns_file name) else resolve_files stat cmdline inode fs)"

definition ResolvePodNsByInode ::
    "string list result \<Rightarrow> (string \<Rightarrow> (64 word) result) \<Rightarrow> (string \<Rightarrow> string result) \<Rightarrow> 64 word \<Rightarrow> string result" where
  "ResolvePodNsByInode files stat cmdline inode =
     (case files of
        Inl _ \<Rightarrow> Inl (Errorf ''can't read /proc directory: %+v'')
      | Inr fs \<Rightarrow> resolve_files stat cmdline inode fs)"

subsection \<open>Sets of inodes\<close>

record InodeSet =
  inodes :: "(64 word, bool) gomap"

definition NewInodeSet :: "(64 word) list \<Rightarrow> InodeSet" where
  "NewInodeSet is = \<lparr>inodes = fold (\<lambda>i. AList.update i True) is []\<rparr>"

definition InodeSet_Contains :: "InodeSet \<Rightarrow> 64 word \<Rightarrow> bool" where
  "InodeSet_Contains i inode \<longleftrightarrow> map_of (inodes i) inode \<noteq> None"

subsection \<open>The server\<close>

record MonitorNetNsInodeServer =
  crossConnects :: "(string, CrossConnect) gomap"
  crossConnectEventCh :: "CrossConnectEvent list"

definition copyEvent :: "CrossConnectEvent \<Rightarrow> CrossConnectEvent" where
  "copyEvent event = \<lparr>XE_Type = XE_Type event,
     XE_CrossConnects = filter (\<lambda>(_, v). v \<noteq> None) (XE_CrossConnects event)\<rparr>"

text \<open>\<open>SendMsg\<close> is called by the loop of the cross connect monitor, which waits while the channel is full.\<close>

definition netns_SendMsg ::
    "CrossConnectEvent option \<Rightarrow> MonitorNetNsInodeServer \<Rightarrow> (error option \<times> MonitorNetNsInodeServer) option" where
  "netns_SendMsg msg m =
     (case msg of
        None \<Rightarrow> Some (Some (Errorf ''wrong type of msg, CrossConnectEvent is needed''), m)
      | Some event \<Rightarrow>
          map_option (\<lambda>ch. (None, m\<lparr>crossConnectEventCh := ch\<rparr>))
            (chan_send (copyEvent event) (crossConnectEventCh m)))"

definition event_xcons :: "CrossConnectEvent \<Rightarrow> CrossConnect list" where
  "event_xcons ev = concat (map (\<lambda>(_, v). case v of None \<Rightarrow> [] | Some x \<Rightarrow> [x]) (XE_CrossConnects ev))"

definition handleEvent :: "CrossConnectEvent \<Rightarrow> MonitorNetNsInodeServer \<Rightarrow> MonitorNetNsInodeServer" where
  "handleEvent event m =
     (case XE_Type event of
        INITIAL_STATE_TRANSFER_T \<Rightarrow>
          m\<lparr>crossConnects := fold (\<lambda>x. AList.update (X_Id x) x) (event_xcons event) []\<rparr>
      | UPDATE_T \<Rightarrow>
          m\<lparr>crossConnects := fold (\<lambda>x. AList.update (X_Id x) x) (event_xcons event) (crossConnects m)\<rparr>
      | DELETE_T \<Rightarrow>
          m\<lparr>crossConnects := fold (\<lambda>x. AList.delete (X_Id x)) (event_xcons event) (crossConnects m)\<rparr>)"

text \<open>
  One end of a cross connect: the state of its connection after the check, and
  whether it changed. The change is made in place, through the pointer both the
  cross connect and the check hold.
\<close>

definition checkConnectionLiveness :: "LocalConnection \<Rightarrow> InodeSet \<Rightarrow> (State \<times> bool) result" where
  "checkConnectionLiveness conn inodeSet =
     (case ParseUint (GetNetNsInode (L_Mechanism conn)) 64 of
        Inl e \<Rightarrow> Inl e
      | Inr inode \<Rightarrow>
          if \<not> InodeSet_Contains inodeSet (of_nat inode) \<and> L_State conn = UP then Inr (DOWN, True)
          else Inr (L_State conn, False))"

definition check_source :: "InodeSet \<Rightarrow> CrossConnect \<Rightarrow> (CrossConnect \<times> CrossConnect list) result" where
  "check_source inodeSet x =
     (case GetLocalSource (Some x) of
        None \<Rightarrow> Inr (x, [])
      | Some conn \<Rightarrow>
          (case checkConnectionLiveness conn inodeSet of
             Inl e \<Rightarrow> Inl e
           | Inr (st, changed) \<Rightarrow>
               (let x' = x\<lparr>X_Source := Some (Local (conn\<lparr>L_State := st\<rparr>))\<rparr> in
                Inr (x', if changed then [x'] else []))))"

definition check_destination :: "InodeSet \<Rightarrow> CrossConnect \<Rightarrow> (CrossConnect \<times> CrossConnect list) result" where
  "check_destination inodeSet x =
     (case GetLocalDestination (Some x) of
        None \<Rightarrow> Inr (x, [])
      | Some conn \<Rightarrow>
          (case checkConnectionLiveness conn inodeSet of
             Inl e \<Rightarrow> Inl e
           | Inr (st, changed) \<Rightarrow>
               (let x' = x\<lparr>X_Destination := Some (Local (conn\<lparr>L_State := st\<rparr>))\<rparr> in
                Inr (x', if changed then [x'] else []))))"

text \<open>
  The loop over the cross connects: the map after it, the updates given to the
  cross connect monitor, and the error it ended with. The first end that cannot
  be checked ends the loop.
\<close>

fun check_loop :: "InodeSet \<Rightarrow> (string \<times> CrossConnect) list \<Rightarrow> (string, CrossConnect) gomap \<Rightarrow>
    (string, CrossConnect) gomap \<times> CrossConnect list \<times> error option" where
  "check_loop s [] cs = (cs, [], None)"
| "check_loop s ((k, x) # xs) cs =
     (case check_source s x of
        Inl e \<Rightarrow> (cs, [], Some e)
      | Inr (x1, u1) \<Rightarrow>
          (case check_destination s x1 of
             Inl e \<Rightarrow> (AList.update k x1 cs, u1, Some e)
           | Inr (x2, u2) \<Rightarrow>
               (case check_loop s xs (AList.update k x2 cs) of
                  (cs', us, r) \<Rightarrow> (cs', u1 @ u2 @ us, r))))"

definition checkCrossConnectLiveness ::
    "((string \<times> CrossConnect) list \<Rightarrow> (string \<times> CrossConnect) list) \<Rightarrow> (64 word) list result \<Rightarrow>
     MonitorNetNsInodeServer \<Rightarrow> MonitorNetNsInodeServer \<times> CrossConnect list \<times> error option" where
  "checkCrossConnectLiveness ord liveInodes m =
     (case liveInodes of
        Inl e \<Rightarrow> (m, [], Some e)
      | Inr is \<Rightarrow>
          (case check_loop (NewInodeSet is) (ord (crossConnects m)) (crossConnects m) of
             (cs, us, r) \<Rightarrow> (m\<lparr>crossConnects := cs\<rparr>, us, r)))"

subsection \<open>The copy of the cross connects\<close>

text \<open>Entities of this program's producers are never nil here: a cross connect under its id.\<close>

fun real_xcon :: "Entity \<Rightarrow> bool" where
  "real_xcon (XconEntity (Some x)) = True"
| "real_xcon _ = False"

lemma real_is_xcon: "real_xcon e \<Longrightarrow> is_xcon e"
  by (cases e rule: real_xcon.cases) auto

interpretation nnm: event_converter xcon_Convert real_xcon xcon_step
  by unfold_locales
    (rule xcm.convert_update xcm.convert_delete xcm.convert_initial; use real_is_xcon in blast)+

definition netns_entities :: "MonitorNetNsInodeServer \<Rightarrow> (string \<rightharpoonup> Entity)" where
  "netns_entities m = map_option (\<lambda>x. XconEntity (Some x)) \<circ> map_of (crossConnects m)"

definition good_msg :: "CrossConnectEvent \<Rightarrow> bool" where
  "good_msg ev \<longleftrightarrow> (\<forall>(k, v) \<in> set (XE_CrossConnects ev). \<exists>x. v = Some x \<and> k = X_Id x) \<and>
     gomap_ok (XE_CrossConnects ev)"

lemma good_xcons:
  assumes "\<forall>(k, v) \<in> set cs. \<exists>x. v = Some x \<and> k = X_Id x"
  shows "cs = map (\<lambda>x. (X_Id x, Some x)) (concat (map (\<lambda>(_, v). case v of None \<Rightarrow> [] | Some x \<Rightarrow> [x]) cs))"
  using assms by (induction cs) auto

lemma map_of_fold_update:
  "distinct (map f xs) \<Longrightarrow>
    map_of (fold (\<lambda>x. AList.update (f x) x) xs m) = map_of m ++ map_of (map (\<lambda>x. (f x, x)) xs)"
proof (induction xs arbitrary: m)
  case (Cons x xs)
  have "map_of (map (\<lambda>x. (f x, x)) xs) (f x) = None" using Cons(2) by (auto simp: map_of_eq_None_iff)
  then show ?case using Cons by (auto simp: fun_eq_iff map_add_def split: option.split)
qed simp

lemma map_of_fold_delete:
  "map_of (fold (\<lambda>x. AList.delete (f x)) xs m) = map_of m |` (- f ` set xs)"
  by (induction xs arbitrary: m) (auto simp: restrict_map_def fun_eq_iff)

lemma handle_good:
  assumes "good_msg ev"
  shows "netns_entities (handleEvent (copyEvent ev) m) = xcon_step ev (netns_entities m)"
proof -
  let ?xs = "event_xcons ev"
  have xs: "XE_CrossConnects ev = map (\<lambda>x. (X_Id x, Some x)) ?xs"
    unfolding event_xcons_def by (rule good_xcons) (use assms in \<open>simp add: good_msg_def\<close>)
  have d: "distinct (map X_Id ?xs)"
    using assms unfolding good_msg_def gomap_ok_def by (subst (asm) (2) xs) (simp add: o_def)
  have "XE_CrossConnects (copyEvent ev) = XE_CrossConnects ev"
    using assms by (fastforce simp: copyEvent_def good_msg_def intro!: filter_True)
  then have c: "event_xcons (copyEvent ev) = ?xs" by (simp add: event_xcons_def)
  have "map_option XconEntity (map_of (map (\<lambda>x. (X_Id x, Some x)) ys) k) =
      map_option (\<lambda>x. XconEntity (Some x)) (map_of (map (\<lambda>x. (X_Id x, x)) ys) k)" for ys k
    by (induction ys) auto
  then have m: "map_option XconEntity \<circ> map_of (XE_CrossConnects ev) =
      map_option (\<lambda>x. XconEntity (Some x)) \<circ> map_of (map (\<lambda>x. (X_Id x, x)) ?xs)"
    by (subst xs) (auto simp: fun_eq_iff)
  have t: "XE_Type (copyEvent ev) = XE_Type ev" by (simp add: copyEvent_def)
  show ?thesis
    unfolding netns_entities_def xcon_step_def m
    by (cases "XE_Type ev")
      (auto simp: handleEvent_def t c map_of_fold_update [OF d] map_of_fold_delete replica_step_def fun_eq_iff
        map_add_def restrict_map_def dom_map_of_conv_image_fst image_image split: option.split)
qed

lemma xcon_entities_list:
  "xcon_convertEntities es = Inr rv \<Longrightarrow>
    map fst rv = map fst es \<and> (\<forall>(k, v) \<in> set rv. (k, XconEntity v) \<in> set es)"
  by (induction es arbitrary: rv rule: xcon_convertEntities.induct) (auto split: sum.splits)

lemma real_xconE: "real_xcon (XconEntity v) \<Longrightarrow> \<exists>x. v = Some x"
  by (cases v) auto

lemma genuine_good:
  assumes "nnm.genuine msg"
  shows "\<exists>ev. msg = Some ev \<and> good_msg ev"
proof -
  obtain ev x where ev: "msg = Some x" "xcon_Convert ev = Inr x"
    "nnm.event_ok ev \<or> (EventType ev = INITIAL_STATE_TRANSFER \<and> nnm.keyed (Entities ev))"
    using assms by (auto simp: nnm.genuine_def)
  have k: "nnm.keyed (Entities ev)"
    using ev(3) by (auto simp: nnm.event_ok_def nnm.keyed_def update_event_def delete_event_def gomap_ok_def)
  have c: "xcon_convertEntities (Entities ev) = Inr (XE_CrossConnects x)"
    using ev(2) by (auto simp: xcon_Convert_def split: sum.splits)
  have "\<exists>y. v = Some y \<and> k = X_Id y" if "(k, v) \<in> set (XE_CrossConnects x)" for k v
  proof -
    have "(k, XconEntity v) \<in> set (Entities ev)" using xcon_entities_list [OF c] that by auto
    then have "real_xcon (XconEntity v)" "k = XC_GetId v" using nnm.keyed_def k by fastforce+
    then show ?thesis using real_xconE by (force simp: XC_GetId_def)
  qed
  moreover have "gomap_ok (XE_CrossConnects x)"
    using k xcon_entities_list [OF c] by (simp add: nnm.keyed_def gomap_ok_def)
  ultimately show ?thesis using ev(1) by (auto simp: good_msg_def)
qed

definition NewMonitorNetNsInodeServer :: MonitorNetNsInodeServer where
  "NewMonitorNetNsInodeServer = \<lparr>crossConnects = [], crossConnectEventCh = []\<rparr>"

text \<open>The server after it has handled a list of messages.\<close>

definition netns_follow :: "CrossConnectEvent option list \<Rightarrow> MonitorNetNsInodeServer" where
  "netns_follow msgs = fold (\<lambda>msg m. case msg of None \<Rightarrow> m | Some ev \<Rightarrow> handleEvent (copyEvent ev) m)
     msgs NewMonitorNetNsInodeServer"

lemma netns_follow_replica:
  "\<forall>msg \<in> set msgs. \<exists>ev. msg = Some ev \<and> good_msg ev \<Longrightarrow>
    netns_entities (netns_follow msgs) = replica xcon_step msgs"
proof (induction msgs rule: rev_induct)
  case Nil
  show ?case by (simp add: netns_follow_def replica_def netns_entities_def NewMonitorNetNsInodeServer_def)
next
  case (snoc msg msgs)
  then show ?case by (auto simp: netns_follow_def replica_def handle_good)
qed

text \<open>
  C16: The namespace monitor refines the cross connect monitor. Whatever
  interleaving of producers, recipients and the loop led to a state of the cross
  connect monitor, the namespace monitor that has handled the messages sent to it
  holds exactly the cross connects of the monitor, under the same ids.
\<close>

theorem netns_refines_monitor:
  assumes "monitor_run xcon_Convert ord real_xcon m" "is_order ord" "r \<in> set (recipients m)"
  shows "netns_entities (netns_follow (received r m)) = map_of (entities m)"
  using netns_follow_replica [of "received r m"] genuine_good nnm.received_genuine [OF assms(1,2)]
    nnm.replica_exact [OF assms] by auto

theorem netns_refines_monitor_witness:
  "netns_entities (netns_follow (received 7 ex_monitor)) = [''1'' \<mapsto> XconEntity (Some ex_xcon)]"
proof -
  have "7 \<in> set (recipients ex_monitor)" "entities ex_monitor = [(''1'', XconEntity (Some ex_xcon))]"
    by code_simp+
  with netns_refines_monitor [of id ex_monitor 7] ex_monitor_run [of real_xcon] show ?thesis by (simp add: is_order_def)
qed

subsection \<open>What a liveness check does\<close>

definition inode_of :: "LocalConnection \<Rightarrow> nat result" where
  "inode_of c = ParseUint (GetNetNsInode (L_Mechanism c)) 64"

definition dead :: "(64 word) list \<Rightarrow> LocalConnection \<Rightarrow> bool" where
  "dead live c \<longleftrightarrow> L_State c = UP \<and> (\<forall>n. inode_of c = Inr n \<longrightarrow> of_nat n \<notin> set live)"

fun down_end :: "(64 word) list \<Rightarrow> NSMConnection option \<Rightarrow> NSMConnection option" where
  "down_end live (Some (Local c)) = Some (Local (if dead live c then c\<lparr>L_State := DOWN\<rparr> else c))"
| "down_end live e = e"

fun end_dead :: "(64 word) list \<Rightarrow> NSMConnection option \<Rightarrow> bool" where
  "end_dead live (Some (Local c)) = dead live c"
| "end_dead live e = False"

fun end_readable :: "NSMConnection option \<Rightarrow> bool" where
  "end_readable (Some (Local c)) = (\<exists>n. inode_of c = Inr n)"
| "end_readable e = True"

definition downed :: "(64 word) list \<Rightarrow> CrossConnect \<Rightarrow> CrossConnect" where
  "downed live x = x\<lparr>X_Source := down_end live (X_Source x), X_Destination := down_end live (X_Destination x)\<rparr>"

definition dead_ends :: "(64 word) list \<Rightarrow> CrossConnect \<Rightarrow> nat" where
  "dead_ends live x = of_bool (end_dead live (X_Source x)) + of_bool (end_dead live (X_Destination x))"

definition readable :: "CrossConnect \<Rightarrow> bool" where
  "readable x \<longleftrightarrow> end_readable (X_Source x) \<and> end_readable (X_Destination x)"

lemma NewInodeSet_Contains [simp]: "InodeSet_Contains (NewInodeSet is) i \<longleftrightarrow> i \<in> set is"
proof -
  have "map_of (fold (\<lambda>i. AList.update i True) is m) i \<noteq> None \<longleftrightarrow> i \<in> set is \<or> map_of m i \<noteq> None" for m
    by (induction "is" arbitrary: m) auto
  then show ?thesis by (simp add: InodeSet_Contains_def NewInodeSet_def)
qed

lemma checkConnectionLiveness_eq:
  "checkConnectionLiveness c (NewInodeSet live) =
    (case inode_of c of Inl e \<Rightarrow> Inl e | Inr n \<Rightarrow> Inr (if dead live c then (DOWN, True) else (L_State c, False)))"
  by (auto simp: checkConnectionLiveness_def inode_of_def dead_def split: sum.split)

lemma check_source_eq:
  "check_source (NewInodeSet live) x =
    (let x' = x\<lparr>X_Source := down_end live (X_Source x)\<rparr> in
     Inr (x', if end_dead live (X_Source x) then [x'] else []))" if "end_readable (X_Source x)"
  using that
  by (cases "(live, X_Source x)" rule: down_end.cases)
    (auto simp: check_source_def GetLocalSource_def GetSource_def checkConnectionLiveness_eq Let_def)

lemma check_source_fails: "\<not> end_readable (X_Source x) \<Longrightarrow> \<exists>e. check_source (NewInodeSet live) x = Inl e"
  by (cases "X_Source x" rule: end_readable.cases)
    (auto simp: check_source_def GetLocalSource_def GetSource_def checkConnectionLiveness_eq split: sum.split)

lemma check_destination_fails:
  "\<not> end_readable (X_Destination x) \<Longrightarrow> \<exists>e. check_destination (NewInodeSet live) x = Inl e"
  by (cases "X_Destination x" rule: end_readable.cases)
    (auto simp: check_destination_def GetLocalDestination_def GetDestination_def checkConnectionLiveness_eq
      split: sum.split)

lemma check_destination_eq:
  "check_destination (NewInodeSet live) x =
    (let x' = x\<lparr>X_Destination := down_end live (X_Destination x)\<rparr> in
     Inr (x', if end_dead live (X_Destination x) then [x'] else []))" if "end_readable (X_Destination x)"
  using that
  by (cases "(live, X_Destination x)" rule: down_end.cases)
    (auto simp: check_destination_def GetLocalDestination_def GetDestination_def checkConnectionLiveness_eq Let_def)

lemma down_end_id: "\<not> end_dead live e \<Longrightarrow> down_end live e = e"
  by (cases "(live, e)" rule: down_end.cases) auto

lemma check_loop_ok:
  "\<forall>(k, x) \<in> set xs. readable x \<Longrightarrow>
   \<exists>us. check_loop (NewInodeSet live) xs cs = (fold (\<lambda>(k, x). AList.update k (downed live x)) xs cs, us, None) \<and>
     length us = (\<Sum>(k, x)\<leftarrow>xs. dead_ends live x) \<and>
     (\<forall>(k, x) \<in> set xs. dead_ends live x \<noteq> 0 \<longrightarrow> downed live x \<in> set us)"
proof (induction xs arbitrary: cs)
  case (Cons kx xs)
  obtain k x where kx: "kx = (k, x)" by force
  have r: "end_readable (X_Source x)" "end_readable (X_Destination x)"
    using Cons(2) kx by (auto simp: readable_def)
  have "\<forall>(k, x) \<in> set xs. readable x" using Cons(2) by simp
  from Cons(1) [OF this, of "AList.update k (downed live x) cs"] obtain us where
    us: "check_loop (NewInodeSet live) xs (AList.update k (downed live x) cs) =
      (fold (\<lambda>(k, x). AList.update k (downed live x)) xs (AList.update k (downed live x) cs), us, None)"
      "length us = (\<Sum>(k, x)\<leftarrow>xs. dead_ends live x)"
      "\<forall>(k, x) \<in> set xs. dead_ends live x \<noteq> 0 \<longrightarrow> downed live x \<in> set us" by blast
  let ?x1 = "x\<lparr>X_Source := down_end live (X_Source x)\<rparr>"
  have x1: "end_readable (X_Destination ?x1)" "?x1\<lparr>X_Destination := down_end live (X_Destination x)\<rparr> = downed live x"
    using r(2) by (simp_all add: downed_def)
  let ?u1 = "if end_dead live (X_Source x) then [?x1] else []"
  let ?u2 = "if end_dead live (X_Destination x) then [downed live x] else []"
  have loop: "check_loop (NewInodeSet live) (kx # xs) cs =
      (fold (\<lambda>(k, x). AList.update k (downed live x)) (kx # xs) cs, ?u1 @ ?u2 @ us, None)"
    unfolding kx check_loop.simps check_source_eq [OF r(1)] Let_def sum.case prod.case
      check_destination_eq [OF x1(1)] using us(1) x1(2) by simp
  have "downed live x \<in> set (?u1 @ ?u2 @ us)" if "dead_ends live x \<noteq> 0"
    using that x1(2) down_end_id [of live "X_Destination x"]
    by (cases "end_dead live (X_Destination x)") (auto simp: dead_ends_def)
  then show ?case using loop us(2,3) by (intro exI [of _ "?u1 @ ?u2 @ us"]) (auto simp: kx dead_ends_def)
qed simp

lemma check_loop_fails:
  "\<exists>(k, x) \<in> set xs. \<not> readable x \<Longrightarrow> \<exists>cs' us e. check_loop (NewInodeSet live) xs cs = (cs', us, Some e)"
proof (induction xs arbitrary: cs)
  case (Cons kx xs)
  obtain k x where kx: "kx = (k, x)" by force
  show ?case
  proof (cases "readable x")
    case True
    then have "\<exists>(k, x) \<in> set xs. \<not> readable x" using Cons(2) kx by auto
    note ih = Cons(1) [OF this]
    show ?thesis
    proof (cases "check_destination (NewInodeSet live) (fst (projr (check_source (NewInodeSet live) x)))")
      case (Inr d)
      then show ?thesis
        using ih [of "AList.update k (fst d) cs"] by (auto simp: kx split: sum.split prod.split)
    qed (auto simp: kx split: sum.split prod.split)
  next
    case False
    show ?thesis
    proof (cases "end_readable (X_Source x)")
      case True
      then have "\<not> end_readable (X_Destination (x\<lparr>X_Source := down_end live (X_Source x)\<rparr>))"
        using False by (simp add: readable_def)
      from check_destination_fails [OF this] obtain e where
        "check_destination (NewInodeSet live) (x\<lparr>X_Source := down_end live (X_Source x)\<rparr>) = Inl e" ..
      with True show ?thesis by (simp add: kx check_source_eq Let_def)
    next
      case False
      from check_source_fails [OF this] obtain e where "check_source (NewInodeSet live) x = Inl e" ..
      then show ?thesis by (simp add: kx)
    qed
  qed
qed simp

lemma map_of_fold_downed:
  assumes "distinct (map fst xs)"
  shows "map_of (fold (\<lambda>(k, x). AList.update k (f x)) xs cs) = map_of cs ++ (map_option f \<circ> map_of xs)"
  using assms
proof (induction xs arbitrary: cs)
  case (Cons kx xs)
  obtain k x where kx: "kx = (k, x)" by force
  have "map_of xs k = None" using Cons(2) by (auto simp: kx map_of_eq_None_iff)
  then show ?case using Cons by (auto simp: kx fun_eq_iff map_add_def split: option.split)
qed (simp add: fun_eq_iff map_add_def)

text \<open>
  C17: A liveness check marks exactly the dead ends. If every local end names a
  readable inode, then in whatever order the cross connects are visited, the check
  ends without error; each cross connect then has those ends \<open>DOWN\<close> that were up
  and whose namespace is gone, and nothing else is changed; the monitor is given
  one update per such end, and for every changed cross connect its final version.
  If some end is not readable, the check ends with an error.
\<close>

theorem liveness_check_exact:
  assumes "gomap_ok (crossConnects m)" "is_order ord"
  shows "if \<forall>(k, x) \<in> set (crossConnects m). readable x then
      (\<exists>m' us. checkCrossConnectLiveness ord (Inr live) m = (m', us, None) \<and>
        map_of (crossConnects m') = map_option (downed live) \<circ> map_of (crossConnects m) \<and>
        length us = (\<Sum>(k, x)\<leftarrow>crossConnects m. dead_ends live x) \<and>
        (\<forall>(k, x) \<in> set (crossConnects m). dead_ends live x \<noteq> 0 \<longrightarrow> downed live x \<in> set us))
    else \<exists>m' us e. checkCrossConnectLiveness ord (Inr live) m = (m', us, Some e)"
proof -
  let ?xs = "ord (crossConnects m)"
  have s: "set ?xs = set (crossConnects m)" by (rule is_order_set [OF assms(2)])
  show ?thesis
  proof (cases "\<forall>(k, x) \<in> set (crossConnects m). readable x")
    case True
    have ms: "mset ?xs = mset (crossConnects m)" by (rule is_order_mset [OF assms(2)])
    then have d: "distinct (map fst ?xs)"
      using assms(1) by (metis gomap_ok_def mset_map mset_eq_imp_distinct_iff)
    then have mo: "map_of ?xs = map_of (crossConnects m)"
      using assms(1) s by (metis gomap_ok_def map_of_inject_set)
    have su: "(\<Sum>(k, x)\<leftarrow>?xs. dead_ends live x) = (\<Sum>(k, x)\<leftarrow>crossConnects m. dead_ends live x)"
      by (metis ms mset_map sum_mset_sum_list)
    have "\<forall>(k, x) \<in> set ?xs. readable x" using True s by simp
    from check_loop_ok [OF this, of live "crossConnects m"] obtain us where
      us: "check_loop (NewInodeSet live) ?xs (crossConnects m) =
        (fold (\<lambda>(k, x). AList.update k (downed live x)) ?xs (crossConnects m), us, None)"
      "length us = (\<Sum>(k, x)\<leftarrow>?xs. dead_ends live x)"
      "\<forall>(k, x) \<in> set ?xs. dead_ends live x \<noteq> 0 \<longrightarrow> downed live x \<in> set us" by blast
    have "map_of (fold (\<lambda>(k, x). AList.update k (downed live x)) ?xs (crossConnects m)) =
        map_option (downed live) \<circ> map_of (crossConnects m)"
      unfolding map_of_fold_downed [OF d] mo by (auto simp: fun_eq_iff map_add_def split: option.split)
    then show ?thesis using True us s su by (simp add: checkCrossConnectLiveness_def)
  next
    case False
    then have "\<exists>(k, x) \<in> set ?xs. \<not> readable x" using s by blast
    from check_loop_fails [OF this, of live "crossConnects m"] show ?thesis
      using False by (auto simp: checkCrossConnectLiveness_def)
  qed
qed

definition ex_end :: "string \<Rightarrow> LocalConnection" where
  "ex_end inode = \<lparr>L_Id = ''1'', L_NetworkService = ''icmp'',
     L_Mechanism = Some \<lparr>LM_Type = KERNEL_INTERFACE, LM_Parameters = Some [(''netnsInode'', inode)]\<rparr>,
     L_Context = None, L_Labels = [], L_State = UP\<rparr>"

definition ex_netns :: MonitorNetNsInodeServer where
  "ex_netns = \<lparr>crossConnects = [(''1'', ex_xcon\<lparr>X_Source := Some (Local (ex_end ''41'')),
     X_Destination := Some (Local (ex_end ''42''))\<rparr>)], crossConnectEventCh = []\<rparr>"

theorem liveness_check_exact_witness:
  "\<exists>m' us. checkCrossConnectLiveness id (Inr [41]) ex_netns = (m', us, None) \<and> length us = 1"
proof -
  have i: "inode_of (ex_end ''41'') = Inr 41" "inode_of (ex_end ''42'') = Inr 42"
    by (simp_all add: inode_of_def ex_end_def GetNetNsInode_def LM_parameter_def NetNsInodeKey_def ParseUint_def
        is_dec_def dec_val_def of_char_def)
  have "\<forall>(k, x) \<in> set (crossConnects ex_netns). readable x"
    by (simp add: ex_netns_def readable_def i)
  moreover have "(\<Sum>(k, x)\<leftarrow>crossConnects ex_netns. dead_ends [41] x) = 1"
    by (simp add: ex_netns_def dead_ends_def dead_def i) (simp add: ex_end_def)
  ultimately show ?thesis
    using liveness_check_exact [of ex_netns id "[41]"] by (auto simp: is_order_def ex_netns_def gomap_ok_def)
qed

end
