(* ===== verification/NetNsLoop.thy ===== *)
theory NetNsLoop
  imports NetNs
begin

text \<open>
  The namespace monitor and the cross connect monitor feed each other: the check
  of the one calls \<open>Update\<close> of the other, whose loop sends the event back with
  \<open>SendMsg\<close>. Both channels hold ten entries, and the namespace monitor reads its
  channel only between two checks. This theory composes the two loops, and
  determines how many updates a check can make.
\<close>

text \<open>
  \<open>fb_inflight\<close> is the message the loop \<open>Serve\<close> is handing to \<open>SendMsg\<close>, and
  \<open>fb_todo\<close> the updates the running check has still to make.
\<close>

record feedback =
  fb_mon :: "(nat, CrossConnectEvent) monitorServerImpl"
  fb_inflight :: "CrossConnectEvent option option"
  fb_netns :: MonitorNetNsInodeServer
  fb_todo :: "CrossConnect list"

inductive fb_step :: "((string \<times> Entity) list \<Rightarrow> (string \<times> Entity) list) \<Rightarrow>
    ((string \<times> CrossConnect) list \<Rightarrow> (string \<times> CrossConnect) list) \<Rightarrow> feedback \<Rightarrow> feedback \<Rightarrow> bool" for ord xord where
  fb_put: "fb_todo s = x # xs \<Longrightarrow> monitor_Update (XconEntity (Some x)) (fb_mon s) = Some m \<Longrightarrow>
    fb_step ord xord s (s\<lparr>fb_mon := m, fb_todo := xs\<rparr>)"
| fb_serve: "fb_inflight s = None \<Longrightarrow> serve_event xcon_Convert ord (fb_mon s) = Some m \<Longrightarrow>
    fb_step ord xord s (s\<lparr>fb_mon := m, fb_inflight := Some (snd (last (sent m)))\<rparr>)"
| fb_deliver: "fb_inflight s = Some msg \<Longrightarrow> netns_SendMsg msg (fb_netns s) = Some (e, n) \<Longrightarrow>
    fb_step ord xord s (s\<lparr>fb_inflight := None, fb_netns := n\<rparr>)"
| fb_handle: "fb_todo s = [] \<Longrightarrow> crossConnectEventCh (fb_netns s) = ev # evs \<Longrightarrow>
    fb_step ord xord s (s\<lparr>fb_netns := handleEvent ev ((fb_netns s)\<lparr>crossConnectEventCh := evs\<rparr>)\<rparr>)"
| fb_check: "fb_todo s = [] \<Longrightarrow> checkCrossConnectLiveness xord live (fb_netns s) = (n, us, r) \<Longrightarrow>
    fb_step ord xord s (s\<lparr>fb_netns := n, fb_todo := us\<rparr>)"

text \<open>The steps taken while a check is running.\<close>

definition in_check :: "((string \<times> Entity) list \<Rightarrow> (string \<times> Entity) list) \<Rightarrow>
    ((string \<times> CrossConnect) list \<Rightarrow> (string \<times> CrossConnect) list) \<Rightarrow> feedback \<Rightarrow> feedback \<Rightarrow> bool" where
  "in_check ord xord s t \<longleftrightarrow> fb_todo s \<noteq> [] \<and> fb_step ord xord s t"

text \<open>A check that has \<open>us\<close> to report, with all channels empty and the monitor idle.\<close>

definition check_starts :: "CrossConnect list \<Rightarrow> feedback \<Rightarrow> bool" where
  "check_starts us s \<longleftrightarrow> fb_todo s = us \<and> eventCh (fb_mon s) = [] \<and> fb_inflight s = None \<and>
     crossConnectEventCh (fb_netns s) = [] \<and> length (recipients (fb_mon s)) = 1"

text \<open>What is under way: while the check runs nothing is taken out of the cycle.\<close>

definition load :: "feedback \<Rightarrow> nat" where
  "load s = length (fb_todo s) + length (eventCh (fb_mon s)) + (if fb_inflight s = None then 0 else 1) +
     length (crossConnectEventCh (fb_netns s))"

definition effort :: "feedback \<Rightarrow> nat" where
  "effort s = 3 * length (fb_todo s) + 2 * length (eventCh (fb_mon s)) + (if fb_inflight s = None then 0 else 1)"

text \<open>Every queued event is an update of a cross connect, so its message is never nil.\<close>

definition within :: "feedback \<Rightarrow> bool" where
  "within s \<longleftrightarrow> length (eventCh (fb_mon s)) \<le> 10 \<and> length (crossConnectEventCh (fb_netns s)) \<le> 10 \<and>
     length (recipients (fb_mon s)) = 1 \<and> fb_inflight s \<noteq> Some None \<and>
     (\<forall>ev \<in> set (eventCh (fb_mon s)). \<exists>x. ev = update_event (XconEntity (Some x)))"

lemma update_message: "\<exists>msg. xcon_Convert (update_event (XconEntity (Some x))) = Inr msg"
  by (simp add: xcon_Convert_def xcon_convertType_def update_event_def)

lemma start_within: "check_starts us s \<Longrightarrow> within s \<and> load s = length us \<and> effort s = 3 * length us"
  by (simp add: check_starts_def within_def load_def effort_def)

lemma checking_step:
  assumes "in_check ord xord s t" "within s"
  shows "within t \<and> load t = load s \<and> Suc (effort t) = effort s"
proof -
  have busy: "fb_todo s \<noteq> []" and st: "fb_step ord xord s t" using assms(1) by (auto simp: in_check_def)
  from st show ?thesis
  proof cases
    case (fb_put x xs m)
    then show ?thesis
      using assms(2)
      by (auto simp: monitor_Update_def chan_send_def defaultSize_def within_def load_def effort_def split: if_splits)
  next
    case (fb_serve m)
    then obtain ev evs x where ev: "eventCh (fb_mon s) = ev # evs" "ev = update_event (XconEntity (Some x))"
      using assms(2) by (fastforce simp: serve_event_def within_def split: list.splits)
    obtain r where r: "recipients (fb_mon s) = [r]"
      using assms(2) by (auto simp: within_def length_Suc_conv)
    obtain msg where "xcon_Convert ev = Inr msg" using ev(2) update_message by blast
    with fb_serve ev r show ?thesis
      using assms(2) by (auto simp: serve_event_def send_def within_def load_def effort_def)
  next
    case (fb_deliver msg e n)
    then obtain ev where "msg = Some ev" using assms(2) by (cases msg) (auto simp: within_def)
    with fb_deliver show ?thesis
      using assms(2)
      by (auto simp: netns_SendMsg_def chan_send_def defaultSize_def within_def load_def effort_def split: if_splits)
  qed (use busy in auto)
qed

lemma checking_runs:
  "(in_check ord xord ^^ k) s t \<Longrightarrow> within s \<Longrightarrow> within t \<and> load t = load s \<and> k + effort t = effort s"
proof (induction k arbitrary: t)
  case (Suc k)
  then obtain u where u: "(in_check ord xord ^^ k) s u" "in_check ord xord u t" by auto
  from Suc(1) [OF u(1) Suc(3)] checking_step [OF u(2)] show ?case by simp
qed simp

text \<open>A running check is stuck only when the whole cycle is full.\<close>

lemma stuck_full:
  assumes "within s" "fb_todo s \<noteq> []" "\<And>t. \<not> fb_step ord xord s t"
  shows "load s = length (fb_todo s) + 21"
proof -
  obtain x xs where x: "fb_todo s = x # xs" using assms(2) by (cases "fb_todo s") auto
  have "monitor_Update (XconEntity (Some x)) (fb_mon s) = None"
    using assms(3) fb_put [OF x] by (cases "monitor_Update (XconEntity (Some x)) (fb_mon s)") auto
  then have e: "length (eventCh (fb_mon s)) = 10"
    using assms(1) by (auto simp: monitor_Update_def chan_send_def defaultSize_def within_def split: if_splits)
  then obtain ev evs where "eventCh (fb_mon s) = ev # evs" by (cases "eventCh (fb_mon s)") auto
  then have "serve_event xcon_Convert ord (fb_mon s) \<noteq> None" by (simp add: serve_event_def)
  then obtain msg where i: "fb_inflight s = Some msg"
    using assms(3) fb_serve [of s ord] by (cases "fb_inflight s") auto
  then have "netns_SendMsg msg (fb_netns s) = None"
    using assms(3) fb_deliver [OF i, where ord = ord and xord = xord]
    by (cases "netns_SendMsg msg (fb_netns s)") auto
  then have "length (crossConnectEventCh (fb_netns s)) = 10"
    using assms(1) by (auto simp: netns_SendMsg_def chan_send_def defaultSize_def within_def split: option.splits if_splits)
  then show ?thesis using e i by (simp add: load_def)
qed

lemma load_bound: "within s \<Longrightarrow> load s \<le> length (fb_todo s) + 21"
  by (auto simp: within_def load_def)

text \<open>Every run of a check ends, so some state without successor is reached.\<close>

lemma checking_ends:
  "within s \<Longrightarrow> \<exists>t. (in_check ord xord)\<^sup>*\<^sup>* s t \<and> (\<forall>u. \<not> in_check ord xord t u)"
proof (induction "effort s" arbitrary: s rule: less_induct)
  case less
  show ?case
  proof (cases "\<exists>u. in_check ord xord s u")
    case True
    then obtain u where u: "in_check ord xord s u" ..
    from checking_step [OF u less(2)] less(1) [of u] u show ?thesis
      by (metis converse_rtranclp_into_rtranclp lessI)
  qed blast
qed


definition ex_feedback :: feedback where
  "ex_feedback = \<lparr>fb_mon = NewMonitorServer\<lparr>recipients := [7]\<rparr>, fb_inflight = None,
     fb_netns = NewMonitorNetNsInodeServer, fb_todo = replicate 22 ex_xcon\<rparr>"


end
