(* ===== verification/ConnManager.thy ===== *)
theory ConnManager
  imports Manager
begin

text \<open>
  The client connection manager (\<open>controlplane/pkg/services\<close>): what the control
  plane does with its connections when a dataplane or a remote manager reports
  that one of their ends went down or changed. Its operations work on the same
  process state as the network service manager, whose \<open>Close\<close> and \<open>Heal\<close> they call.
\<close>

definition cm_UpdateClientConnection :: "cc_ref \<Rightarrow> unit mgo" where
  "cm_UpdateClientConnection clientConnection = model_op (\<lambda>i. UpdateClientConnection i clientConnection)"

definition set_source_state :: "State \<Rightarrow> CrossConnect \<Rightarrow> CrossConnect" where
  "set_source_state st x =
     (case X_Source x of
        Some (Local c) \<Rightarrow> x\<lparr>X_Source := Some (Local (c\<lparr>L_State := st\<rparr>))\<rparr>
      | Some (Remote c) \<Rightarrow> x\<lparr>X_Source := Some (Remote (c\<lparr>R_State := st\<rparr>))\<rparr>
      | None \<Rightarrow> x)"

definition set_destination_state :: "State \<Rightarrow> CrossConnect \<Rightarrow> CrossConnect" where
  "set_destination_state st x =
     (case X_Destination x of
        Some (Local c) \<Rightarrow> x\<lparr>X_Destination := Some (Local (c\<lparr>L_State := st\<rparr>))\<rparr>
      | Some (Remote c) \<Rightarrow> x\<lparr>X_Destination := Some (Remote (c\<lparr>R_State := st\<rparr>))\<rparr>
      | None \<Rightarrow> x)"

text \<open>The source of a connection reported down by the dataplane has to be local.\<close>

definition UpdateClientConnectionSrcStateDown :: "env \<Rightarrow> cc_ref \<Rightarrow> unit mgo" where
  "UpdateClientConnectionSrcStateDown env clientConnection = bnd get_state (\<lambda>s.
     case GetLocalSource (Xcon (deref clientConnection s)) of
       None \<Rightarrow> throw (Panic ''nil dereference'')
     | Some _ \<Rightarrow>
         bnd (assign clientConnection (\<lambda>c. c\<lparr>Xcon := map_option (set_source_state DOWN) (Xcon c)\<rparr>)) (\<lambda>_.
         bnd (cm_UpdateClientConnection clientConnection) (\<lambda>_.
         bnd (attempt (Close env clientConnection)) (\<lambda>_. ret ()))))"

definition markSourceConnectionDown :: "cc_ref \<Rightarrow> unit mgo" where
  "markSourceConnectionDown clientConnection =
     assign clientConnection (\<lambda>c. c\<lparr>Xcon := map_option (set_source_state DOWN) (Xcon c)\<rparr>)"

fun for_each :: "('a \<Rightarrow> unit mgo) \<Rightarrow> 'a list \<Rightarrow> unit mgo" where
  "for_each f [] = ret ()"
| "for_each f (x # xs) = bnd (f x) (\<lambda>_. for_each f xs)"

definition UpdateClientConnectionDataplaneStateDown :: "nat \<Rightarrow> env \<Rightarrow> cc_ref list \<Rightarrow> unit mgo" where
  "UpdateClientConnectionDataplaneStateDown fuel env conns =
     bnd (for_each markSourceConnectionDown conns) (\<lambda>_.
     for_each (\<lambda>c. Heal fuel env c DataplaneDown) conns)"

definition UpdateClientConnectionDstStateDown :: "nat \<Rightarrow> env \<Rightarrow> cc_ref \<Rightarrow> unit mgo" where
  "UpdateClientConnectionDstStateDown fuel env clientConnection =
     bnd (assign clientConnection (\<lambda>c. c\<lparr>Xcon := map_option (set_destination_state DOWN) (Xcon c)\<rparr>)) (\<lambda>_.
     bnd (cm_UpdateClientConnection clientConnection) (\<lambda>_.
     Heal fuel env clientConnection DstDown))"

text \<open>\<open>proto.Equal\<close> of two remote connections: maps are compared entry by entry.\<close>

definition RemoteConnection_Equal :: "RemoteConnection \<Rightarrow> RemoteConnection \<Rightarrow> bool" where
  "RemoteConnection_Equal a b \<longleftrightarrow>
     (case (R_Mechanism a, R_Mechanism b) of
        (None, None) \<Rightarrow> True
      | (Some x, Some y) \<Rightarrow> RemoteMechanism_Equal x y
      | _ \<Rightarrow> False) \<and>
     params_equal (Some (R_Labels a)) (Some (R_Labels b)) \<and>
     a\<lparr>R_Mechanism := None, R_Labels := []\<rparr> = b\<lparr>R_Mechanism := None, R_Labels := []\<rparr>"

definition UpdateClientConnectionDstUpdated :: "nat \<Rightarrow> env \<Rightarrow> cc_ref \<Rightarrow> RemoteConnection \<Rightarrow> unit mgo" where
  "UpdateClientConnectionDstUpdated fuel env clientConnection remoteConnection = bnd get_state (\<lambda>s.
     if ConnectionState (deref clientConnection s) \<noteq> CC_Ready then ret ()
     else if R_State remoteConnection = UP then ret ()
     else if (case GetRemoteDestination (Xcon (deref clientConnection s)) of
                None \<Rightarrow> False | Some d \<Rightarrow> RemoteConnection_Equal remoteConnection d) then ret ()
     else case Xcon (deref clientConnection s) of
       None \<Rightarrow> throw (Panic ''nil dereference'')
     | Some x \<Rightarrow>
         bnd (assign clientConnection (\<lambda>c. c\<lparr>Xcon := Some (x\<lparr>X_Destination := Some (Remote remoteConnection)\<rparr>)\<rparr>)) (\<lambda>_.
         Heal fuel env clientConnection DstUpdate))"

subsection \<open>Look-up\<close>

definition GetClientConnectionByXcon :: "impl \<Rightarrow> CrossConnect option \<Rightarrow> cc_ref option" where
  "GetClientConnectionByXcon i xcon =
     GetClientConnection i
       (case GetLocalSource xcon of
          Some conn \<Rightarrow> L_Id conn
        | None \<Rightarrow> (case GetRemoteSource xcon of None \<Rightarrow> '''' | Some conn \<Rightarrow> R_Id conn))"

definition destinationId :: "CrossConnect option \<Rightarrow> string" where
  "destinationId xcon =
     (case GetLocalDestination xcon of
        Some dst \<Rightarrow> L_Id dst
      | None \<Rightarrow> (case GetRemoteDestination xcon of None \<Rightarrow> '''' | Some dst \<Rightarrow> R_Id dst))"

definition GetClientConnectionByDst ::
    "((string \<times> cc_ref) list \<Rightarrow> (string \<times> cc_ref) list) \<Rightarrow> impl \<Rightarrow> string \<Rightarrow> cc_ref option" where
  "GetClientConnectionByDst ord i dstId =
     List.find (\<lambda>r. destinationId (Xcon (store i r)) = dstId) (GetAllClientConnections ord i)"

fun by_dataplane :: "impl \<Rightarrow> string \<Rightarrow> cc_ref list \<Rightarrow> cc_ref list result" where
  "by_dataplane i name [] = Inr []"
| "by_dataplane i name (r # rs) =
     (case CC_Dataplane (store i r) of
        None \<Rightarrow> Inl (Panic ''nil dereference'')
      | Some dp \<Rightarrow>
          (case by_dataplane i name rs of
             Inl e \<Rightarrow> Inl e
           | Inr rv \<Rightarrow> Inr (if RegisteredName dp = name then r # rv else rv)))"

definition GetClientConnectionsByDataplane ::
    "((string \<times> cc_ref) list \<Rightarrow> (string \<times> cc_ref) list) \<Rightarrow> impl \<Rightarrow> string \<Rightarrow> cc_ref list result" where
  "GetClientConnectionsByDataplane ord i name = by_dataplane i name (GetAllClientConnections ord i)"

definition cm_DeleteClientConnection :: "cc_ref \<Rightarrow> unit mgo" where
  "cm_DeleteClientConnection clientConnection = bnd get_state (\<lambda>s.
     model_op (\<lambda>i. DeleteClientConnection i (CC_ConnectionId (deref clientConnection s))))"

end
