(* ===== verification/XconClient.thy ===== *)
theory XconClient
  imports ConnManager Monitor
begin

text \<open>
  The cross connect client of nsmd (\<open>nsmd_crossconnect_client.go\<close>): a listener of
  the model that starts one monitor per dataplane and one per remote manager with
  connections, and passes changes of connections on to the monitors of the
  control plane. A goroutine that watches a dataplane or a remote manager is
  named by a number; its cancel function ends it. The events the goroutines
  receive are handled on the state of the whole process.
\<close>

datatype watcher = WatchDataplane string | WatchPeer string

datatype monitor_call =
    XconUpdate Entity | XconDelete Entity
  | ConnUpdate Entity | ConnDelete Entity

record remotePeerDescriptor =
  xconCounter :: int
  peer_cancel :: nat

record NsmMonitorCrossConnectClient =
  remotePeers :: "(string, remotePeerDescriptor) gomap"
  watched_dataplanes :: "(string, nat) gomap"
  watchers :: "(nat \<times> watcher) list"
  next_watcher :: nat
  monitor_calls :: "monitor_call list"

definition NewMonitorCrossConnectClient :: NsmMonitorCrossConnectClient where
  "NewMonitorCrossConnectClient = \<lparr>remotePeers = [], watched_dataplanes = [], watchers = [],
     next_watcher = 0, monitor_calls = []\<rparr>"

text \<open>\<open>go\<close> with a fresh context, and the cancel function of that context.\<close>

definition start_watcher :: "watcher \<Rightarrow> NsmMonitorCrossConnectClient \<Rightarrow> NsmMonitorCrossConnectClient" where
  "start_watcher w c = c\<lparr>watchers := (next_watcher c, w) # watchers c, next_watcher := next_watcher c + 1\<rparr>"

definition cancel :: "nat \<Rightarrow> NsmMonitorCrossConnectClient \<Rightarrow> NsmMonitorCrossConnectClient" where
  "cancel g c = c\<lparr>watchers := filter (\<lambda>(n, _). n \<noteq> g) (watchers c)\<rparr>"

definition monitor_call :: "monitor_call \<Rightarrow> NsmMonitorCrossConnectClient \<Rightarrow> NsmMonitorCrossConnectClient" where
  "monitor_call m c = c\<lparr>monitor_calls := monitor_calls c @ [m]\<rparr>"

subsection \<open>The listener\<close>

definition on_DataplaneAdded :: "Dataplane \<Rightarrow> NsmMonitorCrossConnectClient \<Rightarrow> NsmMonitorCrossConnectClient" where
  "on_DataplaneAdded dataplane c =
     start_watcher (WatchDataplane (RegisteredName dataplane))
       (c\<lparr>watched_dataplanes := AList.update (RegisteredName dataplane) (next_watcher c) (watched_dataplanes c)\<rparr>)"

text \<open>The connections of the dataplane are marked down and healed before its watcher ends.\<close>

definition heal_dataplane_connections ::
    "nat \<Rightarrow> env \<Rightarrow> ((string \<times> cc_ref) list \<Rightarrow> (string \<times> cc_ref) list) \<Rightarrow> Dataplane \<Rightarrow> unit mgo" where
  "heal_dataplane_connections fuel env ord dataplane = bnd get_state (\<lambda>s.
     bnd (lift_result (GetClientConnectionsByDataplane ord (mdl s) (RegisteredName dataplane))) (\<lambda>conns.
     UpdateClientConnectionDataplaneStateDown fuel env conns))"

definition forget_dataplane :: "Dataplane \<Rightarrow> NsmMonitorCrossConnectClient \<Rightarrow> NsmMonitorCrossConnectClient result" where
  "forget_dataplane dataplane c =
     (case map_of (watched_dataplanes c) (RegisteredName dataplane) of
        None \<Rightarrow> Inl (Panic ''call of nil function'')
      | Some g \<Rightarrow> Inr (cancel g c\<lparr>watched_dataplanes := AList.delete (RegisteredName dataplane) (watched_dataplanes c)\<rparr>))"

definition on_DataplaneDeleted ::
    "nat \<Rightarrow> env \<Rightarrow> ((string \<times> cc_ref) list \<Rightarrow> (string \<times> cc_ref) list) \<Rightarrow> Dataplane \<Rightarrow>
     NsmMonitorCrossConnectClient \<Rightarrow> NsmMonitorCrossConnectClient mgo" where
  "on_DataplaneDeleted fuel env ord dataplane c =
     bnd (heal_dataplane_connections fuel env ord dataplane) (\<lambda>_. lift_result (forget_dataplane dataplane c))"

definition on_ClientConnectionAdded :: "ClientConnection \<Rightarrow> NsmMonitorCrossConnectClient \<Rightarrow> NsmMonitorCrossConnectClient" where
  "on_ClientConnectionAdded clientConnection c =
     (case RemoteNsm clientConnection of
        None \<Rightarrow> c
      | Some nsm \<Rightarrow>
          (case map_of (remotePeers c) (NSM_Name nsm) of
             Some p \<Rightarrow> c\<lparr>remotePeers := AList.update (NSM_Name nsm) (p\<lparr>xconCounter := xconCounter p + 1\<rparr>) (remotePeers c)\<rparr>
           | None \<Rightarrow>
               start_watcher (WatchPeer (NSM_Name nsm))
                 (c\<lparr>remotePeers := AList.update (NSM_Name nsm)
                    \<lparr>xconCounter = 1, peer_cancel = next_watcher c\<rparr> (remotePeers c)\<rparr>)))"

definition on_ClientConnectionUpdated :: "ClientConnection \<Rightarrow> NsmMonitorCrossConnectClient \<Rightarrow> NsmMonitorCrossConnectClient" where
  "on_ClientConnectionUpdated clientConnection c =
     (case GetRemoteSource (Xcon clientConnection) of
        None \<Rightarrow> c
      | Some conn \<Rightarrow> monitor_call (ConnUpdate (RemoteEntity (Some conn))) c)"

text \<open>A connection less to its remote manager; the last one ends the watcher.\<close>

definition drop_peer :: "ClientConnection \<Rightarrow> NsmMonitorCrossConnectClient \<Rightarrow> NsmMonitorCrossConnectClient" where
  "drop_peer cc c =
     (case RemoteNsm cc of
        None \<Rightarrow> c
      | Some nsm \<Rightarrow>
          (case map_of (remotePeers c) (NSM_Name nsm) of
             None \<Rightarrow> c
           | Some p \<Rightarrow>
               (let n = xconCounter p - 1 in
                if n = 0 then cancel (peer_cancel p) c\<lparr>remotePeers := AList.delete (NSM_Name nsm) (remotePeers c)\<rparr>
                else c\<lparr>remotePeers := AList.update (NSM_Name nsm) (p\<lparr>xconCounter := n\<rparr>) (remotePeers c)\<rparr>)))"

definition on_ClientConnectionDeleted :: "ClientConnection \<Rightarrow> NsmMonitorCrossConnectClient \<Rightarrow> NsmMonitorCrossConnectClient" where
  "on_ClientConnectionDeleted clientConnection c =
     (let c1 = monitor_call (XconDelete (XconEntity (Xcon clientConnection))) c in
      drop_peer clientConnection
        (case GetRemoteSource (Xcon clientConnection) of
           None \<Rightarrow> c1
         | Some conn \<Rightarrow> monitor_call (ConnDelete (RemoteEntity (Some conn))) c1))"

subsection \<open>Events from dataplanes and remote managers\<close>

type_synonym 'a xgo = "(manager \<times> NsmMonitorCrossConnectClient, 'a) go"

definition in_manager :: "'a mgo \<Rightarrow> 'a xgo" where
  "in_manager m = (\<lambda>(s, c). case m s of None \<Rightarrow> None | Some (r, s') \<Rightarrow> Some (r, (s', c)))"

definition call_monitor :: "monitor_call \<Rightarrow> unit xgo" where
  "call_monitor m = modify (\<lambda>(s, c). (s, monitor_call m c))"

definition is_down :: "LocalConnection option \<Rightarrow> bool" where
  "is_down c \<longleftrightarrow> (case c of None \<Rightarrow> False | Some c \<Rightarrow> L_State c = DOWN)"

text \<open>One cross connect of an event a dataplane sent.\<close>

definition handle_xcon :: "nat \<Rightarrow> env \<Rightarrow> EventTypeMsg \<Rightarrow> CrossConnect option \<Rightarrow> unit xgo" where
  "handle_xcon fuel env ty xcon = bnd get_state (\<lambda>(s, _).
     case GetClientConnectionByXcon (mdl s) xcon of
       None \<Rightarrow> ret ()
     | Some r \<Rightarrow>
         (case ty of
            UPDATE_T \<Rightarrow>
              bnd (if is_down (GetLocalSource xcon)
                   then in_manager (UpdateClientConnectionSrcStateDown env r) else ret ()) (\<lambda>_.
              bnd (if is_down (GetLocalDestination xcon)
                   then in_manager (UpdateClientConnectionDstStateDown fuel env r) else ret ()) (\<lambda>_.
              bnd (in_manager (assign r (\<lambda>c. c\<lparr>Xcon := xcon\<rparr>))) (\<lambda>_.
              bnd (in_manager (cm_UpdateClientConnection r)) (\<lambda>_.
              call_monitor (XconUpdate (XconEntity xcon))))))
          | DELETE_T \<Rightarrow> call_monitor (XconDelete (XconEntity xcon))
          | INITIAL_STATE_TRANSFER_T \<Rightarrow> call_monitor (XconUpdate (XconEntity xcon))))"

fun handle_xcons :: "nat \<Rightarrow> env \<Rightarrow> EventTypeMsg \<Rightarrow> (string \<times> CrossConnect option) list \<Rightarrow> unit xgo" where
  "handle_xcons fuel env ty [] = ret ()"
| "handle_xcons fuel env ty ((_, xcon) # xs) = bnd (handle_xcon fuel env ty xcon) (\<lambda>_. handle_xcons fuel env ty xs)"

text \<open>
  The watcher of a dataplane: the stream is the list of events it delivers before
  it fails or its context is cancelled.
\<close>

fun dataplaneCrossConnectMonitor ::
    "nat \<Rightarrow> env \<Rightarrow> ((string \<times> CrossConnect option) list \<Rightarrow> (string \<times> CrossConnect option) list) \<Rightarrow>
     CrossConnectEvent list \<Rightarrow> unit xgo" where
  "dataplaneCrossConnectMonitor fuel env ord [] = ret ()"
| "dataplaneCrossConnectMonitor fuel env ord (event # stream) =
     bnd (handle_xcons fuel env (XE_Type event) (ord (XE_CrossConnects event))) (\<lambda>_.
     dataplaneCrossConnectMonitor fuel env ord stream)"

text \<open>One connection of an event a remote manager sent.\<close>

definition handle_remote ::
    "nat \<Rightarrow> env \<Rightarrow> ((string \<times> cc_ref) list \<Rightarrow> (string \<times> cc_ref) list) \<Rightarrow> EventTypeMsg \<Rightarrow>
     RemoteConnection option \<Rightarrow> unit xgo" where
  "handle_remote fuel env cord ty rc = bnd get_state (\<lambda>(s, _).
     case GetClientConnectionByDst cord (mdl s) (case rc of None \<Rightarrow> '''' | Some c \<Rightarrow> R_Id c) of
       None \<Rightarrow> ret ()
     | Some r \<Rightarrow>
         (case ty of
            UPDATE_T \<Rightarrow>
              (case rc of
                 None \<Rightarrow> if ConnectionState (deref r s) \<noteq> CC_Ready then ret () else throw (Panic ''nil dereference'')
               | Some c \<Rightarrow> in_manager (UpdateClientConnectionDstUpdated fuel env r c))
          | DELETE_T \<Rightarrow> in_manager (UpdateClientConnectionDstStateDown fuel env r)
          | INITIAL_STATE_TRANSFER_T \<Rightarrow> ret ()))"

fun handle_remotes ::
    "nat \<Rightarrow> env \<Rightarrow> ((string \<times> cc_ref) list \<Rightarrow> (string \<times> cc_ref) list) \<Rightarrow> EventTypeMsg \<Rightarrow>
     (string \<times> RemoteConnection option) list \<Rightarrow> unit xgo" where
  "handle_remotes fuel env cord ty [] = ret ()"
| "handle_remotes fuel env cord ty ((_, rc) # xs) =
     bnd (handle_remote fuel env cord ty rc) (\<lambda>_. handle_remotes fuel env cord ty xs)"

fun remotePeerConnectionMonitor ::
    "nat \<Rightarrow> env \<Rightarrow> ((string \<times> cc_ref) list \<Rightarrow> (string \<times> cc_ref) list) \<Rightarrow>
     ((string \<times> RemoteConnection option) list \<Rightarrow> (string \<times> RemoteConnection option) list) \<Rightarrow>
     RemoteConnectionEvent list \<Rightarrow> unit xgo" where
  "remotePeerConnectionMonitor fuel env cord ord [] = ret ()"
| "remotePeerConnectionMonitor fuel env cord ord (event # stream) =
     bnd (handle_remotes fuel env cord (RE_Type event) (ord (RE_Connections event))) (\<lambda>_.
     remotePeerConnectionMonitor fuel env cord ord stream)"

subsection \<open>Watchers and connections\<close>

text \<open>
  The model and the client that listens to it: connections are added under new
  ids, deleted, updated while they are registered, and changed in place without
  changing the remote manager they go to; dataplanes are added under names that
  are not watched, and deleted.
\<close>

definition peer_of :: "impl \<Rightarrow> cc_ref \<Rightarrow> string option" where
  "peer_of i r = map_option NSM_Name (RemoteNsm (store i r))"

definition conns_to :: "impl \<Rightarrow> string \<Rightarrow> nat" where
  "conns_to i n = length (filter (\<lambda>(_, r). peer_of i r = Some n) (clientConnections i))"

inductive client_run :: "impl \<Rightarrow> NsmMonitorCrossConnectClient \<Rightarrow> bool" where
  cr_new: "clientConnections i = [] \<Longrightarrow> client_run i NewMonitorCrossConnectClient"
| cr_add: "client_run i c \<Longrightarrow> GetClientConnection i (CC_ConnectionId (store i r)) = None \<Longrightarrow>
    client_run (fst (AddClientConnection i r)) (on_ClientConnectionAdded (store i r) c)"
| cr_delete: "client_run i c \<Longrightarrow> GetClientConnection i k = Some r \<Longrightarrow>
    client_run (fst (DeleteClientConnection i k)) (on_ClientConnectionDeleted (store i r) c)"
| cr_update: "client_run i c \<Longrightarrow> GetClientConnection i (CC_ConnectionId (store i r)) = Some r \<Longrightarrow>
    client_run (fst (UpdateClientConnection i r)) (on_ClientConnectionUpdated (store i r) c)"
| cr_write: "client_run i c \<Longrightarrow> (\<And>r. RemoteNsm (st r) = RemoteNsm (store i r)) \<Longrightarrow>
    client_run (i\<lparr>store := st\<rparr>) c"
| cr_dataplane: "client_run i c \<Longrightarrow> map_of (watched_dataplanes c) (RegisteredName dp) = None \<Longrightarrow>
    client_run i (on_DataplaneAdded dp c)"
| cr_forget: "client_run i c \<Longrightarrow> forget_dataplane dp c = Inr c' \<Longrightarrow> client_run i c'"

definition counter :: "NsmMonitorCrossConnectClient \<Rightarrow> string \<Rightarrow> int" where
  "counter c n = (case map_of (remotePeers c) n of None \<Rightarrow> 0 | Some p \<Rightarrow> xconCounter p)"

text \<open>Which goroutine watches what, according to the maps of the client.\<close>

definition assigned :: "NsmMonitorCrossConnectClient \<Rightarrow> nat \<Rightarrow> watcher \<Rightarrow> bool" where
  "assigned c g w \<longleftrightarrow>
     (case w of
        WatchPeer n \<Rightarrow> \<exists>p. map_of (remotePeers c) n = Some p \<and> peer_cancel p = g
      | WatchDataplane n \<Rightarrow> map_of (watched_dataplanes c) n = Some g)"

definition watch_inv :: "NsmMonitorCrossConnectClient \<Rightarrow> bool" where
  "watch_inv c \<longleftrightarrow> (\<forall>g w. (g, w) \<in> set (watchers c) \<longleftrightarrow> assigned c g w) \<and>
     distinct (map fst (watchers c)) \<and> (\<forall>(g, w) \<in> set (watchers c). g < next_watcher c)"

lemma watch_inv_start:
  assumes "watch_inv c"
    and "\<And>g w'. assigned c' g w' \<longleftrightarrow> assigned c g w' \<or> (g, w') = (next_watcher c, w)"
    and "watchers c' = watchers c" "next_watcher c' = next_watcher c"
  shows "watch_inv (start_watcher w c')"
proof -
  have "assigned (start_watcher w c') g w' = assigned c' g w'" for g w'
    by (simp add: assigned_def start_watcher_def split: watcher.split)
  then show ?thesis
    using assms by (auto simp: watch_inv_def start_watcher_def less_Suc_eq)
qed

lemma watch_inv_cancel:
  assumes "watch_inv c" "assigned c g w"
    and "\<And>g' w'. assigned c' g' w' \<longleftrightarrow> assigned c g' w' \<and> w' \<noteq> w"
    and "watchers c' = filter (\<lambda>(n, _). n \<noteq> g) (watchers c)" "next_watcher c' = next_watcher c"
  shows "watch_inv c'"
proof -
  have gw: "(g, w) \<in> set (watchers c)" and d: "distinct (map fst (watchers c))"
    using assms(1,2) by (auto simp: watch_inv_def)
  have "g' = g \<longleftrightarrow> w' = w" if "(g', w') \<in> set (watchers c)" for g' w'
  proof
    assume "g' = g"
    then show "w' = w" using gw d that by (metis eq_key_imp_eq_value)
  next
    assume "w' = w"
    then show "g' = g" using assms(1,2) that by (auto simp: watch_inv_def assigned_def split: watcher.splits)
  qed
  then show ?thesis
    using assms d by (auto simp: watch_inv_def distinct_map_filter)
qed

lemma watch_inv_same:
  assumes "watch_inv c" "\<And>g w. assigned c' g w = assigned c g w" "watchers c' = watchers c" "next_watcher c' = next_watcher c"
  shows "watch_inv c'"
  using assms by (simp add: watch_inv_def)

lemma watch_inv_add: "watch_inv c \<Longrightarrow> watch_inv (on_ClientConnectionAdded cc c)"
proof (cases "RemoteNsm cc")
  case (Some nsm)
  assume inv: "watch_inv c"
  show ?thesis
  proof (cases "map_of (remotePeers c) (NSM_Name nsm)")
    case None
    then show ?thesis
      unfolding on_ClientConnectionAdded_def Some option.case
      by (auto intro!: watch_inv_start [OF inv] simp: assigned_def split: watcher.splits if_splits)
  next
    case (Some p)
    then show ?thesis
      unfolding on_ClientConnectionAdded_def \<open>RemoteNsm cc = Some nsm\<close> option.case
      by (auto intro!: watch_inv_same [OF inv] simp: assigned_def split: watcher.splits if_splits)
  qed
qed (simp add: on_ClientConnectionAdded_def)

lemma watch_inv_call: "watch_inv c \<Longrightarrow> watch_inv (monitor_call m c)"
  by (rule watch_inv_same) (auto simp: monitor_call_def assigned_def split: watcher.split)

lemma deleted_drop:
  obtains ms where "on_ClientConnectionDeleted cc c = drop_peer cc (c\<lparr>monitor_calls := ms\<rparr>)"
proof (cases "GetRemoteSource (Xcon cc)")
  case None
  then show thesis by (intro that) (simp add: on_ClientConnectionDeleted_def monitor_call_def)
next
  case (Some r)
  then show thesis by (intro that) (simp add: on_ClientConnectionDeleted_def monitor_call_def)
qed

lemma watch_inv_drop: "watch_inv c \<Longrightarrow> watch_inv (drop_peer cc c)"
proof (cases "RemoteNsm cc")
  case (Some nsm)
  assume inv: "watch_inv c"
  show ?thesis
  proof (cases "map_of (remotePeers c) (NSM_Name nsm)")
    case (Some p)
    note p = Some
    show ?thesis
    proof (cases "xconCounter p - 1 = 0")
      case True
      have "assigned c (peer_cancel p) (WatchPeer (NSM_Name nsm))" using p by (simp add: assigned_def)
      then show ?thesis
        unfolding drop_peer_def \<open>RemoteNsm cc = Some nsm\<close> option.case p Let_def if_P [OF True]
        by (rule watch_inv_cancel [OF inv]) (auto simp: cancel_def assigned_def split: watcher.splits if_splits)
    next
      case False
      then show ?thesis
        unfolding drop_peer_def \<open>RemoteNsm cc = Some nsm\<close> option.case p Let_def if_not_P [OF False]
        by (intro watch_inv_same [OF inv]) (auto simp: assigned_def p split: watcher.splits if_splits)
    qed
  qed (simp add: drop_peer_def Some inv)
qed (simp add: drop_peer_def)

lemma watch_inv_dataplane:
  assumes "watch_inv c" "map_of (watched_dataplanes c) (RegisteredName dp) = None"
  shows "watch_inv (on_DataplaneAdded dp c)"
  unfolding on_DataplaneAdded_def using assms(2)
  by (intro watch_inv_start [OF assms(1)]) (auto simp: assigned_def split: watcher.splits)

lemma watch_inv_forget:
  assumes "watch_inv c" "forget_dataplane dp c = Inr c'"
  shows "watch_inv c'"
proof -
  obtain g where g: "map_of (watched_dataplanes c) (RegisteredName dp) = Some g"
    "c' = cancel g c\<lparr>watched_dataplanes := AList.delete (RegisteredName dp) (watched_dataplanes c)\<rparr>"
    using assms(2) by (auto simp: forget_dataplane_def split: option.splits)
  have "assigned c g (WatchDataplane (RegisteredName dp))" using g(1) by (simp add: assigned_def)
  then show ?thesis
    unfolding g(2)
    by (rule watch_inv_cancel [OF assms(1)]) (auto simp: cancel_def assigned_def split: watcher.splits if_splits)
qed

subsection \<open>Counters\<close>

lemma counter_add:
  "counter (on_ClientConnectionAdded cc c) n =
    counter c n + (if map_option NSM_Name (RemoteNsm cc) = Some n then 1 else 0)"
  by (auto simp: counter_def on_ClientConnectionAdded_def start_watcher_def split: option.splits)

lemma counter_drop:
  assumes "\<And>n. 0 \<le> counter c n" "\<And>m. RemoteNsm cc = Some m \<Longrightarrow> 0 < counter c (NSM_Name m)"
  shows "counter (drop_peer cc c) n =
    counter c n - (if map_option NSM_Name (RemoteNsm cc) = Some n then 1 else 0)"
  using assms(2) by (auto simp: counter_def drop_peer_def cancel_def Let_def split: option.splits)

definition positive :: "NsmMonitorCrossConnectClient \<Rightarrow> bool" where
  "positive c \<longleftrightarrow> (\<forall>n p. map_of (remotePeers c) n = Some p \<longrightarrow> 0 < xconCounter p)"

lemma positive_add: "positive c \<Longrightarrow> positive (on_ClientConnectionAdded cc c)"
  by (fastforce simp: positive_def on_ClientConnectionAdded_def start_watcher_def split: option.splits if_splits)

lemma positive_drop: "positive c \<Longrightarrow> positive (drop_peer cc c)"
  by (fastforce simp: positive_def drop_peer_def cancel_def Let_def split: option.splits if_splits)

lemma conns_to_add:
  assumes "GetClientConnection i (CC_ConnectionId (store i r)) = None"
  shows "conns_to (fst (AddClientConnection i r)) n = conns_to i n + (if peer_of i r = Some n then 1 else 0)"
  using assms update_fresh [of "clientConnections i"]
  by (simp add: conns_to_def AddClientConnection_def GetClientConnection_def peer_of_def)

lemma conns_to_delete:
  assumes "gomap_ok (clientConnections i)" "GetClientConnection i k = Some r"
  shows "conns_to i n = conns_to (fst (DeleteClientConnection i k)) n + (if peer_of i r = Some n then 1 else 0)"
proof -
  have "length (filter (\<lambda>(_, r). P r) m) = length (filter (\<lambda>(_, r). P r) (AList.delete k m)) + (if P r then 1 else 0)"
    if "distinct (map fst m)" "map_of m k = Some r" for P and m :: "(string, cc_ref) gomap"
    using that
  proof (induction m)
    case (Cons kv m)
    show ?case
    proof (cases "fst kv = k")
      case True
      then have "AList.delete k m = m" using Cons(2) by (auto intro: delete_idem)
      then show ?thesis using True Cons(3) by (cases kv) auto
    qed (use Cons in \<open>cases kv, auto\<close>)
  qed simp
  from this [of "clientConnections i" "\<lambda>r. peer_of i r = Some n"] show ?thesis
    using assms by (simp add: conns_to_def DeleteClientConnection_def GetClientConnection_def gomap_ok_def peer_of_def)
qed

lemma conns_to_pos:
  assumes "GetClientConnection i k = Some r" "peer_of i r = Some n"
  shows "0 < conns_to i n"
  using assms by (auto simp: conns_to_def GetClientConnection_def length_greater_0_conv filter_empty_conv dest!: map_of_SomeD)

definition client_inv :: "impl \<Rightarrow> NsmMonitorCrossConnectClient \<Rightarrow> bool" where
  "client_inv i c \<longleftrightarrow> watch_inv c \<and> positive c \<and> gomap_ok (clientConnections i) \<and>
     (\<forall>n. counter c n = int (conns_to i n))"

lemma client_inv_add:
  assumes "client_inv i c" "GetClientConnection i (CC_ConnectionId (store i r)) = None"
  shows "client_inv (fst (AddClientConnection i r)) (on_ClientConnectionAdded (store i r) c)"
  using assms(1) unfolding client_inv_def counter_add conns_to_add [OF assms(2)]
  by (auto simp: watch_inv_add positive_add AddClientConnection_def peer_of_def)

lemma client_inv_delete:
  assumes "client_inv i c" "GetClientConnection i k = Some r"
  shows "client_inv (fst (DeleteClientConnection i k)) (on_ClientConnectionDeleted (store i r) c)"
proof -
  obtain ms where ms: "on_ClientConnectionDeleted (store i r) c = drop_peer (store i r) (c\<lparr>monitor_calls := ms\<rparr>)"
    by (rule deleted_drop)
  let ?c = "c\<lparr>monitor_calls := ms\<rparr>"
  have cnt: "counter ?c n = int (conns_to i n)" for n
    using assms(1) by (simp add: client_inv_def counter_def)
  have w: "watch_inv ?c" by (rule watch_inv_same [of c]) (use assms(1) in \<open>auto simp: client_inv_def assigned_def split: watcher.split\<close>)
  have p: "positive ?c" using assms(1) by (simp add: client_inv_def positive_def)
  have "0 < counter ?c (NSM_Name m)" if "RemoteNsm (store i r) = Some m" for m
    unfolding cnt using conns_to_pos [OF assms(2), of "NSM_Name m"] that by (simp add: peer_of_def)
  then have d: "counter (drop_peer (store i r) ?c) n = counter ?c n - (if peer_of i r = Some n then 1 else 0)" for n
    unfolding peer_of_def by (intro counter_drop) (simp_all add: cnt)
  have ok: "gomap_ok (clientConnections i)" using assms(1) by (simp add: client_inv_def)
  have "int (conns_to i n) - (if peer_of i r = Some n then 1 else 0) = int (conns_to (fst (DeleteClientConnection i k)) n)" for n
    using conns_to_delete [OF ok assms(2), of n] by simp
  then show ?thesis
    unfolding ms client_inv_def d cnt
    using watch_inv_drop [OF w] positive_drop [OF p] ok assms(2)
    by (simp add: DeleteClientConnection_def GetClientConnection_def)
qed

lemma client_inv_run: "client_run i c \<Longrightarrow> client_inv i c"
proof (induction rule: client_run.induct)
  case (cr_new i)
  then show ?case
    by (auto simp: client_inv_def watch_inv_def assigned_def positive_def counter_def conns_to_def
        NewMonitorCrossConnectClient_def split: watcher.split)
next
  case (cr_update i c r)
  have "fst (UpdateClientConnection i r) = i"
    using cr_update(2) update_same [of "clientConnections i"] by (simp add: UpdateClientConnection_def GetClientConnection_def)
  moreover have "client_inv i (on_ClientConnectionUpdated (store i r) c)"
    using cr_update(3)
    by (auto simp: client_inv_def on_ClientConnectionUpdated_def watch_inv_call positive_def counter_def
        monitor_call_def split: option.splits intro: watch_inv_call [unfolded monitor_call_def])
  ultimately show ?case by simp
next
  case (cr_write i c st)
  then show ?case by (simp add: client_inv_def conns_to_def peer_of_def)
next
  case (cr_dataplane i c dp)
  then show ?case
    using watch_inv_dataplane [of c dp]
    by (simp add: client_inv_def positive_def counter_def on_DataplaneAdded_def start_watcher_def)
next
  case (cr_forget i c dp c')
  then have "remotePeers c' = remotePeers c"
    by (auto simp: forget_dataplane_def cancel_def split: option.splits)
  then show ?case
    using cr_forget watch_inv_forget by (auto simp: client_inv_def positive_def counter_def)
qed (simp_all add: client_inv_add client_inv_delete)


definition ex_remote :: ClientConnection where
  "ex_remote = zero_ClientConnection\<lparr>CC_ConnectionId := ''1'',
     RemoteNsm := Some \<lparr>NSM_Name = ''nsm-2'', NSM_Url = ''tcp:5000'', NSM_State = ''''\<rparr>\<rparr>"


text \<open>
  A connection that is deleted and then registered again by an update, as healing
  does after a destination went down, is not watched.
\<close>

lemma readded_unwatched:
  assumes "CC_ConnectionId cc = k" "RemoteNsm cc = Some nsm"
  defines "i0 \<equiv> NewModel\<lparr>store := (\<lambda>_. cc)\<rparr>"
  defines "i1 \<equiv> fst (AddClientConnection i0 0)"
  defines "i2 \<equiv> fst (DeleteClientConnection i1 k)"
  defines "c \<equiv> on_ClientConnectionUpdated cc (on_ClientConnectionDeleted cc (on_ClientConnectionAdded cc NewMonitorCrossConnectClient))"
  shows "conns_to (fst (UpdateClientConnection i2 0)) (NSM_Name nsm) = 1" "watchers c = []" "remotePeers c = []"
  using assms
  by (auto simp: NewModel_def AddClientConnection_def DeleteClientConnection_def UpdateClientConnection_def
      conns_to_def peer_of_def on_ClientConnectionUpdated_def on_ClientConnectionDeleted_def drop_peer_def
      on_ClientConnectionAdded_def start_watcher_def cancel_def monitor_call_def NewMonitorCrossConnectClient_def
      Let_def split: option.splits)

end
