(* ===== verification/Tools.thy ===== *)
theory Tools
  imports GoNet
begin

text \<open>
  String functions of the Go library used by several components, and the parser of
  \<open>key=value\<close> lists (\<open>pkg/tools\<close>). Strings are lists of bytes; white space is that
  of ASCII.
\<close>

subsection \<open>The strings package\<close>

text \<open>\<open>strings.Split\<close> with a non-empty separator.\<close>

function split_from :: "string \<Rightarrow> string \<Rightarrow> string \<Rightarrow> string list" where
  "split_from sep acc [] = [rev acc]"
| "split_from sep acc (c # cs) =
     (if take (length sep) (c # cs) = sep then rev acc # split_from sep [] (drop (length sep - 1) cs)
      else split_from sep (c # acc) cs)"
  by pat_completeness auto
termination by (relation "measure (\<lambda>(_, _, s). length s)") auto

definition Split :: "string \<Rightarrow> string \<Rightarrow> string list" where
  "Split s sep = (if sep = [] then map (\<lambda>c. [c]) s else split_from sep [] s)"

text \<open>\<open>strings.Trim\<close> with a set of bytes, and \<open>strings.TrimSpace\<close>.\<close>

definition trim_by :: "(char \<Rightarrow> bool) \<Rightarrow> string \<Rightarrow> string" where
  "trim_by p s = rev (dropWhile p (rev (dropWhile p s)))"

definition Trim :: "string \<Rightarrow> string \<Rightarrow> string" where
  "Trim s cutset = trim_by (\<lambda>c. c \<in> set cutset) s"

definition is_space :: "char \<Rightarrow> bool" where
  "is_space c \<longleftrightarrow> (of_char c :: nat) \<in> {9, 10, 11, 12, 13, 32}"

definition TrimSpace :: "string \<Rightarrow> string" where
  "TrimSpace s = trim_by is_space s"

definition HasPrefix :: "string \<Rightarrow> string \<Rightarrow> bool" where
  "HasPrefix s p \<longleftrightarrow> take (length p) s = p"

subsection \<open>Key-value lists\<close>

definition parseKV :: "string \<Rightarrow> string \<Rightarrow> string \<times> string" where
  "parseKV kv kvsep =
     (case Split kv kvsep of
        [k, v] \<Rightarrow> (Trim k '' '', Trim v '' '')
      | _ \<Rightarrow> ('''', ''''))"

definition ParseKVStringToMap :: "string \<Rightarrow> string \<Rightarrow> string \<Rightarrow> (string, string) gomap" where
  "ParseKVStringToMap input sep kvsep =
     fold (\<lambda>pair m. case parseKV pair kvsep of (k, v) \<Rightarrow> AList.update k v m) (Split input sep) []"

subsection \<open>Splitting what was joined\<close>

lemma split_from_word:
  "c \<notin> set w \<Longrightarrow> split_from [c] acc w = [rev acc @ w]"
  by (induction w arbitrary: acc) auto

lemma split_from_sep:
  "c \<notin> set w \<Longrightarrow> split_from [c] acc (w @ c # s) = (rev acc @ w) # split_from [c] [] s"
  by (induction w arbitrary: acc) auto

lemma Split_join:
  assumes "ws \<noteq> []" "\<And>w. w \<in> set ws \<Longrightarrow> c \<notin> set w"
  shows "Split (join [c] ws) [c] = ws"
  using assms
proof (induction "[c]" ws rule: join.induct)
  case (3 w v ws)
  then show ?case using split_from_sep [of c w "[]"] by (simp add: Split_def)
qed (simp_all add: Split_def split_from_word)

lemma trim_by_id:
  assumes "s = [] \<or> \<not> p (hd s) \<and> \<not> p (last s)"
  shows "trim_by p s = s"
proof (cases "s = []")
  case False
  then have "dropWhile p s = s" "dropWhile p (rev s) = rev s"
    using assms by (auto simp: dropWhile_eq_self_iff hd_rev)
  then show ?thesis by (simp add: trim_by_def)
qed (simp add: trim_by_def)

text \<open>A word that survives trimming and splitting.\<close>

definition plain :: "string \<Rightarrow> string \<Rightarrow> bool" where
  "plain seps w \<longleftrightarrow> set w \<inter> set seps = {} \<and> (w = [] \<or> hd w \<noteq> CHR '' '' \<and> last w \<noteq> CHR '' '')"

definition format_kv :: "char \<Rightarrow> char \<Rightarrow> (string, string) gomap \<Rightarrow> string" where
  "format_kv sep kvsep m = join [sep] (map (\<lambda>(k, v). k @ kvsep # v) m)"

lemma parseKV_pair:
  assumes "plain [c] k" "plain [c] v"
  shows "parseKV (k @ c # v) [c] = (k, v)"
proof -
  have "Split (k @ c # v) [c] = [k, v]"
    using assms split_from_sep [of c k "[]" v] split_from_word [of c v "[]"] by (simp add: Split_def plain_def)
  moreover have "Trim k '' '' = k" "Trim v '' '' = v"
    using assms by (auto simp: Trim_def plain_def intro!: trim_by_id)
  ultimately show ?thesis by (simp add: parseKV_def)
qed

lemma parse_format_kv:
  assumes "sep \<noteq> kvsep" "m \<noteq> []" "gomap_ok m"
    and "\<forall>(k, v) \<in> set m. plain [sep, kvsep] k \<and> plain [sep, kvsep] v"
  shows "ParseKVStringToMap (format_kv sep kvsep m) [sep] [kvsep] = m"
proof -
  let ?ws = "map (\<lambda>(k, v). k @ kvsep # v) m"
  have "Split (format_kv sep kvsep m) [sep] = ?ws"
    unfolding format_kv_def by (rule Split_join) (use assms in \<open>auto simp: plain_def\<close>)
  moreover have "fold (\<lambda>pair m. case parseKV pair [kvsep] of (k, v) \<Rightarrow> AList.update k v m)
      (map (\<lambda>(k, v). k @ kvsep # v) ps) acc = acc @ ps"
    if "distinct (map fst (acc @ ps))" "\<forall>(k, v) \<in> set ps. plain [sep, kvsep] k \<and> plain [sep, kvsep] v" for ps acc
    using that
  proof (induction ps arbitrary: acc)
    case (Cons kv ps)
    obtain k v where kv: "kv = (k, v)" by force
    have "AList.update k v acc = acc @ [(k, v)]"
      using Cons(2) unfolding kv by (intro update_fresh) (auto simp: map_of_eq_None_iff)
    moreover have "parseKV (k @ kvsep # v) [kvsep] = (k, v)"
      using Cons(3) kv by (intro parseKV_pair) (auto simp: plain_def)
    ultimately show ?case using Cons kv by simp
  qed simp
  ultimately show ?thesis using assms(3,4) by (simp add: ParseKVStringToMap_def gomap_ok_def)
qed

text \<open>
  A key-value list reads back as the map it was written from: for any two
  different separators, a non-empty map whose keys and values contain no
  separator and have no space at their ends is the result of parsing its text.
\<close>

theorem kv_roundtrip:
  assumes "sep \<noteq> kvsep" "m \<noteq> []" "gomap_ok m"
    and "\<forall>(k, v) \<in> set m. plain [sep, kvsep] k \<and> plain [sep, kvsep] v"
  shows "ParseKVStringToMap (format_kv sep kvsep m) [sep] [kvsep] = m"
  using assms by (rule parse_format_kv)

theorem kv_roundtrip_witness:
  "ParseKVStringToMap (format_kv CHR '','' CHR ''='' [(''app'', ''nse''), (''zone'', ''b'')]) '','' ''='' =
    [(''app'', ''nse''), (''zone'', ''b'')]"
  using kv_roundtrip [of "CHR '',''" "CHR ''=''" "[(''app'', ''nse''), (''zone'', ''b'')]"]
  by (simp add: gomap_ok_def plain_def)

text \<open>A part that is not a pair is stored, under the empty key.\<close>

lemma malformed_pair_stored: "map_of (ParseKVStringToMap ''x'' '','' ''='') '''' = Some ''''"
  by (simp add: ParseKVStringToMap_def Split_def parseKV_def)

end
