(* ===== verification/Nsmd.thy ===== *)
theory Nsmd
  imports ConnManager Monitor Tools
begin

text \<open>
  The daemon nsmd (\<open>controlplane/pkg/nsmd\<close>, \<open>controlplane/pkg/remote\<close>): workspaces and
  the server that hands them out, the registry server endpoints register with,
  the registrar of dataplanes, and the servers for requests of local clients and
  remote managers. What the file system, the sockets and the registry answer
  during one operation is an argument of the operation. A workspace is its own
  gRPC server and listener; a monitor call is recorded with the monitor it goes to.
\<close>

subsection \<open>Workspace locations\<close>

record defaultWorkspaceProvider =
  hostBaseDir :: string
  nsmBaseDir :: string
  clientBaseDir :: string
  nsmServerSocket :: string
  nsmClientSocket :: string

definition NewWorkspaceProvider :: "string \<Rightarrow> defaultWorkspaceProvider result" where
  "NewWorkspaceProvider rootDir =
     (if rootDir = [] then Inl (Panic ''slice bounds out of range'')
      else let d = (if last rootDir \<noteq> CHR ''/'' then rootDir @ ''/'' else rootDir) in
           Inr \<lparr>hostBaseDir = d, nsmBaseDir = d, clientBaseDir = d,
             nsmServerSocket = ''nsm.server.io.sock'', nsmClientSocket = ''nsm.client.io.sock''\<rparr>)"

definition NewDefaultWorkspaceProvider :: defaultWorkspaceProvider where
  "NewDefaultWorkspaceProvider = projr (NewWorkspaceProvider ''/var/lib/networkservicemesh/'')"

subsection \<open>Workspaces\<close>

datatype WorkspaceState = NEW | RUNNING | CLOSED

record Workspace =
  ws_name :: string
  ws_state :: WorkspaceState
  ws_listener :: bool
  ws_grpcServer :: bool
  locationProvider :: defaultWorkspaceProvider

definition NsmDirectory :: "Workspace \<Rightarrow> string" where
  "NsmDirectory w = nsmBaseDir (locationProvider w) @ ws_name w"

definition HostDirectory :: "Workspace \<Rightarrow> string" where
  "HostDirectory w = nsmBaseDir (locationProvider w) @ ws_name w"

definition ClientDirectory :: "Workspace \<Rightarrow> string" where
  "ClientDirectory w = clientBaseDir (locationProvider w)"

definition NsmServerSocket :: "Workspace \<Rightarrow> string" where
  "NsmServerSocket w = NsmDirectory w @ ''/'' @ nsmServerSocket (locationProvider w)"

definition NsmClientSocket :: "Workspace \<Rightarrow> string" where
  "NsmClientSocket w = NsmDirectory w @ ''/'' @ nsmClientSocket (locationProvider w)"

text \<open>
  The part of the host a workspace touches: directories, sockets that are
  listened on, and the sockets gRPC servers run for.
\<close>

record host =
  dirs :: "string list"
  sockets :: "string list"
  servers :: "string list"

text \<open>\<open>os.RemoveAll\<close> removes a path and everything below it.\<close>

definition below :: "string \<Rightarrow> string \<Rightarrow> bool" where
  "below d p \<longleftrightarrow> p = d \<or> HasPrefix p (if d \<noteq> [] \<and> last d = CHR ''/'' then d else d @ ''/'')"

definition RemoveAll :: "string \<Rightarrow> host \<Rightarrow> host" where
  "RemoveAll d h = h\<lparr>dirs := filter (\<lambda>p. \<not> below d p) (dirs h), sockets := filter (\<lambda>p. \<not> below d p) (sockets h)\<rparr>"

definition MkdirAll :: "string \<Rightarrow> host \<Rightarrow> host" where
  "MkdirAll d h = (if d \<in> set (dirs h) then h else h\<lparr>dirs := d # dirs h\<rparr>)"

definition cleanup :: "Workspace \<Rightarrow> host \<Rightarrow> host" where
  "cleanup w h =
     (if ws_state w \<noteq> RUNNING then
        let h1 = (if NsmDirectory w \<noteq> [] then RemoveAll (NsmDirectory w) h else h);
            h2 = (if ws_grpcServer w then h1\<lparr>servers := filter (\<lambda>p. p \<noteq> NsmServerSocket w) (servers h1)\<rparr> else h1)
        in if ws_listener w then h2\<lparr>sockets := filter (\<lambda>p. p \<noteq> NsmServerSocket w) (sockets h2)\<rparr> else h2
      else h)"

definition Workspace_Close :: "Workspace \<Rightarrow> host \<Rightarrow> Workspace \<times> host" where
  "Workspace_Close w h = (let w' = w\<lparr>ws_state := CLOSED\<rparr> in (w', cleanup w' h))"

text \<open>\<open>NewCustomListener\<close> removes a stale socket before it listens.\<close>

record ws_env =
  e_Mkdir :: "string option"
  e_SocketCleanup :: "string option"
  e_Listen :: "string option"
  e_SocketCheck :: "string option"

definition NewCustomListener :: "ws_env \<Rightarrow> string \<Rightarrow> host \<Rightarrow> error option \<times> host" where
  "NewCustomListener env socket h =
     (case e_SocketCleanup env of
        Some e \<Rightarrow> (Some (Errorf e), h)
      | None \<Rightarrow>
          (let h1 = h\<lparr>sockets := filter (\<lambda>p. p \<noteq> socket) (sockets h)\<rparr> in
           case e_Listen env of
             Some e \<Rightarrow> (Some (Errorf e), h1)
           | None \<Rightarrow> (None, h1\<lparr>sockets := socket # sockets h1\<rparr>)))"

text \<open>
  The deferred \<open>cleanup\<close> runs on every return; a workspace whose server has
  started is \<open>RUNNING\<close>, so it is left alone even if the final check fails.
\<close>

definition NewWorkSpace :: "ws_env \<Rightarrow> string \<Rightarrow> host \<Rightarrow> Workspace result \<times> host" where
  "NewWorkSpace env name h =
     (let w = \<lparr>ws_name = name, ws_state = NEW, ws_listener = False, ws_grpcServer = False,
               locationProvider = NewDefaultWorkspaceProvider\<rparr> in
      case e_Mkdir env of
        Some e \<Rightarrow> (Inl (Errorf e), cleanup w h)
      | None \<Rightarrow>
          (case NewCustomListener env (NsmServerSocket w) (MkdirAll (NsmDirectory w) h) of
             (Some e, h1) \<Rightarrow> (Inl e, cleanup w h1)
           | (None, h1) \<Rightarrow>
               (let w' = w\<lparr>ws_listener := True, ws_grpcServer := True, ws_state := RUNNING\<rparr>;
                    h2 = h1\<lparr>servers := NsmServerSocket w # servers h1\<rparr>
                in case e_SocketCheck env of
                     Some e \<Rightarrow> (Inl (Errorf e), cleanup w' h2)
                   | None \<Rightarrow> (Inr w', cleanup w' h2))))"

subsection \<open>The workspace server\<close>

record ClientConnectionReply =
  reply_Workspace :: string
  reply_HostBasedir :: string
  reply_ClientBaseDir :: string
  reply_NsmServerSocket :: string
  reply_NsmClientSocket :: string

record nsmServer =
  workspaces :: "(string, Workspace) gomap"
  nsm_host :: host

definition RequestClientConnection :: "ws_env \<Rightarrow> string \<Rightarrow> nsmServer \<Rightarrow> ClientConnectionReply result \<times> nsmServer" where
  "RequestClientConnection env name n =
     (case NewWorkSpace env name (nsm_host n) of
        (Inl e, h) \<Rightarrow> (Inl e, n\<lparr>nsm_host := h\<rparr>)
      | (Inr w, h) \<Rightarrow>
          (Inr \<lparr>reply_Workspace = ws_name w, reply_HostBasedir = hostBaseDir (locationProvider w),
             reply_ClientBaseDir = clientBaseDir (locationProvider w),
             reply_NsmServerSocket = nsmServerSocket (locationProvider w),
             reply_NsmClientSocket = nsmClientSocket (locationProvider w)\<rparr>,
           n\<lparr>workspaces := AList.update (ws_name w) w (workspaces n), nsm_host := h\<rparr>))"

definition nsmd_DeleteClientConnection :: "string \<Rightarrow> nsmServer \<Rightarrow> error option \<times> nsmServer" where
  "nsmd_DeleteClientConnection socket n =
     (case map_of (workspaces n) socket of
        None \<Rightarrow> (Some (Errorf ''no connection exists for workspace %s''), n)
      | Some w \<Rightarrow>
          (None, n\<lparr>workspaces := AList.delete socket (workspaces n), nsm_host := snd (Workspace_Close w (nsm_host n))\<rparr>))"

text \<open>The slice is made with the length of the map and then appended to.\<close>

definition EnumConnection ::
    "((string \<times> Workspace) list \<Rightarrow> (string \<times> Workspace) list) \<Rightarrow> nsmServer \<Rightarrow> string list" where
  "EnumConnection ord n = replicate (length (workspaces n)) '''' @ map fst (ord (workspaces n))"

definition GetExcludedPrefixes :: "string option \<Rightarrow> string list" where
  "GetExcludedPrefixes env = (case env of None \<Rightarrow> [] | Some s \<Rightarrow> map TrimSpace (Split s '',''))"

subsection \<open>The workspace of an endpoint\<close>

definition AddEndpointToWorkspace :: "string \<Rightarrow> NetworkServiceEndpoint option \<Rightarrow> unit mgo" where
  "AddEndpointToWorkspace ws endpoint =
     modify (\<lambda>s. s\<lparr>workspaceByEndpoint := AList.update (NSE_GetEndpointName endpoint) ws (workspaceByEndpoint s)\<rparr>)"

definition DeleteEndpointToWorkspace :: "string \<Rightarrow> unit mgo" where
  "DeleteEndpointToWorkspace endpointName =
     modify (\<lambda>s. s\<lparr>workspaceByEndpoint := AList.delete endpointName (workspaceByEndpoint s)\<rparr>)"

subsection \<open>The registry server\<close>

text \<open>Answers of the upstream registry.\<close>

record registry_env =
  e_RegistryClient :: "string option"
  e_RegisterNSE :: "NSERegistration \<Rightarrow> string + NSERegistration"
  e_RemoveNSE :: "string \<Rightarrow> string option"
  e_PublicAPI :: string

definition RegistryClient :: "registry_env \<Rightarrow> unit mgo" where
  "RegistryClient env = answer_err (e_RegistryClient env)"

text \<open>A registration received over gRPC is a new object.\<close>

definition add_registration :: "NSERegistration \<Rightarrow> unit mgo" where
  "add_registration registration = bnd get_state (\<lambda>s.
     bnd (model_op (\<lambda>i. AddEndpoint i (next_ref s, registration))) (\<lambda>_.
     modify (\<lambda>s. s\<lparr>next_ref := next_ref s + 1\<rparr>)))"

definition RegisterNSE :: "registry_env \<Rightarrow> string \<Rightarrow> NSERegistration \<Rightarrow> NSERegistration mgo" where
  "RegisterNSE env ws request =
     bnd (attempt (RegistryClient env)) (\<lambda>c.
     case c of
       Inl _ \<Rightarrow> throw (Errorf ''attempt to connect to upstream registry failed with: %v'')
     | Inr _ \<Rightarrow>
         (case e_RegisterNSE env (request\<lparr>Reg_NetworkServiceManager :=
                 Some \<lparr>NSM_Name = '''', NSM_Url = e_PublicAPI env, NSM_State = ''''\<rparr>\<rparr>) of
            Inl _ \<Rightarrow> throw (Errorf ''attempt to pass through from nsm to upstream registry failed with: %v'')
          | Inr registration \<Rightarrow>
              bnd get_state (\<lambda>s.
              let ep = GetEndpoint (mdl s) (NSE_GetEndpointName (Reg_NetworkserviceEndpoint registration)) in
              bnd (if ep = None then
                     bnd (add_registration registration) (\<lambda>_.
                     AddEndpointToWorkspace ws (Reg_NetworkserviceEndpoint registration))
                   else ret ()) (\<lambda>_.
              bnd (AddEndpointToWorkspace ws (Reg_GetNetworkserviceEndpoint ep)) (\<lambda>_.
              ret registration)))))"

definition RemoveNSE :: "registry_env \<Rightarrow> string \<Rightarrow> unit mgo" where
  "RemoveNSE env endpointName =
     bnd (attempt (RegistryClient env)) (\<lambda>c.
     case c of
       Inl _ \<Rightarrow> throw (Errorf ''attempt to pass through from nsm to upstream registry failed with: %v'')
     | Inr _ \<Rightarrow>
         (case e_RemoveNSE env endpointName of
            Some _ \<Rightarrow> throw (Errorf ''attempt to pass through from nsm to upstream registry failed with: %v'')
          | None \<Rightarrow>
              bnd (DeleteEndpointToWorkspace endpointName) (\<lambda>_.
              bnd get_state (\<lambda>s.
              bnd (model_op (\<lambda>i. fst (DeleteEndpoint i endpointName))) (\<lambda>_.
              return_err (snd (DeleteEndpoint (mdl s) endpointName)))))))"

definition setLocalNSM :: "registry_env \<Rightarrow> unit mgo" where
  "setLocalNSM env =
     bnd (attempt (RegistryClient env)) (\<lambda>c.
     case c of
       Inl _ \<Rightarrow> throw (Errorf ''Failed to get RegistryClient: %s'')
     | Inr _ \<Rightarrow>
         (case e_RegisterNSE env \<lparr>Reg_NetworkService = None,
                 Reg_NetworkServiceManager = Some \<lparr>NSM_Name = '''', NSM_Url = e_PublicAPI env, NSM_State = ''''\<rparr>,
                 Reg_NetworkserviceEndpoint = None\<rparr> of
            Inl _ \<Rightarrow> throw (Errorf ''Failed to get my own NetworkServiceManager: %s'')
          | Inr nsm \<Rightarrow> modify (\<lambda>s. s\<lparr>mdl := SetNsm (mdl s) (Reg_NetworkServiceManager nsm)\<rparr>)))"

subsection \<open>The registrar of dataplanes\<close>

text \<open>The reply, and whether a monitor was started for the new dataplane.\<close>

definition RequestDataplaneRegistration ::
    "((string \<times> Dataplane) list \<Rightarrow> (string \<times> Dataplane) list) \<Rightarrow> string \<Rightarrow> string \<Rightarrow> bool mgo" where
  "RequestDataplaneRegistration ord name socket = bnd get_state (\<lambda>s.
     if GetDataplane ord (mdl s) name \<noteq> None then throw (Errorf ''dataplane with name %s already registered'')
     else bnd (model_op (\<lambda>i. AddDataplane i \<lparr>RegisteredName = name, SocketLocation = socket,
                 LocalMechanisms = [], RemoteMechanisms = []\<rparr>)) (\<lambda>_. ret True))"

definition RequestDataplaneUnRegistration :: "string \<Rightarrow> bool mgo" where
  "RequestDataplaneUnRegistration name = bnd (model_op (\<lambda>i. DeleteDataplane i name)) (\<lambda>_. ret True)"

record MechanismUpdate =
  U_RemoteMechanisms :: "RemoteMechanism list"
  U_LocalMechanisms :: "LocalMechanism list"

text \<open>
  The monitor of a dataplane: \<open>check\<close> and \<open>monitor\<close> are the answers of the socket
  check and of \<open>MonitorMechanisms\<close>, and \<open>stream\<close> the updates received until the
  stream fails. It changes the registered object itself; the dataplane is not
  unregistered by anyone else while its monitor runs.
\<close>

definition apply_mechanisms :: "string \<Rightarrow> MechanismUpdate \<Rightarrow> unit mgo" where
  "apply_mechanisms name u = modify (\<lambda>s. s\<lparr>mdl := (mdl s)\<lparr>dataplanes :=
     map (\<lambda>(k, d). (k, if k = name then d\<lparr>RemoteMechanisms := U_RemoteMechanisms u,
       LocalMechanisms := U_LocalMechanisms u\<rparr> else d)) (dataplanes (mdl s))\<rparr>\<rparr>)"

fun monitor_stream :: "string \<Rightarrow> MechanismUpdate list \<Rightarrow> unit mgo" where
  "monitor_stream name [] = model_op (\<lambda>i. DeleteDataplane i name)"
| "monitor_stream name (u # us) = bnd (apply_mechanisms name u) (\<lambda>_. monitor_stream name us)"

definition dataplaneMonitor ::
    "((string \<times> Dataplane) list \<Rightarrow> (string \<times> Dataplane) list) \<Rightarrow> string option \<Rightarrow> string option \<Rightarrow>
     string \<Rightarrow> MechanismUpdate list \<Rightarrow> unit mgo" where
  "dataplaneMonitor ord check monitor name stream = bnd get_state (\<lambda>s.
     case GetDataplane ord (mdl s) name of
       None \<Rightarrow> ret ()
     | Some _ \<Rightarrow>
         if check \<noteq> None \<or> monitor \<noteq> None then model_op (\<lambda>i. DeleteDataplane i name)
         else monitor_stream name stream)"

subsection \<open>Requests of local clients and remote managers\<close>

type_synonym 'a ngo = "(manager \<times> (string \<times> Event) list, 'a) go"

definition with_manager :: "'a mgo \<Rightarrow> 'a ngo" where
  "with_manager m = (\<lambda>(s, c). case m s of None \<Rightarrow> None | Some (r, s') \<Rightarrow> Some (r, (s', c)))"

definition queue_event :: "string \<Rightarrow> Event \<Rightarrow> unit ngo" where
  "queue_event monitor ev = modify (\<lambda>(s, c). (s, c @ [(monitor, ev)]))"

definition updateMechanisms :: "string \<Rightarrow> LocalRequest \<Rightarrow> LocalRequest" where
  "updateMechanisms ws request = request\<lparr>LQ_MechanismPreferences :=
     map (\<lambda>m. m\<lparr>LM_Parameters := Some (AList.update Workspace ws
       (case LM_Parameters m of None \<Rightarrow> [] | Some ps \<Rightarrow> ps))\<rparr>) (LQ_MechanismPreferences request)\<rparr>"

definition local_Request :: "nat \<Rightarrow> env \<Rightarrow> string \<Rightarrow> LocalRequest \<Rightarrow> LocalConnection ngo" where
  "local_Request fuel env ws request =
     bnd (with_manager (Request fuel env (LocalReq (updateMechanisms ws request)))) (\<lambda>conn.
     case conn of
       Remote _ \<Rightarrow> throw (Panic ''interface conversion'')
     | Local c \<Rightarrow> bnd (queue_event ws (update_event (LocalEntity (Some c)))) (\<lambda>_. ret c))"

definition local_Close :: "env \<Rightarrow> string \<Rightarrow> LocalConnection \<Rightarrow> unit ngo" where
  "local_Close env ws connection = bnd get_state (\<lambda>(s, _).
     case GetClientConnection (mdl s) (L_Id connection) of
       None \<Rightarrow> throw (Errorf ''There is no such client connection %v'')
     | Some r \<Rightarrow>
         bnd (attempt (with_manager (Close env r))) (\<lambda>_.
         queue_event ws (delete_event (LocalEntity (Some connection)))))"

definition remote_Request :: "nat \<Rightarrow> env \<Rightarrow> RemoteRequest \<Rightarrow> RemoteConnection ngo" where
  "remote_Request fuel env request =
     bnd (with_manager (Request fuel env (RemoteReq request))) (\<lambda>conn.
     case conn of
       Local _ \<Rightarrow> throw (Panic ''interface conversion'')
     | Remote c \<Rightarrow> bnd (queue_event '''' (update_event (RemoteEntity (Some c)))) (\<lambda>_. ret c))"

definition remote_Close :: "env \<Rightarrow> RemoteConnection \<Rightarrow> unit ngo" where
  "remote_Close env connection = bnd get_state (\<lambda>(s, _).
     case GetClientConnection (mdl s) (R_Id connection) of
       None \<Rightarrow> throw (Errorf ''There is no such client connection %v'')
     | Some r \<Rightarrow>
         bnd (attempt (with_manager (Close env r))) (\<lambda>_.
         queue_event '''' (delete_event (RemoteEntity (Some connection)))))"

end
