(* ===== verification/NsmdProps.thy ===== *)
theory NsmdProps
  imports Nsmd
begin

text \<open>
  Properties of nsmd: a workspace exists exactly from its request to its deletion,
  registrations of endpoints and dataplanes are found again and removed completely.
\<close>

subsection \<open>Paths of workspaces\<close>

lemma default_provider:
  "NewDefaultWorkspaceProvider = \<lparr>hostBaseDir = ''/var/lib/networkservicemesh/'',
     nsmBaseDir = ''/var/lib/networkservicemesh/'', clientBaseDir = ''/var/lib/networkservicemesh/'',
     nsmServerSocket = ''nsm.server.io.sock'', nsmClientSocket = ''nsm.client.io.sock''\<rparr>"
  by (simp add: NewDefaultWorkspaceProvider_def NewWorkspaceProvider_def Let_def)

definition ws_dir :: "string \<Rightarrow> string" where
  "ws_dir name = ''/var/lib/networkservicemesh/'' @ name"

definition ws_socket :: "string \<Rightarrow> string" where
  "ws_socket name = ws_dir name @ ''/nsm.server.io.sock''"

text \<open>A name that is one path component.\<close>

definition component :: "string \<Rightarrow> bool" where
  "component name \<longleftrightarrow> name \<noteq> [] \<and> CHR ''/'' \<notin> set name"

definition default_ws :: "string \<Rightarrow> WorkspaceState \<Rightarrow> bool \<Rightarrow> Workspace" where
  "default_ws name st b = \<lparr>ws_name = name, ws_state = st, ws_listener = b, ws_grpcServer = b,
     locationProvider = NewDefaultWorkspaceProvider\<rparr>"

lemma ws_paths [simp]:
  "NsmDirectory (default_ws name st b) = ws_dir name" "NsmServerSocket (default_ws name st b) = ws_socket name"
  "ws_name (default_ws name st b) = name" "ws_state (default_ws name st b) = st"
  "ws_listener (default_ws name st b) = b" "ws_grpcServer (default_ws name st b) = b"
  "(default_ws name st b)\<lparr>ws_state := st'\<rparr> = default_ws name st' b"
  by (simp_all add: default_ws_def NsmDirectory_def NsmServerSocket_def ws_dir_def ws_socket_def default_provider)

lemma HasPrefix_append: "HasPrefix s p \<longleftrightarrow> (\<exists>r. s = p @ r)"
  by (auto simp: HasPrefix_def) (metis append_take_drop_id)

lemma below_same: "below d d" "below d (d @ ''/'' @ r)"
  by (auto simp: below_def HasPrefix_append)

lemma not_below_component:
  assumes "component a" "component b" "a \<noteq> b"
  shows "\<not> below (ws_dir a) (ws_dir b)" "\<not> below (ws_dir a) (ws_socket b)"
proof -
  have l: "last (ws_dir a) \<noteq> CHR ''/''"
    using assms(1) by (simp add: ws_dir_def component_def) (metis last_in_set)
  have "b \<noteq> a @ CHR ''/'' # r" for r using assms(2) by (auto simp: component_def)
  then show "\<not> below (ws_dir a) (ws_dir b)"
    using assms(3) l by (auto simp: below_def ws_dir_def HasPrefix_append)
  have "takeWhile (\<lambda>x. x \<noteq> CHR ''/'') (w @ CHR ''/'' # s) = w" if "CHR ''/'' \<notin> set w" for w s
    using that by (induction w) auto
  then have "b @ CHR ''/'' # t = a @ CHR ''/'' # r \<Longrightarrow> a = b" for r t
    using assms(1,2) by (metis component_def)
  moreover have "b @ CHR ''/'' # t \<noteq> a" for t using assms(1) by (auto simp: component_def)
  ultimately show "\<not> below (ws_dir a) (ws_socket b)"
    using assms(3) l by (auto simp: below_def ws_dir_def ws_socket_def HasPrefix_append)
qed

lemma socket_inject: "ws_socket a = ws_socket b \<longleftrightarrow> a = b"
  by (simp add: ws_socket_def ws_dir_def)

subsection \<open>Creating and deleting a workspace\<close>

lemma NewWorkSpace_cases:
  "NewWorkSpace env name h =
    (let h1 = MkdirAll (ws_dir name) h;
         h2 = h1\<lparr>sockets := filter (\<lambda>p. p \<noteq> ws_socket name) (sockets h1)\<rparr>;
         h3 = h2\<lparr>sockets := ws_socket name # sockets h2, servers := ws_socket name # servers h2\<rparr>
     in case e_Mkdir env of
          Some e \<Rightarrow> (Inl (Errorf e), RemoveAll (ws_dir name) h)
        | None \<Rightarrow>
            (case e_SocketCleanup env of
               Some e \<Rightarrow> (Inl (Errorf e), RemoveAll (ws_dir name) h1)
             | None \<Rightarrow>
                 (case e_Listen env of
                    Some e \<Rightarrow> (Inl (Errorf e), RemoveAll (ws_dir name) h2)
                  | None \<Rightarrow>
                      (case e_SocketCheck env of
                         Some e \<Rightarrow> (Inl (Errorf e), h3)
                       | None \<Rightarrow> (Inr (default_ws name RUNNING True), h3)))))"
proof -
  have w: "\<lparr>ws_name = name, ws_state = NEW, ws_listener = False, ws_grpcServer = False,
      locationProvider = NewDefaultWorkspaceProvider\<rparr> = default_ws name NEW False"
    by (simp add: default_ws_def)
  have w': "(default_ws name NEW False)\<lparr>ws_listener := True, ws_grpcServer := True, ws_state := RUNNING\<rparr> =
      default_ws name RUNNING True"
    by (simp add: default_ws_def)
  have c: "cleanup (default_ws name NEW False) h = RemoveAll (ws_dir name) h" for h
    by (simp add: cleanup_def ws_dir_def)
  have c': "cleanup (default_ws name RUNNING True) h = h" for h by (simp add: cleanup_def)
  show ?thesis
    unfolding NewWorkSpace_def w Let_def w' ws_paths c c'
    by (auto simp: NewCustomListener_def Let_def split: option.split)
qed

lemma Workspace_Close_default:
  "snd (Workspace_Close (default_ws name st True) h) =
    (RemoveAll (ws_dir name) h)\<lparr>servers := filter (\<lambda>p. p \<noteq> ws_socket name) (servers h)\<rparr>"
proof -
  have "sockets (RemoveAll (ws_dir name) h) = filter (\<lambda>p. p \<noteq> ws_socket name) (sockets (RemoveAll (ws_dir name) h))"
    using below_same(2) [of "ws_dir name"] by (auto simp: RemoveAll_def ws_socket_def intro!: filter_cong)
  then show ?thesis
    by (simp add: Workspace_Close_def Let_def cleanup_def ws_dir_def RemoveAll_def)
qed


definition ex_ws_env :: ws_env where
  "ex_ws_env = \<lparr>e_Mkdir = None, e_SocketCleanup = None, e_Listen = None, e_SocketCheck = None\<rparr>"

definition ex_nsm :: nsmServer where
  "ex_nsm = \<lparr>workspaces = [], nsm_host = \<lparr>dirs = [ws_dir ''nsm-9''], sockets = [], servers = []\<rparr>\<rparr>"


subsection \<open>Live workspaces\<close>

text \<open>
  Requests and deletions of workspaces whose names are path components, every
  request under a name that is not in use.
\<close>

inductive ws_run :: "nsmServer \<Rightarrow> bool" where
  ws_start: "workspaces n = [] \<Longrightarrow> ws_run n"
| ws_request: "ws_run n \<Longrightarrow> component name \<Longrightarrow> map_of (workspaces n) name = None \<Longrightarrow>
    ws_run (snd (RequestClientConnection env name n))"
| ws_delete: "ws_run n \<Longrightarrow> component name \<Longrightarrow> ws_run (snd (nsmd_DeleteClientConnection name n))"

definition live :: "string \<Rightarrow> host \<Rightarrow> bool" where
  "live name h \<longleftrightarrow> ws_dir name \<in> set (dirs h) \<and> ws_socket name \<in> set (sockets h) \<and> ws_socket name \<in> set (servers h)"

definition ws_inv :: "nsmServer \<Rightarrow> bool" where
  "ws_inv n \<longleftrightarrow> (\<forall>name w. map_of (workspaces n) name = Some w \<longrightarrow>
     w = default_ws name RUNNING True \<and> component name \<and> live name (nsm_host n))"

lemma live_RemoveAll:
  assumes "component a" "component b" "a \<noteq> b" "live b h"
  shows "live b (RemoveAll (ws_dir a) h)"
  using assms(4) not_below_component [OF assms(1-3)] by (simp add: live_def RemoveAll_def)

lemma live_grow:
  "live b h \<Longrightarrow> live b (MkdirAll d h)"
  "live b h \<Longrightarrow> b \<noteq> a \<Longrightarrow> live b (h\<lparr>sockets := filter (\<lambda>p. p \<noteq> ws_socket a) (sockets h)\<rparr>)"
  "live b h \<Longrightarrow> live b (h\<lparr>sockets := s # sockets h, servers := t # servers h\<rparr>)"
  "live b h \<Longrightarrow> b \<noteq> a \<Longrightarrow> live b (h\<lparr>servers := filter (\<lambda>p. p \<noteq> ws_socket a) (servers h)\<rparr>)"
  by (auto simp: live_def MkdirAll_def socket_inject)

lemma NewWorkSpace_live:
  assumes "NewWorkSpace env a h = (r, h')" "component a"
  shows "(r = Inr w \<longrightarrow> w = default_ws a RUNNING True \<and> live a h') \<and>
    (component b \<and> b \<noteq> a \<and> live b h \<longrightarrow> live b h')"
proof -
  have "live a h'" if "r = Inr w"
    using assms(1) that
    by (auto simp: NewWorkSpace_cases Let_def live_def MkdirAll_def split: option.splits if_splits)
  moreover have "live b h'" if b: "component b" "b \<noteq> a" "live b h"
  proof -
    have 1: "live b (MkdirAll (ws_dir a) h)" by (rule live_grow(1) [OF b(3)])
    note 2 = live_grow(2) [OF 1 b(2)]
    have r: "live b k \<Longrightarrow> live b (RemoveAll (ws_dir a) k)" for k
      using live_RemoveAll [OF assms(2) b(1)] b(2) by blast
    show ?thesis
      using assms(1) r [OF b(3)] r [OF 1] r [OF 2] live_grow(3) [OF 2]
      by (auto simp: NewWorkSpace_cases Let_def split: option.splits)
  qed
  moreover have "w = default_ws a RUNNING True" if "r = Inr w"
    using assms(1) that by (auto simp: NewWorkSpace_cases Let_def split: option.splits)
  ultimately show ?thesis by blast
qed

lemma ws_inv_run: "ws_run n \<Longrightarrow> ws_inv n"
proof (induction rule: ws_run.induct)
  case (ws_request n name env)
  obtain r h where r: "NewWorkSpace env name (nsm_host n) = (r, h)" by force
  note k = NewWorkSpace_live [OF r ws_request(2)]
  have old: "w = default_ws b RUNNING True \<and> component b \<and> live b h" if "map_of (workspaces n) b = Some w" for b w
    using that ws_request(3,4) k [of w b] by (auto simp: ws_inv_def)
  show ?case
  proof (cases r)
    case (Inl e)
    then show ?thesis using r old by (simp add: RequestClientConnection_def ws_inv_def)
  next
    case (Inr w)
    then show ?thesis
      using r old k [of w] ws_request(2) by (auto simp: RequestClientConnection_def ws_inv_def default_ws_def)
  qed
next
  case (ws_delete n name)
  show ?case
  proof (cases "map_of (workspaces n) name")
    case (Some w)
    then have w: "w = default_ws name RUNNING True" using ws_delete by (simp add: ws_inv_def)
    have "live b (snd (Workspace_Close w (nsm_host n)))"
      if "b \<noteq> name" "component b" "live b (nsm_host n)" for b
      unfolding w Workspace_Close_default
      using live_grow(4) [OF live_RemoveAll [OF ws_delete(2) that(2) that(1) [symmetric] that(3)] that(1)]
      by (simp add: RemoveAll_def)
    then show ?thesis
      using ws_delete Some by (auto simp: nsmd_DeleteClientConnection_def ws_inv_def)
  qed (use ws_delete in \<open>simp add: nsmd_DeleteClientConnection_def\<close>)
qed (simp add: ws_inv_def)



text \<open>
  The name has to be free: a second request under the same name whose socket
  cannot be opened removes the directory of the running workspace. And it has to
  be a component: the empty name owns the directory of all workspaces.
\<close>

lemma failed_duplicate_removes:
  assumes "e_Mkdir env = None" "e_SocketCleanup env = None" "e_Listen env = Some e"
  shows "ws_dir name \<notin> set (dirs (snd (NewWorkSpace env name h)))"
  using assms below_same(1) by (simp add: NewWorkSpace_cases Let_def RemoveAll_def)

lemma empty_name_removes_all: "below (ws_dir '''') (ws_dir name)"
  by (simp add: below_def ws_dir_def HasPrefix_append)

lemma failed_check_leaks:
  assumes "e_Mkdir env = None" "e_SocketCleanup env = None" "e_Listen env = None" "e_SocketCheck env = Some e"
  shows "fst (NewWorkSpace env name h) = Inl (Errorf e)" "ws_socket name \<in> set (servers (snd (NewWorkSpace env name h)))"
  using assms by (simp_all add: NewWorkSpace_cases Let_def)

text \<open>The enumeration lists an empty name per workspace.\<close>

lemma enum_lists_empty_names: "workspaces n \<noteq> [] \<Longrightarrow> '''' \<in> set (EnumConnection ord n)"
  by (simp add: EnumConnection_def)

subsection \<open>Registrations of endpoints\<close>

text \<open>Endpoints are registered under their own names.\<close>

definition endpoints_keyed :: "impl \<Rightarrow> bool" where
  "endpoints_keyed i \<longleftrightarrow> (\<forall>n p. map_of (endpoints i) n = Some p \<longrightarrow> ptr_name p = n)"

lemma run_model_op': "model_op f s = Some (Inr (), s\<lparr>mdl := fst (f (mdl s)),
    trace := trace s @ map (\<lambda>(l, ev). C_Notify l ev) (snd (f (mdl s)))\<rparr>)"
  by (simp add: model_op_def modify_def split: prod.split)

lemma run_RegistryClient:
  "attempt (RegistryClient env) s =
    Some (Inr (case e_RegistryClient env of None \<Rightarrow> Inr () | Some e \<Rightarrow> Inl e), s)"
  by (simp add: RegistryClient_def answer_err_def attempt_def go_run split: option.split)

lemma RegisterNSE_error:
  assumes "RegisterNSE env ws request s = Some (Inl e, s')"
  shows "s' = s"
  using assms
  by (auto simp: RegisterNSE_def bnd_def run_RegistryClient throw_def get_state_def ret_def add_registration_def
      AddEndpointToWorkspace_def modify_def run_model_op' Let_def split: option.splits sum.splits if_splits)

lemma RegisterNSE_ok:
  assumes "RegisterNSE env ws request s = Some (Inr reg, s')" "endpoints_keyed (mdl s)"
  defines "n \<equiv> NSE_GetEndpointName (Reg_NetworkserviceEndpoint reg)"
  shows "endpoints_keyed (mdl s') \<and> GetEndpoint (mdl s') n \<noteq> None \<and> map_of (workspaceByEndpoint s') n = Some ws"
proof (cases "GetEndpoint (mdl s) n")
  case None
  have "mdl s' = fst (AddEndpoint (mdl s) (next_ref s, reg))"
    "workspaceByEndpoint s' = AList.update '''' ws (AList.update n ws (workspaceByEndpoint s))"
    using assms(1) None
    by (auto simp: RegisterNSE_def bnd_def run_RegistryClient throw_def get_state_def ret_def add_registration_def
        AddEndpointToWorkspace_def modify_def run_model_op' Let_def n_def NSE_GetEndpointName_def
        Reg_GetNetworkserviceEndpoint_def split: option.splits sum.splits)
  then show ?thesis
    using assms(2)
    by (auto simp: endpoints_keyed_def GetEndpoint_def AddEndpoint_def Let_def ptr_name_def n_def)
next
  case (Some ep)
  then have "NSE_GetEndpointName (Reg_GetNetworkserviceEndpoint (Some ep)) = n"
    using assms(2) by (auto simp: GetEndpoint_def endpoints_keyed_def ptr_name_def Reg_GetNetworkserviceEndpoint_def)
  then have "mdl s' = mdl s" "workspaceByEndpoint s' = AList.update n ws (workspaceByEndpoint s)"
    using assms(1) Some
    by (auto simp: RegisterNSE_def bnd_def run_RegistryClient throw_def get_state_def ret_def
        AddEndpointToWorkspace_def modify_def Let_def n_def split: option.splits sum.splits)
  then show ?thesis using assms(2) Some by simp
qed

lemma RemoveNSE_ok:
  assumes "RemoveNSE env n s = Some (Inr (), s')"
  shows "GetEndpoint (mdl s') n = None \<and> map_of (workspaceByEndpoint s') n = None"
  using assms
  by (auto simp: RemoveNSE_def bnd_def run_RegistryClient throw_def get_state_def
      DeleteEndpointToWorkspace_def modify_def run_model_op' Let_def GetEndpoint_def DeleteEndpoint_def
      return_err_def ret_def split: option.splits sum.splits)


definition ex_reg :: NSERegistration where
  "ex_reg = \<lparr>Reg_NetworkService = Some \<lparr>NS_Name = ''icmp'', NS_Payload = ''IP'', NS_Matches = []\<rparr>,
     Reg_NetworkServiceManager = None,
     Reg_NetworkserviceEndpoint = Some \<lparr>NSE_NetworkServiceName = ''icmp'', NSE_Payload = ''IP'',
       NSE_NetworkServiceManagerName = ''nsm-1'', NSE_EndpointName = ''nse-1'', NSE_Labels = [], NSE_State = ''''\<rparr>\<rparr>"

definition ex_registry :: registry_env where
  "ex_registry = \<lparr>e_RegistryClient = None, e_RegisterNSE = Inr, e_RemoveNSE = (\<lambda>_. None), e_PublicAPI = ''10.0.0.1:5001''\<rparr>"

definition ex_manager :: manager where
  "ex_manager = \<lparr>mdl = NewModel, allocator = NewVniAllocator, workspaceByEndpoint = [], excluded_prefixes = [],
     next_ref = 0, open_conns = [], next_conn = 0, trace = []\<rparr>"


text \<open>A new registration also attributes the empty name to the workspace.\<close>

lemma empty_name_registered:
  "case RegisterNSE ex_registry ''nsm-1'' ex_reg ex_manager of
     Some (Inr _, s1) \<Rightarrow> map_of (workspaceByEndpoint s1) '''' = Some ''nsm-1'' | _ \<Rightarrow> False"
  by code_simp

subsection \<open>Registrations of dataplanes\<close>

definition dataplanes_keyed :: "impl \<Rightarrow> bool" where
  "dataplanes_keyed i \<longleftrightarrow> gomap_ok (dataplanes i) \<and> (\<forall>(k, d) \<in> set (dataplanes i). RegisteredName d = k)"

lemma first_named_iff: "first_named name xs = None \<longleftrightarrow> (\<forall>(k, d) \<in> set xs. RegisteredName d \<noteq> name)"
  by (induction name xs rule: first_named.induct) auto

lemma GetDataplane_None:
  assumes "dataplanes_keyed i" "is_order ord"
  shows "GetDataplane ord i name = None \<longleftrightarrow> map_of (dataplanes i) name = None"
proof -
  have k: "RegisteredName d = k" if "(k, d) \<in> set (dataplanes i)" for k d
    using assms(1) that by (auto simp: dataplanes_keyed_def)
  have "map_of (dataplanes i) name = None \<longleftrightarrow> (\<forall>(k, d) \<in> set (dataplanes i). k \<noteq> name)"
    by (auto simp: map_of_eq_None_iff rev_image_eqI)
  also have "\<dots> \<longleftrightarrow> (\<forall>(k, d) \<in> set (dataplanes i). RegisteredName d \<noteq> name)" by (auto dest: k)
  finally show ?thesis unfolding GetDataplane_def first_named_iff is_order_set [OF assms(2)] ..
qed

lemma monitor_stream_ends:
  "\<exists>s'. monitor_stream name us s = Some (Inr (), s') \<and>
    map_of (dataplanes (mdl s')) = (map_of (dataplanes (mdl s)))(name := None)"
proof (induction us arbitrary: s)
  case Nil
  then show ?case
    by (auto simp: run_model_op' DeleteDataplane_def fun_eq_iff split: option.split)
next
  case (Cons u us)
  let ?f = "\<lambda>k d. if k = name then d\<lparr>RemoteMechanisms := U_RemoteMechanisms u, LocalMechanisms := U_LocalMechanisms u\<rparr> else d"
  let ?s = "s\<lparr>mdl := (mdl s)\<lparr>dataplanes := map (\<lambda>(k, d). (k, ?f k d)) (dataplanes (mdl s))\<rparr>\<rparr>"
  have "map_of (map (\<lambda>(k, d). (k, ?f k d)) m) k = map_of m k" if "k \<noteq> name" for k
    and m :: "(string, Dataplane) gomap" using that by (induction m) auto
  then have eq: "(map_of (dataplanes (mdl ?s)))(name := None) = (map_of (dataplanes (mdl s)))(name := None)"
    by (simp add: fun_eq_iff)
  obtain s' where s': "monitor_stream name us ?s = Some (Inr (), s')"
    "map_of (dataplanes (mdl s')) = (map_of (dataplanes (mdl ?s)))(name := None)"
    using Cons by blast
  have "monitor_stream name (u # us) s = monitor_stream name us ?s"
    by (simp add: apply_mechanisms_def run_modify)
  then show ?case unfolding s'(1) by (intro exI [of _ s']) (use s'(2) eq in \<open>simp only: simp_thms\<close>)
qed

text \<open>
  The life of a dataplane. Dataplanes registered under their names stay so; a
  registration under a new name makes the dataplane known, one under a name in use is
  refused and changes nothing. However the monitor of a registered dataplane ends,
  after any number of updates, it returns, the dataplane is not registered any
  more, and all other dataplanes are unchanged.
\<close>

theorem dataplane_life:
  assumes "dataplanes_keyed (mdl s)" "is_order ord"
  shows "(map_of (dataplanes (mdl s)) name = None \<longrightarrow>
      (\<exists>s1. RequestDataplaneRegistration ord name socket s = Some (Inr True, s1) \<and> dataplanes_keyed (mdl s1) \<and>
        (\<exists>d. map_of (dataplanes (mdl s1)) = (map_of (dataplanes (mdl s)))(name \<mapsto> d) \<and> SocketLocation d = socket))) \<and>
    (map_of (dataplanes (mdl s)) name \<noteq> None \<longrightarrow>
      RequestDataplaneRegistration ord name socket s = Some (Inl (Errorf ''dataplane with name %s already registered''), s) \<and>
      (\<exists>s2. dataplaneMonitor ord check monitor name stream s = Some (Inr (), s2) \<and>
        map_of (dataplanes (mdl s2)) = (map_of (dataplanes (mdl s)))(name := None)))"
proof -
  note g = GetDataplane_None [OF assms, of name]
  let ?d = "\<lparr>RegisteredName = name, SocketLocation = socket, LocalMechanisms = [], RemoteMechanisms = []\<rparr>"
  have "dataplanes_keyed (fst (AddDataplane (mdl s) ?d))"
    using assms(1) entries_update [of name ?d "dataplanes (mdl s)"]
    by (auto simp: dataplanes_keyed_def AddDataplane_def)
  then have "\<exists>s1. RequestDataplaneRegistration ord name socket s = Some (Inr True, s1) \<and> dataplanes_keyed (mdl s1) \<and>
        (\<exists>d. map_of (dataplanes (mdl s1)) = (map_of (dataplanes (mdl s)))(name \<mapsto> d) \<and> SocketLocation d = socket)"
    if "map_of (dataplanes (mdl s)) name = None"
    using that g
    by (auto simp: RequestDataplaneRegistration_def run_get bnd_def [of "model_op _"] run_model_op' ret_def
        AddDataplane_def intro!: exI [of _ ?d])
  moreover have "RequestDataplaneRegistration ord name socket s =
      Some (Inl (Errorf ''dataplane with name %s already registered''), s) \<and>
      (\<exists>s2. dataplaneMonitor ord check monitor name stream s = Some (Inr (), s2) \<and>
        map_of (dataplanes (mdl s2)) = (map_of (dataplanes (mdl s)))(name := None))"
    if r: "map_of (dataplanes (mdl s)) name \<noteq> None"
  proof -
    obtain d where d: "GetDataplane ord (mdl s) name = Some d" using r g by auto
    have "dataplaneMonitor ord check monitor name stream s =
        monitor_stream name (if check \<noteq> None \<or> monitor \<noteq> None then [] else stream) s"
      using d by (simp add: dataplaneMonitor_def run_get)
    then show ?thesis
      using d monitor_stream_ends [of name _ s] by (auto simp: RequestDataplaneRegistration_def run_get throw_def)
  qed
  ultimately show ?thesis by blast
qed

theorem dataplane_life_witness:
  "\<exists>s1. RequestDataplaneRegistration id ''vpp'' ''vpp.sock'' ex_manager = Some (Inr True, s1)"
proof -
  have "dataplanes_keyed (mdl ex_manager)" "map_of (dataplanes (mdl ex_manager)) ''vpp'' = None"
    by (simp_all add: dataplanes_keyed_def ex_manager_def NewModel_def)
  then show ?thesis using dataplane_life [of ex_manager id "''vpp''" "''vpp.sock''"] by (auto simp: is_order_def)
qed

end
