(* ===== verification/Converter.thy ===== *)
theory Converter
  imports NetNs Tools
begin

text \<open>
  The converters of the vpp-agent dataplane (\<open>dataplane/vppagent/pkg/converter\<close>):
  a cross connect becomes the configuration of two interfaces and the pair that
  connects them. The messages of vpp-agent are records of the fields the code sets.
  What a conversion reads of the host (the processes under \<open>/proc\<close>, whether
  \<open>/dev/vhost-net\<close> exists, the identifier drawn for an interface, the outcome of
  \<open>MkdirAll\<close>) is an argument; a conversion returns the directories it has made
  beside its result.
\<close>

subsection \<open>Paths\<close>

text \<open>\<open>path.Clean\<close>: the components of a path, without dots and with inner parents resolved.\<close>

fun clean_parts :: "bool \<Rightarrow> string list \<Rightarrow> string list \<Rightarrow> string list" where
  "clean_parts rooted acc [] = rev acc"
| "clean_parts rooted acc (p # ps) =
     (if p = '''' \<or> p = ''.'' then clean_parts rooted acc ps
      else if p = ''..'' then
        (case acc of
           [] \<Rightarrow> clean_parts rooted (if rooted then [] else [''..'']) ps
         | a # acc' \<Rightarrow> clean_parts rooted (if a = ''..'' then ''..'' # acc else acc') ps)
      else clean_parts rooted (p # acc) ps)"

definition path_Clean :: "string \<Rightarrow> string" where
  "path_Clean p =
     (let rooted = HasPrefix p ''/''; s = join ''/'' (clean_parts rooted [] (Split p ''/'')) in
      if rooted then ''/'' @ s else if s = '''' then ''.'' else s)"

definition path_Join :: "string list \<Rightarrow> string" where
  "path_Join elem = (case dropWhile (\<lambda>e. e = '''') elem of [] \<Rightarrow> '''' | es \<Rightarrow> path_Clean (join ''/'' es))"

definition path_Dir :: "string \<Rightarrow> string" where
  "path_Dir p = path_Clean (rev (dropWhile (\<lambda>c. c \<noteq> CHR ''/'') (rev p)))"

subsection \<open>Mechanisms\<close>

definition NewMechanism :: "string result \<Rightarrow> LocalMechanismType \<Rightarrow> string \<Rightarrow> string \<Rightarrow> LocalMechanism result" where
  "NewMechanism ns t name description =
     (case ns of
        Inl e \<Rightarrow> Inl e
      | Inr inodeNum \<Rightarrow>
          (let rv = \<lparr>LM_Type = t, LM_Parameters = Some
                 [(InterfaceNameKey, name), (InterfaceDescriptionKey, description),
                  (SocketFilename, path_Join [name, MemifSocket]), (NetNsInodeKey, inodeNum)]\<rparr>
           in case LocalMechanism_IsValid (Some rv) of Some e \<Rightarrow> Inl e | None \<Rightarrow> Inr rv))"

record conv_env =
  e_Proc :: "string list result"
  e_GetInode :: "string \<Rightarrow> (64 word) result"
  e_GetCmdline :: "string \<Rightarrow> string result"

definition NetNsFileName :: "'a conv_env_scheme \<Rightarrow> LocalMechanism option \<Rightarrow> string result" where
  "NetNsFileName env m0 =
     (case m0 of
        None \<Rightarrow> Inl (Errorf ''Mechanism cannot be nil'')
      | Some m \<Rightarrow>
          (case LM_Parameters m of
             None \<Rightarrow> Inl (Errorf ''Mechanism.Parameters cannot be nil: %v'')
           | Some ps \<Rightarrow>
               (case map_of ps NetNsInodeKey of
                  None \<Rightarrow> Inl (Errorf ''Mechanism.Type %s requires Mechanism.Parameters[%s] for network namespace'')
                | Some inode \<Rightarrow>
                    (case ParseUint inode 64 of
                       Inl _ \<Rightarrow> Inl (Errorf ''Mechanism.Parameters[%s] must be an unsigned int, instead was: %s: %v'')
                     | Inr inodeNum \<Rightarrow>
                         (case ResolvePodNsByInode (e_Proc env) (e_GetInode env) (e_GetCmdline env) (of_nat inodeNum) of
                            Inl _ \<Rightarrow> Inl (Errorf ''No file found in /proc/*/ns/net with inode %d: %v'')
                          | Inr filename \<Rightarrow> Inr filename)))))"

subsection \<open>The configuration of vpp-agent\<close>

datatype InterfaceKind =
    Tap nat string                       \<comment> \<open>version, name of the Linux side\<close>
  | Afpacket string                      \<comment> \<open>name of the Linux side\<close>
  | Memif bool string                    \<comment> \<open>master, socket\<close>
  | Vxlan string string "32 word"        \<comment> \<open>source, destination, network identifier\<close>

record Interface =
  IF_Name :: string
  IF_Enabled :: bool
  IF_IpAddresses :: "string list"
  IF_Kind :: InterfaceKind

datatype LinuxInterfaceKind =
    AUTO_TAP string                      \<comment> \<open>temporary name\<close>
  | VETH string                          \<comment> \<open>name of the peer\<close>

record LinuxInterface =
  LI_Name :: string
  LI_Kind :: LinuxInterfaceKind
  LI_Enabled :: bool
  LI_Description :: string
  LI_IpAddresses :: "string list"
  LI_HostIfName :: string
  LI_Namespace :: "string option"

record LinuxRoute =
  LR_Name :: string
  LR_DstIpAddr :: string
  LR_Description :: string
  LR_Interface :: string
  LR_Namespace :: string
  LR_GwAddr :: string

record LinuxArpEntry =
  LA_Name :: string
  LA_IpAddr :: string
  LA_Interface :: string
  LA_HwAddress :: string
  LA_Namespace :: string

record StaticRoute =
  SR_DstIpAddr :: string
  SR_Description :: string
  SR_NextHopAddr :: string
  SR_OutgoingInterface :: string

record XConnectPair =
  ReceiveInterface :: string
  TransmitInterface :: string

subsubsection \<open>Access lists\<close>

record PortRange =
  LowerPort :: "32 word"
  UpperPort :: "32 word"

record AclIp =
  DestinationNetwork :: string
  SourceNetwork :: string

record AclIcmp =
  Icmpv6 :: bool
  IcmpCodeRange :: "32 word \<times> 32 word"
  IcmpTypeRange :: "32 word \<times> 32 word"

record AclTcp =
  Tcp_DestinationPortRange :: PortRange
  Tcp_SourcePortRange :: PortRange
  TcpFlagsMask :: "32 word"
  TcpFlagsValue :: "32 word"

record AclUdp =
  Udp_DestinationPortRange :: PortRange
  Udp_SourcePortRange :: PortRange

record IpRule =
  Rule_Ip :: "AclIp option"
  Rule_Icmp :: "AclIcmp option"
  Rule_Tcp :: "AclTcp option"
  Rule_Udp :: "AclUdp option"

record AclRule =
  RuleName :: string
  AclAction :: int
  AclMatch :: IpRule

record Acl =
  AclName :: string
  AclRules :: "AclRule list"
  Egress :: "string list"
  Ingress :: "string list"

subsubsection \<open>Requests\<close>

record DataRequest =
  AccessLists :: "Acl list"
  Interfaces :: "Interface list"
  LinuxInterfaces :: "LinuxInterface list"
  LinuxRoutes :: "LinuxRoute list"
  LinuxArpEntries :: "LinuxArpEntry list"
  StaticRoutes :: "StaticRoute list"
  XCons :: "XConnectPair list"

definition empty_request :: DataRequest where
  "empty_request = \<lparr>AccessLists = [], Interfaces = [], LinuxInterfaces = [], LinuxRoutes = [],
     LinuxArpEntries = [], StaticRoutes = [], XCons = []\<rparr>"

text \<open>A nil request is replaced by an empty one.\<close>

definition request_or_new :: "DataRequest option \<Rightarrow> DataRequest" where
  "request_or_new rv = (case rv of None \<Rightarrow> empty_request | Some r \<Rightarrow> r)"

subsection \<open>Parameters of a conversion\<close>

datatype ConnectionContextSide = NEITHER | SOURCE | DESTINATION

record ConnectionConversionParameters =
  Terminate :: bool
  Side :: ConnectionContextSide
  P_Name :: string
  BaseDir :: string

record host_env = conv_env +
  e_xid :: "ConnectionContextSide \<Rightarrow> string"
  e_vhost :: bool
  e_MkdirAll :: "string \<Rightarrow> error option"

text \<open>
  \<open>TempIfName\<close>: slicing the identifier panics when it is too short. The third-party
  package documents identifiers of 20 characters.
\<close>

definition TempIfName :: "string \<Rightarrow> string result" where
  "TempIfName guid = (if length guid < 16 then Inl (Panic ''slice bounds out of range'')
     else Inr (take 7 guid @ drop 16 guid))"

definition extractCleanIPAddress :: "string \<Rightarrow> string" where
  "extractCleanIPAddress addr = (case ParseCIDR addr of Inl _ \<Rightarrow> addr | Inr (ip, _) \<Rightarrow> IP_String ip)"

definition numbered :: "string \<Rightarrow> string \<Rightarrow> nat \<Rightarrow> string" where
  "numbered name sep i = name @ sep @ FormatUint 10 i"

subsection \<open>Kernel interfaces\<close>

definition kernel_addresses :: "ConnectionContextSide \<Rightarrow> ConnectionContext \<Rightarrow> string list" where
  "kernel_addresses side ctx =
     (if side = DESTINATION then [DstIpAddr ctx] else if side = SOURCE then [SrcIpAddr ctx] else [])"

text \<open>With \<open>/dev/vhost-net\<close>: a tap, whose Linux side is renamed and moved to the namespace.\<close>

definition add_tap ::
    "string \<Rightarrow> LocalMechanism option \<Rightarrow> string list \<Rightarrow> string \<Rightarrow> string \<Rightarrow> DataRequest \<Rightarrow> DataRequest" where
  "add_tap name m ips filepath tmpIface rv =
     rv\<lparr>Interfaces := Interfaces rv @
          [\<lparr>IF_Name = name, IF_Enabled = True, IF_IpAddresses = [], IF_Kind = Tap 2 tmpIface\<rparr>],
        LinuxInterfaces := LinuxInterfaces rv @
          [\<lparr>LI_Name = name, LI_Kind = AUTO_TAP tmpIface, LI_Enabled = True,
            LI_Description = LM_parameter m InterfaceDescriptionKey, LI_IpAddresses = ips,
            LI_HostIfName = LM_parameter m InterfaceNameKey, LI_Namespace = Some filepath\<rparr>]\<rparr>"

text \<open>Without it: a pair of virtual Ethernet devices, one end of which the dataplane reads.\<close>

definition add_veth ::
    "string \<Rightarrow> LocalMechanism option \<Rightarrow> string list \<Rightarrow> string \<Rightarrow> string \<Rightarrow> DataRequest \<Rightarrow> DataRequest" where
  "add_veth name m ips filepath tmpIface rv =
     rv\<lparr>LinuxInterfaces := LinuxInterfaces rv @
          [\<lparr>LI_Name = tmpIface, LI_Kind = VETH (LM_parameter m InterfaceNameKey), LI_Enabled = True,
            LI_Description = LM_parameter m InterfaceDescriptionKey, LI_IpAddresses = ips,
            LI_HostIfName = tmpIface, LI_Namespace = None\<rparr>,
           \<lparr>LI_Name = name, LI_Kind = VETH tmpIface, LI_Enabled = True,
            LI_Description = LM_parameter m InterfaceDescriptionKey, LI_IpAddresses = ips,
            LI_HostIfName = LM_parameter m InterfaceNameKey, LI_Namespace = Some filepath\<rparr>],
        Interfaces := Interfaces rv @
          [\<lparr>IF_Name = name, IF_Enabled = True, IF_IpAddresses = [], IF_Kind = Afpacket tmpIface\<rparr>]\<rparr>"

definition add_linux_routes :: "string \<Rightarrow> string \<Rightarrow> ConnectionContext \<Rightarrow> DataRequest \<Rightarrow> DataRequest" where
  "add_linux_routes name filepath ctx rv =
     rv\<lparr>LinuxRoutes := LinuxRoutes rv @
        map (\<lambda>(idx, route).
               \<lparr>LR_Name = numbered name ''_route_'' idx, LR_DstIpAddr = Route_Prefix route,
                LR_Description = ''Route to '' @ Route_Prefix route, LR_Interface = name,
                LR_Namespace = filepath, LR_GwAddr = extractCleanIPAddress (DstIpAddr ctx)\<rparr>)
          (enumerate 0 (Routes ctx))\<rparr>"

definition add_arp_entries :: "string \<Rightarrow> string \<Rightarrow> ConnectionContext \<Rightarrow> DataRequest \<Rightarrow> DataRequest" where
  "add_arp_entries name filepath ctx rv =
     rv\<lparr>LinuxArpEntries := LinuxArpEntries rv @
        map (\<lambda>(idx, neighbour).
               \<lparr>LA_Name = numbered name ''_arp_'' idx, LA_IpAddr = Ip neighbour, LA_Interface = name,
                LA_HwAddress = HardwareAddress neighbour, LA_Namespace = filepath\<rparr>)
          (enumerate 0 (IpNeighbors ctx))\<rparr>"

definition Kernel_ToDataRequest ::
    "host_env \<Rightarrow> LocalConnection option \<Rightarrow> ConnectionConversionParameters \<Rightarrow> DataRequest option \<Rightarrow> bool \<Rightarrow>
     DataRequest result" where
  "Kernel_ToDataRequest env c p rv0 connect =
     (case LocalConnection_IsComplete c of
        Some e \<Rightarrow> Inl e
      | None \<Rightarrow>
          (let m = Option.bind c L_Mechanism in
           if \<not> IsKernelInterface m then
             Inl (Errorf ''KernelConnectionConverter cannot be used on Connection.Mechanism.Type %s'')
           else
             (case (c, Option.bind c L_Context) of
                (Some conn, Some ctx) \<Rightarrow>
                  (case (NetNsFileName env m, connect) of
                     (Inl e, True) \<Rightarrow> Inl e
                   | (ns, _) \<Rightarrow>
                       (let filepath = (case ns of Inl _ \<Rightarrow> '''' | Inr f \<Rightarrow> f);
                            ips = kernel_addresses (Side p) ctx
                        in case TempIfName (e_xid env (Side p)) of
                             Inl e \<Rightarrow> Inl e
                           | Inr tmpIface \<Rightarrow>
                               (let rv1 = (if e_vhost env then add_tap else add_veth)
                                            (P_Name p) m ips filepath tmpIface (request_or_new rv0)
                                in Inr (if Side p = SOURCE
                                        then add_arp_entries (P_Name p) filepath ctx
                                               (add_linux_routes (P_Name p) filepath ctx rv1)
                                        else rv1))))
              | _ \<Rightarrow> Inl (Panic ''nil dereference''))))"

subsection \<open>Memory interfaces\<close>

definition isMaster :: "ConnectionConversionParameters \<Rightarrow> bool" where
  "isMaster p = (if Side p = DESTINATION then Terminate p else \<not> Terminate p)"

definition memif_addresses :: "ConnectionConversionParameters \<Rightarrow> ConnectionContext option \<Rightarrow> string list result" where
  "memif_addresses p ctx0 =
     (if Terminate p \<and> (Side p = DESTINATION \<or> Side p = SOURCE) then
        (case ctx0 of
           None \<Rightarrow> Inl (Panic ''nil dereference'')
         | Some ctx \<Rightarrow> Inr [if Side p = DESTINATION then DstIpAddr ctx else SrcIpAddr ctx])
      else Inr [])"

definition add_static_routes :: "string \<Rightarrow> ConnectionContext option \<Rightarrow> DataRequest \<Rightarrow> DataRequest" where
  "add_static_routes name ctx0 rv =
     (case ctx0 of
        None \<Rightarrow> rv
      | Some ctx \<Rightarrow> rv\<lparr>StaticRoutes := StaticRoutes rv @
          map (\<lambda>route. \<lparr>SR_DstIpAddr = Route_Prefix route, SR_Description = ''Route to '' @ Route_Prefix route,
                        SR_NextHopAddr = extractCleanIPAddress (DstIpAddr ctx), SR_OutgoingInterface = name\<rparr>)
            (Routes ctx)\<rparr>)"

definition memif_socket :: "LocalConnection option \<Rightarrow> ConnectionConversionParameters \<Rightarrow> string" where
  "memif_socket c p = path_Join [BaseDir p, GetSocketFilename (Option.bind c L_Mechanism)]"

definition Memif_ToDataRequest ::
    "host_env \<Rightarrow> LocalConnection option \<Rightarrow> ConnectionConversionParameters \<Rightarrow> DataRequest option \<Rightarrow>
     DataRequest result \<times> string list" where
  "Memif_ToDataRequest env c p rv0 =
     (let socket = memif_socket c p;
          made = (if isMaster p then [path_Dir socket] else []);
          rv = request_or_new rv0
      in case (if isMaster p then e_MkdirAll env (path_Dir socket) else None) of
           Some e \<Rightarrow> (Inl e, made)
         | None \<Rightarrow>
             (case memif_addresses p (Option.bind c L_Context) of
                Inl e \<Rightarrow> (Inl e, made)
              | Inr ips \<Rightarrow>
                  if P_Name p = '''' then (Inl (Errorf ''ConnnectionConversionParameters.Name cannot be empty''), made)
                  else
                    (let rv1 = rv\<lparr>Interfaces := Interfaces rv @
                           [\<lparr>IF_Name = P_Name p, IF_Enabled = True, IF_IpAddresses = ips,
                             IF_Kind = Memif (isMaster p) (path_Join [socket])\<rparr>]\<rparr>
                     in (Inr (if Side p = SOURCE then add_static_routes (P_Name p) (Option.bind c L_Context) rv1 else rv1),
                         made))))"

text \<open>The converter of a local connection is nil for any other mechanism, and calling it panics.\<close>

definition Local_ToDataRequest ::
    "host_env \<Rightarrow> LocalConnection option \<Rightarrow> ConnectionConversionParameters \<Rightarrow> DataRequest option \<Rightarrow> bool \<Rightarrow>
     DataRequest result \<times> string list" where
  "Local_ToDataRequest env c p rv connect =
     (let m = Option.bind c L_Mechanism in
      if IsKernelInterface m then (Kernel_ToDataRequest env c p rv connect, [])
      else if IsMemif m then Memif_ToDataRequest env c p rv
      else (Inl (Panic ''nil dereference''), []))"

subsection \<open>Tunnels\<close>

text \<open>The errors of the three parameters are dropped; they are excluded by \<open>IsComplete\<close>.\<close>

definition or_zero :: "'a \<Rightarrow> 'a result \<Rightarrow> 'a" where
  "or_zero z r = (case r of Inl _ \<Rightarrow> z | Inr x \<Rightarrow> x)"

definition Remote_ToDataRequest ::
    "RemoteConnection option \<Rightarrow> string \<Rightarrow> ConnectionContextSide \<Rightarrow> DataRequest option \<Rightarrow> DataRequest result" where
  "Remote_ToDataRequest c name side rv0 =
     (case RemoteConnection_IsComplete c of
        Some e \<Rightarrow> Inl e
      | None \<Rightarrow>
          (let m = Option.bind c R_Mechanism in
           if (case m of None \<Rightarrow> True | Some m \<Rightarrow> RM_Type m \<noteq> VXLAN) then
             Inl (Errorf ''RemoteConnectionConverter supports only VXLAN. Attempt to use Connection.Mechanism.Type %s'')
           else
             (let rv = request_or_new rv0;
                  srcip = or_zero '''' (if side = SOURCE then DstIP m else SrcIP m);
                  dstip = or_zero '''' (if side = SOURCE then SrcIP m else DstIP m);
                  vni = or_zero 0 (VNI m)
              in Inr (rv\<lparr>Interfaces := Interfaces rv @
                   [\<lparr>IF_Name = name, IF_Enabled = True, IF_IpAddresses = [],
                     IF_Kind = Vxlan srcip dstip vni\<rparr>]\<rparr>))))"

subsection \<open>Cross connects\<close>

definition conversion_error :: error where
  "conversion_error = Errorf ''Error Converting CrossConnect %v: %s''"

text \<open>An error of a converter is wrapped; a panic goes through.\<close>

definition wrap_error :: "error \<Rightarrow> error" where
  "wrap_error e = (case e of Panic s \<Rightarrow> Panic s | Errorf _ \<Rightarrow> conversion_error)"

text \<open>
  The conversion of one end. The converters extend the request in place, so that the
  result, which the code assigns to a new variable, is the request itself.
\<close>

definition convert_end ::
    "host_env \<Rightarrow> string \<Rightarrow> string \<Rightarrow> ConnectionContextSide \<Rightarrow> NSMConnection option \<Rightarrow> DataRequest \<Rightarrow> bool \<Rightarrow>
     DataRequest result \<times> string list" where
  "convert_end env baseDir name side conn rv connect =
     (case conn of
        None \<Rightarrow> (Inr rv, [])
      | Some (Local c) \<Rightarrow>
          (case Local_ToDataRequest env (Some c)
                  \<lparr>Terminate = False, Side = side, P_Name = name,
                   BaseDir = path_Join [baseDir, GetWorkspace (L_Mechanism c)]\<rparr> (Some rv) connect of
             (Inl e, made) \<Rightarrow> (Inl (wrap_error e), made)
           | (Inr rv', made) \<Rightarrow> (Inr rv', made))
      | Some (Remote c) \<Rightarrow>
          (case Remote_ToDataRequest (Some c) name side (Some rv) of
             Inl e \<Rightarrow> (Inl (wrap_error e), [])
           | Inr rv' \<Rightarrow> (Inr rv', [])))"

definition add_xcons :: "DataRequest \<Rightarrow> DataRequest result" where
  "add_xcons rv =
     (if length (Interfaces rv) < 2 then
        Inl (Errorf ''Did not create enough interfaces to cross connect, expected at least 2, got %d'')
      else
        (let ifaces = drop (length (Interfaces rv) - 2) (Interfaces rv);
             a = IF_Name (ifaces ! 0); b = IF_Name (ifaces ! 1)
         in Inr (rv\<lparr>XCons := XCons rv @
              [\<lparr>ReceiveInterface = a, TransmitInterface = b\<rparr>, \<lparr>ReceiveInterface = b, TransmitInterface = a\<rparr>]\<rparr>)))"

definition CrossConnect_ToDataRequest ::
    "host_env \<Rightarrow> string \<Rightarrow> CrossConnect option \<Rightarrow> DataRequest option \<Rightarrow> bool \<Rightarrow> DataRequest result \<times> string list" where
  "CrossConnect_ToDataRequest env baseDir c rv0 connect =
     (case CrossConnect_IsComplete c of
        Some e \<Rightarrow> (Inl e, [])
      | None \<Rightarrow>
          (case convert_end env baseDir (''SRC-'' @ XC_GetId c) SOURCE (GetSource c) (request_or_new rv0) connect of
             (Inl e, made) \<Rightarrow> (Inl e, made)
           | (Inr rv1, made) \<Rightarrow>
               (case convert_end env baseDir (''DST-'' @ XC_GetId c) DESTINATION (GetDestination c) rv1 connect of
                  (Inl e, made') \<Rightarrow> (Inl e, made @ made')
                | (Inr rv2, made') \<Rightarrow> (add_xcons rv2, made @ made'))))"

end
