(* ===== verification/Acl.thy ===== *)
theory Acl
  imports Converter
begin

text \<open>
  The access list converter (\<open>dataplane/vppagent/pkg/converter/acl_converter.go\<close>):
  rules written as key-value lists become one access list of the dataplane. The table
  of action names is generated code of a third-party package and an argument.
\<close>

subsection \<open>Rules\<close>

record aclConverter =
  acl_Name :: string
  Rules :: "(string, string) gomap"
  IngressInterface :: string

text \<open>\<open>strings.ToUpper\<close> of ASCII text.\<close>

definition to_upper :: "char \<Rightarrow> char" where
  "to_upper c = (let n = of_char c :: nat in if 97 \<le> n \<and> n \<le> 122 then char_of (n - 32) else c)"

definition getAction :: "(string, int) gomap \<Rightarrow> (string, string) gomap \<Rightarrow> int result" where
  "getAction AclAction_value parsed =
     (case map_of parsed ''action'' of
        None \<Rightarrow> Inl (Errorf ''Rule should have 'action' set.'')
      | Some action_name \<Rightarrow>
          (case map_of AclAction_value (map to_upper action_name) of
             None \<Rightarrow> Inl (Errorf ''Rule should have a valid 'action'.'')
           | Some action \<Rightarrow> Inr action))"

definition or_empty :: "string option \<Rightarrow> string" where
  "or_empty s = (case s of None \<Rightarrow> '''' | Some v \<Rightarrow> v)"

definition bad_net :: "string option \<Rightarrow> bool" where
  "bad_net s = (case s of None \<Rightarrow> False | Some v \<Rightarrow> isl (ParseCIDR v))"

definition getIp :: "(string, string) gomap \<Rightarrow> AclIp option result" where
  "getIp parsed =
     (let dstNet = map_of parsed ''dstnet''; srcNet = map_of parsed ''srcnet'' in
      if bad_net dstNet then Inl (Errorf ''dstnet is not a valid CIDR [%v]. Failed with: %v'')
      else if bad_net srcNet then Inl (Errorf ''srcnet is not a valid CIDR [%v]. Failed with: %v'')
      else if dstNet \<noteq> None \<or> srcNet \<noteq> None then
        Inr (Some \<lparr>DestinationNetwork = or_empty dstNet, SourceNetwork = or_empty srcNet\<rparr>)
      else Inr None)"

definition getIcmp :: "(string, string) gomap \<Rightarrow> AclIcmp option result" where
  "getIcmp parsed =
     (case map_of parsed ''icmptype'' of
        None \<Rightarrow> Inr None
      | Some icmpType \<Rightarrow>
          (case ParseUint icmpType 8 of
             Inl _ \<Rightarrow> Inl (Errorf ''Failed parsing icmptype [%v] with: %v'')
           | Inr n \<Rightarrow> Inr (Some \<lparr>Icmpv6 = False, IcmpCodeRange = (0, 65535), IcmpTypeRange = (of_nat n, of_nat n)\<rparr>)))"

text \<open>\<open>getPort\<close>: the port, whether the key was found, and the error.\<close>

definition getPort :: "string \<Rightarrow> (string, string) gomap \<Rightarrow> 16 word \<times> bool \<times> error option" where
  "getPort name parsed =
     (case map_of parsed name of
        None \<Rightarrow> (0, False, None)
      | Some port \<Rightarrow>
          (case ParseUint port 16 of
             Inl _ \<Rightarrow> (0, True, Some (Errorf ''Failed parsing %s [%v] with: %v''))
           | Inr n \<Rightarrow> (of_nat n, True, None)))"

definition any_port :: PortRange where
  "any_port = \<lparr>LowerPort = 0, UpperPort = 65535\<rparr>"

definition port_range :: "16 word \<Rightarrow> 16 word \<Rightarrow> PortRange" where
  "port_range lower upper = \<lparr>LowerPort = ucast lower, UpperPort = ucast upper\<rparr>"

text \<open>When the upper port is not readable, the code returns the error of the lower port, which is nil.\<close>

definition getTcp :: "(string, string) gomap \<Rightarrow> AclTcp option result" where
  "getTcp parsed =
     (case getPort ''tcplowport'' parsed of (lowerPort, lpFound, lpErr) \<Rightarrow>
        if \<not> lpFound then Inr None
        else (case lpErr of
          Some e \<Rightarrow> Inl e
        | None \<Rightarrow>
            (case getPort ''tcpupport'' parsed of (upperPort, upFound, upErr) \<Rightarrow>
               if \<not> upFound then Inr None
               else (case upErr of
                 Some _ \<Rightarrow> Inr None
               | None \<Rightarrow> Inr (Some \<lparr>Tcp_DestinationPortRange = port_range lowerPort upperPort,
                   Tcp_SourcePortRange = any_port, TcpFlagsMask = 0, TcpFlagsValue = 0\<rparr>)))))"

definition getUdp :: "(string, string) gomap \<Rightarrow> AclUdp option result" where
  "getUdp parsed =
     (case getPort ''udplowport'' parsed of (lowerPort, lpFound, lpErr) \<Rightarrow>
        if \<not> lpFound then Inr None
        else (case lpErr of
          Some e \<Rightarrow> Inl e
        | None \<Rightarrow>
            (case getPort ''udpupport'' parsed of (upperPort, upFound, upErr) \<Rightarrow>
               if \<not> upFound then Inr None
               else (case upErr of
                 Some _ \<Rightarrow> Inr None
               | None \<Rightarrow> Inr (Some \<lparr>Udp_DestinationPortRange = port_range lowerPort upperPort,
                   Udp_SourcePortRange = any_port\<rparr>)))))"

definition getIpRule :: "(string, string) gomap \<Rightarrow> IpRule result" where
  "getIpRule parsed =
     (case getIp parsed of Inl e \<Rightarrow> Inl e | Inr ip \<Rightarrow>
     (case getIcmp parsed of Inl e \<Rightarrow> Inl e | Inr icmp \<Rightarrow>
     (case getTcp parsed of Inl e \<Rightarrow> Inl e | Inr tcp \<Rightarrow>
     (case getUdp parsed of Inl e \<Rightarrow> Inl e | Inr udp \<Rightarrow>
        Inr \<lparr>Rule_Ip = ip, Rule_Icmp = icmp, Rule_Tcp = tcp, Rule_Udp = udp\<rparr>))))"

definition getMatch :: "(string, string) gomap \<Rightarrow> IpRule result" where
  "getMatch parsed = (case getIpRule parsed of Inl e \<Rightarrow> Inl e | Inr iprule \<Rightarrow> Inr iprule)"

definition convert_rule :: "(string, int) gomap \<Rightarrow> string \<Rightarrow> string \<Rightarrow> AclRule result" where
  "convert_rule AclAction_value name rule =
     (let parsed = ParseKVStringToMap rule '','' ''='' in
      case getAction AclAction_value parsed of Inl e \<Rightarrow> Inl e | Inr action \<Rightarrow>
     (case getMatch parsed of Inl e \<Rightarrow> Inl e | Inr m \<Rightarrow> Inr \<lparr>RuleName = name, AclAction = action, AclMatch = m\<rparr>))"

subsection \<open>The converter\<close>

definition acl_of :: "aclConverter \<Rightarrow> AclRule list \<Rightarrow> Acl" where
  "acl_of c rules = \<lparr>AclName = acl_Name c, AclRules = rules, Egress = [], Ingress = [IngressInterface c]\<rparr>"

text \<open>The loop appends an access list with the rules so far in every round.\<close>

fun rules_loop :: "(string, int) gomap \<Rightarrow> aclConverter \<Rightarrow> (string \<times> string) list \<Rightarrow> AclRule list \<Rightarrow> DataRequest \<Rightarrow>
    DataRequest result" where
  "rules_loop AclAction_value c [] rules rv = Inr rv"
| "rules_loop AclAction_value c ((name, rule) # rs) rules rv =
     (case convert_rule AclAction_value name rule of
        Inl e \<Rightarrow> Inl e
      | Inr r \<Rightarrow> rules_loop AclAction_value c rs (rules @ [r])
                   (rv\<lparr>AccessLists := AccessLists rv @ [acl_of c (rules @ [r])]\<rparr>))"

definition Acl_ToDataRequest :: "(string, int) gomap \<Rightarrow> ((string \<times> string) list \<Rightarrow> (string \<times> string) list) \<Rightarrow>
    aclConverter \<Rightarrow> DataRequest option \<Rightarrow> DataRequest result" where
  "Acl_ToDataRequest AclAction_value ord c rv = rules_loop AclAction_value c (ord (Rules c)) [] (request_or_new rv)"

subsection \<open>Rules as values\<close>

text \<open>A rule before it is written down: an action, networks, an ICMP type and port ranges.\<close>

record rule_spec =
  rs_action :: string
  rs_dst :: "string option"
  rs_src :: "string option"
  rs_icmp :: "nat option"
  rs_tcp :: "(nat \<times> nat) option"
  rs_udp :: "(nat \<times> nat) option"

definition opt_kv :: "string \<Rightarrow> string option \<Rightarrow> (string, string) gomap" where
  "opt_kv k v = (case v of None \<Rightarrow> [] | Some x \<Rightarrow> [(k, x)])"

definition ports_kv :: "string \<Rightarrow> string \<Rightarrow> (nat \<times> nat) option \<Rightarrow> (string, string) gomap" where
  "ports_kv lo up r = (case r of None \<Rightarrow> [] | Some (a, b) \<Rightarrow> [(lo, FormatUint 10 a), (up, FormatUint 10 b)])"

definition rule_kv :: "rule_spec \<Rightarrow> (string, string) gomap" where
  "rule_kv r = (''action'', rs_action r) # opt_kv ''dstnet'' (rs_dst r) @ opt_kv ''srcnet'' (rs_src r) @
     opt_kv ''icmptype'' (map_option (FormatUint 10) (rs_icmp r)) @
     ports_kv ''tcplowport'' ''tcpupport'' (rs_tcp r) @ ports_kv ''udplowport'' ''udpupport'' (rs_udp r)"

definition rule_text :: "rule_spec \<Rightarrow> string" where
  "rule_text r = format_kv CHR '','' CHR ''='' (rule_kv r)"

definition net_ok :: "string option \<Rightarrow> bool" where
  "net_ok s = (case s of None \<Rightarrow> True | Some n \<Rightarrow> plain '',='' n \<and> \<not> isl (ParseCIDR n))"

definition ports_ok :: "(nat \<times> nat) option \<Rightarrow> bool" where
  "ports_ok r = (case r of None \<Rightarrow> True | Some (a, b) \<Rightarrow> a < 2 ^ 16 \<and> b < 2 ^ 16)"

definition rule_ok :: "(string, int) gomap \<Rightarrow> rule_spec \<Rightarrow> bool" where
  "rule_ok actions r \<longleftrightarrow> map_of actions (map to_upper (rs_action r)) \<noteq> None \<and> plain '',='' (rs_action r) \<and>
     net_ok (rs_dst r) \<and> net_ok (rs_src r) \<and> (case rs_icmp r of None \<Rightarrow> True | Some t \<Rightarrow> t < 2 ^ 8) \<and>
     ports_ok (rs_tcp r) \<and> ports_ok (rs_udp r)"

definition range_of :: "nat \<times> nat \<Rightarrow> PortRange" where
  "range_of r = \<lparr>LowerPort = of_nat (fst r), UpperPort = of_nat (snd r)\<rparr>"

definition meant :: "(string, int) gomap \<Rightarrow> string \<Rightarrow> rule_spec \<Rightarrow> AclRule" where
  "meant actions name r = \<lparr>RuleName = name, AclAction = the (map_of actions (map to_upper (rs_action r))),
     AclMatch = \<lparr>Rule_Ip = (if rs_dst r = None \<and> rs_src r = None then None
         else Some \<lparr>DestinationNetwork = or_empty (rs_dst r), SourceNetwork = or_empty (rs_src r)\<rparr>),
       Rule_Icmp = map_option (\<lambda>t. \<lparr>Icmpv6 = False, IcmpCodeRange = (0, 65535), IcmpTypeRange = (of_nat t, of_nat t)\<rparr>) (rs_icmp r),
       Rule_Tcp = map_option (\<lambda>p. \<lparr>Tcp_DestinationPortRange = range_of p, Tcp_SourcePortRange = any_port,
         TcpFlagsMask = 0, TcpFlagsValue = 0\<rparr>) (rs_tcp r),
       Rule_Udp = map_option (\<lambda>p. \<lparr>Udp_DestinationPortRange = range_of p, Udp_SourcePortRange = any_port\<rparr>) (rs_udp r)\<rparr>\<rparr>"

subsection \<open>Reading rules back\<close>

lemma foldl_FormatUint: "foldl (\<lambda>n c. n * 10 + dec_val c) 0 (FormatUint 10 n) = n"
proof (induction n rule: less_induct)
  case (less n)
  then show ?case by (cases "n < 10") (simp_all add: FormatUint_small FormatUint_step)
qed

lemma ParseUint_FormatUint: "n < 2 ^ bits \<Longrightarrow> ParseUint (FormatUint 10 n) bits = Inr n"
  using is_dec_digit_set by (auto simp: ParseUint_def foldl_FormatUint list_all_iff)

lemma plain_FormatUint: "plain '',='' (FormatUint 10 n)"
proof -
  have dec: "is_dec c" if "c \<in> set (FormatUint 10 n)" for c using that by (rule is_dec_digit_set)
  have "\<not> is_dec CHR '' ''" "\<not> is_dec CHR '',''" "\<not> is_dec CHR ''=''" by (simp_all add: is_dec_def)
  moreover have "is_dec (hd (FormatUint 10 n))" "is_dec (last (FormatUint 10 n))" by (rule dec, simp)+
  ultimately have "hd (FormatUint 10 n) \<noteq> CHR '' ''" "last (FormatUint 10 n) \<noteq> CHR '' ''"
    "CHR '','' \<notin> set (FormatUint 10 n)" "CHR ''='' \<notin> set (FormatUint 10 n)" using dec by metis+
  then show ?thesis by (simp add: plain_def)
qed

lemma parse_rule:
  assumes "rule_ok actions r"
  shows "ParseKVStringToMap (rule_text r) '','' ''='' = rule_kv r"
proof -
  have "gomap_ok (rule_kv r)"
    by (auto simp: gomap_ok_def rule_kv_def opt_kv_def ports_kv_def split: option.splits)
  moreover have "\<forall>(k, v) \<in> set (rule_kv r). plain '',='' k \<and> plain '',='' v"
  proof -
    have "plain '',='' k" if "(k, v) \<in> set (rule_kv r)" for k v
      using that by (auto simp: rule_kv_def opt_kv_def ports_kv_def plain_def split: option.splits)
    moreover have "plain '',='' v" if "(k, v) \<in> set (rule_kv r)" for k v
      using that assms plain_FormatUint
      by (auto simp: rule_kv_def opt_kv_def ports_kv_def rule_ok_def net_ok_def split: option.splits)
    ultimately show ?thesis by blast
  qed
  ultimately show ?thesis unfolding rule_text_def by (intro parse_format_kv) (auto simp: rule_kv_def)
qed

lemma rule_kv_lookup:
  "map_of (rule_kv r) ''action'' = Some (rs_action r)"
  "map_of (rule_kv r) ''dstnet'' = rs_dst r"
  "map_of (rule_kv r) ''srcnet'' = rs_src r"
  "map_of (rule_kv r) ''icmptype'' = map_option (FormatUint 10) (rs_icmp r)"
  "map_of (rule_kv r) ''tcplowport'' = map_option (\<lambda>p. FormatUint 10 (fst p)) (rs_tcp r)"
  "map_of (rule_kv r) ''tcpupport'' = map_option (\<lambda>p. FormatUint 10 (snd p)) (rs_tcp r)"
  "map_of (rule_kv r) ''udplowport'' = map_option (\<lambda>p. FormatUint 10 (fst p)) (rs_udp r)"
  "map_of (rule_kv r) ''udpupport'' = map_option (\<lambda>p. FormatUint 10 (snd p)) (rs_udp r)"
  by (auto simp: rule_kv_def opt_kv_def ports_kv_def split: option.splits)

lemma getAction_kv: "rule_ok actions r \<Longrightarrow> getAction actions (rule_kv r) = Inr (AclAction (meant actions n r))"
  by (auto simp: getAction_def rule_kv_lookup meant_def rule_ok_def)

lemma getIp_kv: "rule_ok actions r \<Longrightarrow> getIp (rule_kv r) = Inr (Rule_Ip (AclMatch (meant actions n r)))"
  by (auto simp: getIp_def rule_kv_lookup meant_def rule_ok_def net_ok_def bad_net_def split: option.splits)

lemma getIcmp_kv: "rule_ok actions r \<Longrightarrow> getIcmp (rule_kv r) = Inr (Rule_Icmp (AclMatch (meant actions n r)))"
  by (auto simp: getIcmp_def rule_kv_lookup meant_def rule_ok_def ParseUint_FormatUint split: option.splits)

lemma port_range_of: "a < 2 ^ 16 \<Longrightarrow> b < 2 ^ 16 \<Longrightarrow> port_range (of_nat a) (of_nat b) = range_of (a, b)"
  by (simp add: port_range_def range_of_def unsigned_of_nat take_bit_nat_eq_self)

lemma getTcp_kv: "rule_ok actions r \<Longrightarrow> getTcp (rule_kv r) = Inr (Rule_Tcp (AclMatch (meant actions n r)))"
  by (cases "rs_tcp r") (auto simp: getTcp_def getPort_def rule_kv_lookup meant_def rule_ok_def ports_ok_def
      ParseUint_FormatUint port_range_of)

lemma getUdp_kv: "rule_ok actions r \<Longrightarrow> getUdp (rule_kv r) = Inr (Rule_Udp (AclMatch (meant actions n r)))"
  by (cases "rs_udp r") (auto simp: getUdp_def getPort_def rule_kv_lookup meant_def rule_ok_def ports_ok_def
      ParseUint_FormatUint port_range_of)

lemma convert_rule_text:
  assumes "rule_ok actions r"
  shows "convert_rule actions n (rule_text r) = Inr (meant actions n r)"
  using assms
  by (simp add: convert_rule_def parse_rule getAction_kv [of _ _ n] getMatch_def getIpRule_def getIp_kv [of actions _ n]
      getIcmp_kv [of actions _ n] getTcp_kv [of actions _ n] getUdp_kv [of actions _ n])
    (simp add: meant_def)

lemma rules_loop_lists:
  assumes "\<forall>(n, t) \<in> set rs. convert_rule actions n t = Inr (f n t)"
  shows "\<exists>rv'. rules_loop actions c rs rules rv = Inr rv' \<and>
    AccessLists rv' = AccessLists rv @
      map (\<lambda>k. acl_of c (rules @ take (Suc k) (map (\<lambda>(n, t). f n t) rs))) [0..<length rs]"
  using assms
proof (induction rs arbitrary: rules rv)
  case (Cons nt rs)
  obtain n t where nt: "nt = (n, t)" by force
  let ?rv = "rv\<lparr>AccessLists := AccessLists rv @ [acl_of c (rules @ [f n t])]\<rparr>"
  have "\<forall>(n, t) \<in> set rs. convert_rule actions n t = Inr (f n t)" using Cons.prems by auto
  from Cons.IH [OF this, of "rules @ [f n t]" ?rv] obtain rv' where
      "rules_loop actions c rs (rules @ [f n t]) ?rv = Inr rv'"
      "AccessLists rv' = AccessLists ?rv @
        map (\<lambda>k. acl_of c ((rules @ [f n t]) @ take (Suc k) (map (\<lambda>(n, t). f n t) rs))) [0..<length rs]" by blast
  moreover have "[0..<length (nt # rs)] = 0 # map Suc [0..<length rs]" by (simp add: map_Suc_upt upt_conv_Cons del: upt_Suc)
  ultimately show ?case using Cons.prems nt by (auto simp: o_def)
qed simp

lemma acl_rules_lists:
  assumes "is_order ord" "Rules c = map (\<lambda>(n, r). (n, rule_text r)) rs" "\<forall>(n, r) \<in> set rs. rule_ok actions r"
  shows "\<exists>rv' rules. Acl_ToDataRequest actions ord c rv = Inr rv' \<and>
    mset rules = mset (map (\<lambda>(n, r). meant actions n r) rs) \<and>
    AccessLists rv' = AccessLists (request_or_new rv) @ map (\<lambda>k. acl_of c (take (Suc k) rules)) [0..<length rules]"
proof -
  let ?f = "\<lambda>n t. projr (convert_rule actions n t)"
  have "\<forall>(n, t) \<in> set (ord (Rules c)). convert_rule actions n t = Inr (?f n t)"
    using assms by (auto simp: is_order_set [OF assms(1)] convert_rule_text)
  from rules_loop_lists [OF this, of c "[]" "request_or_new rv"] obtain rv' where
    "Acl_ToDataRequest actions ord c rv = Inr rv'" "AccessLists rv' = AccessLists (request_or_new rv) @
      map (\<lambda>k. acl_of c (take (Suc k) (map (\<lambda>(n, t). ?f n t) (ord (Rules c))))) [0..<length (ord (Rules c))]"
    by (auto simp: Acl_ToDataRequest_def)
  moreover have "mset (map (\<lambda>(n, t). ?f n t) (ord (Rules c))) = mset (map (\<lambda>(n, t). ?f n t) (Rules c))"
    by (simp add: is_order_mset [OF assms(1)])
  moreover have "map (\<lambda>(n, t). ?f n t) (Rules c) = map (\<lambda>(n, r). meant actions n r) rs"
    using assms(2,3) by (auto simp: convert_rule_text)
  ultimately show ?thesis
    by (intro exI [of _ rv'] exI [of _ "map (\<lambda>(n, t). ?f n t) (ord (Rules c))"]) simp
qed

text \<open>
  C31: Access rules are converted as they are meant. Written-down rules with a known
  action, valid networks, an 8-bit ICMP type and 16-bit port ranges are converted in
  whatever order the rules are visited. The last of the access lists that are added is
  bound to the ingress interface and holds exactly one rule for each given rule, under its
  name, with its action, networks, ICMP type and port ranges; the lists added before
  it hold the first one, two, and so on, of these rules.
\<close>

theorem acl_rules_converted:
  assumes "is_order ord" "Rules c = map (\<lambda>(n, r). (n, rule_text r)) rs" "\<forall>(n, r) \<in> set rs. rule_ok actions r"
  shows "\<exists>rv' rules. Acl_ToDataRequest actions ord c rv = Inr rv' \<and>
    mset rules = mset (map (\<lambda>(n, r). meant actions n r) rs) \<and>
    AccessLists rv' = AccessLists (request_or_new rv) @ map (\<lambda>k. acl_of c (take (Suc k) rules)) [0..<length rules]"
  using assms by (rule acl_rules_lists)

definition ex_actions :: "(string, int) gomap" where
  "ex_actions = [(''DENY'', 0), (''PERMIT'', 1), (''REFLECT'', 2)]"

definition ex_rule :: rule_spec where
  "ex_rule = \<lparr>rs_action = ''permit'', rs_dst = None, rs_src = None, rs_icmp = None, rs_tcp = Some (80, 8080), rs_udp = None\<rparr>"

lemma ex_upper: "to_upper CHR ''p'' = CHR ''P''" "to_upper CHR ''e'' = CHR ''E''" "to_upper CHR ''r'' = CHR ''R''"
    "to_upper CHR ''m'' = CHR ''M''" "to_upper CHR ''i'' = CHR ''I''" "to_upper CHR ''t'' = CHR ''T''"
  by code_simp+

theorem acl_rules_converted_witness:
  "\<exists>rv'. Acl_ToDataRequest ex_actions rev \<lparr>acl_Name = ''web'', Rules = [(''Allow web'', rule_text ex_rule)],
     IngressInterface = ''if0''\<rparr> None = Inr rv' \<and> length (AccessLists rv') = 1"
proof -
  let ?c = "\<lparr>acl_Name = ''web'', Rules = [(''Allow web'', rule_text ex_rule)], IngressInterface = ''if0''\<rparr>"
  have "rule_ok ex_actions ex_rule"
    by (simp add: rule_ok_def ex_rule_def ex_actions_def plain_def net_ok_def ports_ok_def ex_upper)
  then have "\<forall>(n, r) \<in> set [(''Allow web'', ex_rule)]. rule_ok ex_actions r" by simp
  with acl_rules_converted [OF is_order_rev, of ?c "[(''Allow web'', ex_rule)]" ex_actions None]
  show ?thesis by (auto simp: request_or_new_def empty_request_def dest!: mset_eq_length)
qed

text \<open>
  A port range whose upper end cannot be read is dropped without an error: the rule
  then matches every port.
\<close>

lemma unreadable_range_dropped:
  "convert_rule ex_actions ''Allow web'' ''action=permit,tcplowport=80,tcpupport=8o80'' =
     Inr \<lparr>RuleName = ''Allow web'', AclAction = 1,
       AclMatch = \<lparr>Rule_Ip = None, Rule_Icmp = None, Rule_Tcp = None, Rule_Udp = None\<rparr>\<rparr>"
  by (simp add: convert_rule_def ParseKVStringToMap_def Split_def parseKV_def Trim_def trim_by_def getAction_def ex_actions_def
      ex_upper getMatch_def getIpRule_def getIp_def bad_net_def getIcmp_def getTcp_def getUdp_def getPort_def
      ParseUint_def is_dec_def dec_val_def of_char_def Let_def)

end
