(* ===== verification/ConverterProps.thy ===== *)
theory ConverterProps
  imports Converter Vni
begin

text \<open>
  What the dataplane is configured to do for a cross connect: the two ends become
  two interfaces connected to each other, names fit the limits of Linux, and the
  two dataplanes at the ends of a link build matching interfaces.
\<close>

subsection \<open>Conversion of one end\<close>

text \<open>The part of a conversion that can fail: namespaces, directories, mechanisms.\<close>

definition convertible :: "host_env \<Rightarrow> string \<Rightarrow> ConnectionContextSide \<Rightarrow> bool \<Rightarrow> NSMConnection \<Rightarrow> bool" where
  "convertible env dir side connect conn =
     (case conn of
        Local c \<Rightarrow>
          if IsKernelInterface (L_Mechanism c) then connect \<longrightarrow> (\<exists>f. NetNsFileName env (L_Mechanism c) = Inr f)
          else IsMemif (L_Mechanism c) \<and>
            (side = SOURCE \<longrightarrow> e_MkdirAll env (path_Dir (path_Join
               [path_Join [dir, GetWorkspace (L_Mechanism c)], GetSocketFilename (L_Mechanism c)])) = None)
      | Remote c \<Rightarrow> (\<exists>m. R_Mechanism c = Some m \<and> RM_Type m = VXLAN))"

definition extends_by :: "string \<Rightarrow> DataRequest \<Rightarrow> DataRequest \<Rightarrow> bool" where
  "extends_by name rv rv' \<longleftrightarrow>
     (\<exists>i. Interfaces rv' = Interfaces rv @ [i] \<and> IF_Name i = name) \<and> XCons rv' = XCons rv"

lemma add_tap_extends: "extends_by name rv (add_tap name m ips f t rv)"
  and add_veth_extends: "extends_by name rv (add_veth name m ips f t rv)"
  by (simp_all add: extends_by_def add_tap_def add_veth_def)

lemma routes_extend [simp]:
  "extends_by name rv (add_linux_routes n f ctx rv') = extends_by name rv rv'"
  "extends_by name rv (add_arp_entries n f ctx rv') = extends_by name rv rv'"
  "extends_by name rv (add_static_routes n ctx0 rv') = extends_by name rv rv'"
  by (simp_all add: extends_by_def add_linux_routes_def add_arp_entries_def add_static_routes_def split: option.splits)

lemma request_or_new_Some [simp]: "request_or_new (Some rv) = rv"
  by (simp add: request_or_new_def)

lemma complete_context:
  "LocalConnection_IsComplete (Some c) = None \<Longrightarrow> \<exists>ctx. L_Context c = Some ctx"
  by (auto simp: LocalConnection_IsComplete_def Context_IsComplete_def split: option.splits if_splits)

lemma kernel_converts:
  assumes "LocalConnection_IsComplete (Some c) = None" "IsKernelInterface (L_Mechanism c)" "16 \<le> length (e_xid env (Side p))"
  shows "if connect \<longrightarrow> (\<exists>f. NetNsFileName env (L_Mechanism c) = Inr f)
    then \<exists>rv'. Kernel_ToDataRequest env (Some c) p (Some rv) connect = Inr rv' \<and> extends_by (P_Name p) rv rv'
    else \<exists>e. Kernel_ToDataRequest env (Some c) p (Some rv) connect = Inl e"
  using complete_context [OF assms(1)] assms
  by (auto simp: Kernel_ToDataRequest_def TempIfName_def Let_def add_tap_extends add_veth_extends split: sum.splits bool.splits)

lemma memif_converts:
  assumes "IsMemif (L_Mechanism c)" "P_Name p \<noteq> ''''" "\<not> Terminate p" "Side p \<noteq> NEITHER"
  shows "if Side p = SOURCE \<longrightarrow> e_MkdirAll env (path_Dir (memif_socket (Some c) p)) = None
    then \<exists>rv' made. Memif_ToDataRequest env (Some c) p (Some rv) = (Inr rv', made) \<and> extends_by (P_Name p) rv rv'
    else \<exists>e made. Memif_ToDataRequest env (Some c) p (Some rv) = (Inl e, made)"
  using assms
  by (cases "Side p")
    (auto simp: Memif_ToDataRequest_def isMaster_def memif_addresses_def extends_by_def add_static_routes_def Let_def
      split: option.splits)

lemma remote_converts:
  assumes "RemoteConnection_IsComplete (Some c) = None"
  shows "if \<exists>m. R_Mechanism c = Some m \<and> RM_Type m = VXLAN
    then \<exists>rv'. Remote_ToDataRequest (Some c) name side (Some rv) = Inr rv' \<and> extends_by name rv rv'
    else \<exists>e. Remote_ToDataRequest (Some c) name side (Some rv) = Inl e"
  using assms by (auto simp: Remote_ToDataRequest_def extends_by_def Let_def split: option.splits)

lemma end_converts:
  assumes "NSMConnection_IsComplete conn = None" "16 \<le> length (e_xid env side)" "name \<noteq> ''''" "side \<noteq> NEITHER"
  shows "if convertible env dir side connect conn
    then \<exists>rv' made. convert_end env dir name side (Some conn) rv connect = (Inr rv', made) \<and> extends_by name rv rv'
    else \<exists>e made. convert_end env dir name side (Some conn) rv connect = (Inl e, made)"
proof (cases conn)
  case (Remote c)
  with assms remote_converts [of c name side rv] show ?thesis
    by (auto simp: convertible_def convert_end_def split: if_splits)
next
  case (Local c)
  let ?p = "\<lparr>Terminate = False, Side = side, P_Name = name, BaseDir = path_Join [dir, GetWorkspace (L_Mechanism c)]\<rparr>"
  have complete: "LocalConnection_IsComplete (Some c) = None" using assms(1) Local by simp
  have "\<not> IsMemif (L_Mechanism c)" if "IsKernelInterface (L_Mechanism c)"
    using that by (auto simp: IsMemif_def IsKernelInterface_def split: option.splits)
  with Local kernel_converts [OF complete, of env ?p connect rv] memif_converts [of c ?p env rv] assms
  show ?thesis
    by (auto simp: convertible_def convert_end_def Local_ToDataRequest_def memif_socket_def Let_def split: if_splits prod.splits sum.splits)
qed

subsection \<open>Cross connects\<close>

definition complete_xcon :: "CrossConnect \<Rightarrow> bool" where
  "complete_xcon x \<longleftrightarrow> CrossConnect_IsComplete (Some x) = None"

lemma complete_ends:
  assumes "complete_xcon x"
  obtains src dst where "X_Source x = Some src" "X_Destination x = Some dst"
    "NSMConnection_IsComplete src = None" "NSMConnection_IsComplete dst = None"
proof -
  have "\<exists>src dst. X_Source x = Some src \<and> X_Destination x = Some dst"
    using assms by (auto simp: complete_xcon_def CrossConnect_IsComplete_def CrossConnect_IsValid_def
      GetSource_def GetDestination_def split: option.splits if_splits)
  then obtain src dst where e: "X_Source x = Some src" "X_Destination x = Some dst" by blast
  moreover have "NSMConnection_IsComplete src = None"
    using assms e by (cases src) (auto simp: complete_xcon_def CrossConnect_IsComplete_def GetLocalSource_def
      GetRemoteSource_def GetSource_def split: option.splits if_splits)
  moreover have "NSMConnection_IsComplete dst = None"
    using assms e by (cases dst) (auto simp: complete_xcon_def CrossConnect_IsComplete_def GetLocalDestination_def
      GetRemoteDestination_def GetDestination_def split: option.splits if_splits)
  ultimately show ?thesis using that by blast
qed

definition both_convertible :: "host_env \<Rightarrow> string \<Rightarrow> bool \<Rightarrow> CrossConnect \<Rightarrow> bool" where
  "both_convertible env dir connect x \<longleftrightarrow>
     (\<exists>src dst. X_Source x = Some src \<and> X_Destination x = Some dst \<and>
        convertible env dir SOURCE connect src \<and> convertible env dir DESTINATION connect dst)"

text \<open>The request is the given one with two interfaces and the two directions between them.\<close>

definition wired :: "string \<Rightarrow> DataRequest \<Rightarrow> DataRequest \<Rightarrow> bool" where
  "wired xid rv rv' \<longleftrightarrow>
     (\<exists>i j. Interfaces rv' = Interfaces rv @ [i, j] \<and> IF_Name i = ''SRC-'' @ xid \<and> IF_Name j = ''DST-'' @ xid) \<and>
     XCons rv' = XCons rv @ [\<lparr>ReceiveInterface = ''SRC-'' @ xid, TransmitInterface = ''DST-'' @ xid\<rparr>,
                             \<lparr>ReceiveInterface = ''DST-'' @ xid, TransmitInterface = ''SRC-'' @ xid\<rparr>]"

lemma two_ends_wired:
  assumes "extends_by (''SRC-'' @ xid) rv rv1" "extends_by (''DST-'' @ xid) rv1 rv2"
  shows "\<exists>rv3. add_xcons rv2 = Inr rv3 \<and> wired xid rv rv3"
  using assms by (auto simp: extends_by_def add_xcons_def wired_def Let_def nth_append)

lemma xcon_getters: "XC_GetId (Some x) = X_Id x" "GetSource (Some x) = X_Source x" "GetDestination (Some x) = X_Destination x"
  by (simp_all add: XC_GetId_def GetSource_def GetDestination_def)

lemma converts:
  assumes "\<forall>side. 16 \<le> length (e_xid env side)" "complete_xcon x" "both_convertible env dir connect x"
  obtains rv' made where "CrossConnect_ToDataRequest env dir (Some x) rv connect = (Inr rv', made)" "wired (X_Id x) (request_or_new rv) rv'"
proof -
  obtain src dst where e: "X_Source x = Some src" "X_Destination x = Some dst"
      "NSMConnection_IsComplete src = None" "NSMConnection_IsComplete dst = None"
    using assms(2) by (rule complete_ends)
  have c: "convertible env dir SOURCE connect src" "convertible env dir DESTINATION connect dst"
    using assms(3) e by (simp_all add: both_convertible_def)
  have len: "16 \<le> length (e_xid env s)" for s using assms(1) by simp
  obtain rv1 m1 where 1: "convert_end env dir (''SRC-'' @ X_Id x) SOURCE (Some src) (request_or_new rv) connect = (Inr rv1, m1)"
      "extends_by (''SRC-'' @ X_Id x) (request_or_new rv) rv1"
    using end_converts [OF e(3) len, where side = SOURCE and name = "''SRC-'' @ X_Id x" and dir = dir and connect = connect
        and rv = "request_or_new rv"] c(1) by auto
  obtain rv2 m2 where 2: "convert_end env dir (''DST-'' @ X_Id x) DESTINATION (Some dst) rv1 connect = (Inr rv2, m2)"
      "extends_by (''DST-'' @ X_Id x) rv1 rv2"
    using end_converts [OF e(4) len, where side = DESTINATION and name = "''DST-'' @ X_Id x" and dir = dir and connect = connect
        and rv = rv1] c(2) by auto
  obtain rv3 where 3: "add_xcons rv2 = Inr rv3" "wired (X_Id x) (request_or_new rv) rv3" using two_ends_wired [OF 1(2) 2(2)] by blast
  have "CrossConnect_ToDataRequest env dir (Some x) rv connect = (Inr rv3, m1 @ m2)"
    using 1(1) 2(1) 3(1) assms(2) e(1,2)
    unfolding CrossConnect_ToDataRequest_def complete_xcon_def xcon_getters by simp
  then show ?thesis using that 3(2) by blast
qed

lemma not_converts:
  assumes "\<forall>side. 16 \<le> length (e_xid env side)" "complete_xcon x" "\<not> both_convertible env dir connect x"
  shows "\<exists>e made. CrossConnect_ToDataRequest env dir (Some x) rv connect = (Inl e, made)"
proof -
  obtain src dst where e: "X_Source x = Some src" "X_Destination x = Some dst"
      "NSMConnection_IsComplete src = None" "NSMConnection_IsComplete dst = None"
    using assms(2) by (rule complete_ends)
  let ?src = "convert_end env dir (''SRC-'' @ X_Id x) SOURCE (X_Source x) (request_or_new rv) connect"
  have len: "16 \<le> length (e_xid env s)" for s using assms(1) by simp
  have run: "CrossConnect_ToDataRequest env dir (Some x) rv connect =
      (case ?src of (Inl e, made) \<Rightarrow> (Inl e, made)
       | (Inr rv1, made) \<Rightarrow> (case convert_end env dir (''DST-'' @ X_Id x) DESTINATION (X_Destination x) rv1 connect of
             (Inl e, made') \<Rightarrow> (Inl e, made @ made') | (Inr rv2, made') \<Rightarrow> (add_xcons rv2, made @ made')))"
    using assms(2) unfolding CrossConnect_ToDataRequest_def complete_xcon_def xcon_getters by simp
  have "\<not> convertible env dir SOURCE connect src \<or> \<not> convertible env dir DESTINATION connect dst"
    using assms(3) e by (simp add: both_convertible_def)
  then show ?thesis
  proof
    assume "\<not> convertible env dir SOURCE connect src"
    then show ?thesis
      using end_converts [OF e(3) len, of "''SRC-'' @ X_Id x" SOURCE dir connect "request_or_new rv"] e(1) run by auto
  next
    assume d: "\<not> convertible env dir DESTINATION connect dst"
    show ?thesis
    proof (cases "fst ?src")
      case (Inl e)
      then show ?thesis using run by (cases ?src) auto
    next
      case (Inr rv1)
      then show ?thesis
        using end_converts [OF e(4) len, of "''DST-'' @ X_Id x" DESTINATION dir connect rv1] e(2) run d by (cases ?src) auto
    qed
  qed
qed

text \<open>
  C24: A cross connect is converted exactly if it is complete and both ends can be
  set up: kernel interfaces whose network namespace is found (when connecting),
  memory interfaces whose socket directory can be made, VXLAN tunnels. The request
  it is added to then has one interface more for each end, and exactly these two are
  connected, in both directions. Identifiers of interfaces have at least 16 characters.
\<close>

theorem cross_connect_wired:
  assumes "\<forall>side. 16 \<le> length (e_xid env side)"
  shows "case fst (CrossConnect_ToDataRequest env dir (Some x) rv connect) of
      Inr rv' \<Rightarrow> complete_xcon x \<and> both_convertible env dir connect x \<and> wired (X_Id x) (request_or_new rv) rv'
    | Inl _ \<Rightarrow> \<not> (complete_xcon x \<and> both_convertible env dir connect x)"
proof -
  consider "\<not> complete_xcon x" | "complete_xcon x" "\<not> both_convertible env dir connect x"
    | "complete_xcon x" "both_convertible env dir connect x" by blast
  then show ?thesis
  proof cases
    case 1
    then show ?thesis by (auto simp: CrossConnect_ToDataRequest_def complete_xcon_def split: option.splits)
  next
    case 2
    then show ?thesis using not_converts [OF assms 2, of rv] by auto
  next
    case 3
    obtain rv' made where "CrossConnect_ToDataRequest env dir (Some x) rv connect = (Inr rv', made)"
      "wired (X_Id x) (request_or_new rv) rv'" using assms 3 by (rule converts)
    then show ?thesis using 3 by simp
  qed
qed

definition ex_host :: host_env where
  "ex_host = \<lparr>e_Proc = Inr [''self'', ''17'', ''42''],
     e_GetInode = (\<lambda>f. if f = ''/proc/42/ns/net'' then Inr 42 else Inr 1),
     e_GetCmdline = (\<lambda>_. Inr ''/pause''), e_xid = (\<lambda>_. ''9m4e2mr0ui3e8a215n4g''),
     e_vhost = True, e_MkdirAll = (\<lambda>_. None)\<rparr>"

definition ex_kernel :: LocalConnection where
  "ex_kernel = \<lparr>L_Id = ''1'', L_NetworkService = ''vpn'', L_Mechanism = Some \<lparr>LM_Type = KERNEL_INTERFACE,
     LM_Parameters = Some [(NetNsInodeKey, ''42''), (InterfaceNameKey, ''nsm0'')]\<rparr>,
     L_Context = Some (empty_context\<lparr>SrcIpAddr := ''10.20.1.1/30'', DstIpAddr := ''10.20.1.2/30''\<rparr>), L_Labels = [], L_State = UP\<rparr>"

definition ex_tunnel :: RemoteConnection where
  "ex_tunnel = \<lparr>R_Id = ''2'', R_NetworkService = ''vpn'', R_Mechanism = Some \<lparr>RM_Type = VXLAN,
     RM_Parameters = Some [(VXLANSrcIP, ''10.0.0.1''), (VXLANDstIP, ''10.0.0.2''), (VXLANVNI, ''3'')]\<rparr>,
     R_Context = Some empty_context, R_Labels = [], R_SourceNetworkServiceManagerName = ''a'',
     R_DestinationNetworkServiceManagerName = ''b'', R_NetworkServiceEndpointName = ''e'', R_State = UP\<rparr>"

definition ex_cross :: CrossConnect where
  "ex_cross = \<lparr>X_Id = ''7'', X_Payload = ''IP'', X_Source = Some (Local ex_kernel), X_Destination = Some (Remote ex_tunnel)\<rparr>"

lemmas ex_defs = ex_cross_def ex_kernel_def ex_tunnel_def empty_context_def NetNsInodeKey_def InterfaceNameKey_def
  VXLANSrcIP_def VXLANDstIP_def VXLANVNI_def

lemmas ex_digits = ParseUint_def is_dec_def dec_val_def of_char_def

lemma ex_complete: "complete_xcon ex_cross"
  by (simp add: complete_xcon_def CrossConnect_IsComplete_def CrossConnect_IsValid_def GetLocalSource_def GetRemoteSource_def
      GetLocalDestination_def GetRemoteDestination_def GetSource_def GetDestination_def LocalConnection_IsComplete_def
      LocalConnection_IsValid_def LocalMechanism_IsValid_def RemoteConnection_IsComplete_def RemoteConnection_IsValid_def
      RemoteMechanism_isValid_def SrcIP_def DstIP_def VNI_def getIPParameter_def Context_IsComplete_def LinuxIfMaxLength_def
      ex_defs ex_digits ex_ip1 ex_ip2 v4InV6Prefix_def)

lemma ex_convertible: "both_convertible ex_host ''/var'' True ex_cross"
  by (simp add: both_convertible_def convertible_def IsKernelInterface_def NetNsFileName_def ResolvePodNsByInode_def
      netns_file_def isDigits_def ex_host_def ex_defs ex_digits)

lemma ex_cross_converts: "\<exists>rv. fst (CrossConnect_ToDataRequest ex_host ''/var'' (Some ex_cross) None True) = Inr rv"
proof -
  have "\<forall>side. 16 \<le> length (e_xid ex_host side)" by (simp add: ex_host_def)
  from converts [OF this ex_complete ex_convertible] show ?thesis by (metis fst_conv)
qed

theorem cross_connect_wired_witness:
  "\<exists>rv. fst (CrossConnect_ToDataRequest ex_host ''/var'' (Some ex_cross) None True) = Inr rv \<and> wired ''7'' empty_request rv"
proof -
  have "\<forall>side. 16 \<le> length (e_xid ex_host side)" by (simp add: ex_host_def)
  from cross_connect_wired [OF this, where dir = "''/var''" and x = ex_cross and rv = None and connect = True]
  show ?thesis using ex_complete ex_convertible
    by (auto simp: ex_cross_def request_or_new_def split: sum.splits)
qed

subsection \<open>Linux interfaces\<close>

text \<open>
  Names of Linux interfaces are at most 15 characters long. The Linux side of a tap
  is configured under the same name as the tap, and the device the dataplane reads
  packets from is one end of a pair whose other end is in the namespace.
\<close>

definition linux_side :: "LinuxInterface list \<Rightarrow> Interface \<Rightarrow> bool" where
  "linux_side lis i =
     (case IF_Kind i of
        Tap v h \<Rightarrow> length h \<le> LinuxIfMaxLength \<and> (\<exists>li \<in> set lis. LI_Name li = IF_Name i \<and> LI_Kind li = AUTO_TAP h)
      | Afpacket h \<Rightarrow> (\<exists>li \<in> set lis. \<exists>peer \<in> set lis. LI_HostIfName li = h \<and> LI_Name peer = IF_Name i \<and>
          LI_Kind peer = VETH h \<and> LI_Kind li = VETH (LI_HostIfName peer))
      | _ \<Rightarrow> True)"

definition linux_ok :: "DataRequest \<Rightarrow> bool" where
  "linux_ok rv \<longleftrightarrow> (\<forall>li \<in> set (LinuxInterfaces rv). length (LI_HostIfName li) \<le> LinuxIfMaxLength) \<and>
     (\<forall>i \<in> set (Interfaces rv). linux_side (LinuxInterfaces rv) i)"

lemma linux_side_mono: "linux_side lis i \<Longrightarrow> set lis \<subseteq> set lis' \<Longrightarrow> linux_side lis' i"
  unfolding linux_side_def by (cases "IF_Kind i") (simp_all, blast+)

lemma linux_ok_extend:
  assumes "linux_ok rv" "LinuxInterfaces rv' = LinuxInterfaces rv @ lis" "Interfaces rv' = Interfaces rv @ [i]"
    "\<forall>li \<in> set lis. length (LI_HostIfName li) \<le> LinuxIfMaxLength" "linux_side lis i"
  shows "linux_ok rv'"
proof -
  have "linux_side (LinuxInterfaces rv @ lis) j" if "j \<in> set (Interfaces rv)" for j
    by (rule linux_side_mono [of "LinuxInterfaces rv"]) (use assms(1) that in \<open>simp_all add: linux_ok_def\<close>)
  moreover have "linux_side (LinuxInterfaces rv @ lis) i" by (rule linux_side_mono [OF assms(5)]) simp
  ultimately show ?thesis using assms(1,4) unfolding linux_ok_def assms(2,3) by auto
qed

lemma linux_ok_plain:
  "linux_ok (rv\<lparr>Interfaces := Interfaces rv @ [\<lparr>IF_Name = n, IF_Enabled = b, IF_IpAddresses = ips, IF_Kind = Memif w f\<rparr>]\<rparr>) = linux_ok rv"
  "linux_ok (rv\<lparr>Interfaces := Interfaces rv @ [\<lparr>IF_Name = n, IF_Enabled = b, IF_IpAddresses = ips, IF_Kind = Vxlan s d v\<rparr>]\<rparr>) = linux_ok rv"
  by (auto simp: linux_ok_def linux_side_def)

lemma linux_ok_routes [simp]:
  "linux_ok (add_linux_routes n f ctx rv) = linux_ok rv" "linux_ok (add_arp_entries n f ctx rv) = linux_ok rv"
  "linux_ok (add_static_routes n ctx0 rv) = linux_ok rv"
  by (simp_all add: linux_ok_def add_linux_routes_def add_arp_entries_def add_static_routes_def split: option.splits)

lemma linux_ok_kernel:
  assumes "linux_ok rv" "length (LM_parameter m InterfaceNameKey) \<le> LinuxIfMaxLength" "length t \<le> LinuxIfMaxLength"
  shows "linux_ok (add_tap name m ips f t rv)" "linux_ok (add_veth name m ips f t rv)"
proof -
  show "linux_ok (add_tap name m ips f t rv)"
    using assms by (intro linux_ok_extend [OF assms(1)]) (auto simp: add_tap_def linux_side_def)
  show "linux_ok (add_veth name m ips f t rv)"
    using assms by (intro linux_ok_extend [OF assms(1)]) (auto simp: add_veth_def linux_side_def)
qed

lemma kernel_name_fits:
  "LocalConnection_IsComplete (Some c) = None \<Longrightarrow> IsKernelInterface (L_Mechanism c) \<Longrightarrow>
    length (LM_parameter (L_Mechanism c) InterfaceNameKey) \<le> LinuxIfMaxLength"
  by (auto simp: LocalConnection_IsComplete_def LocalConnection_IsValid_def LocalMechanism_IsValid_def IsKernelInterface_def
      LM_parameter_def Let_def split: option.splits if_splits sum.splits)

lemma linux_ok_end:
  assumes "linux_ok rv" "length (e_xid env side) = 20" "convert_end env dir name side conn rv connect = (Inr rv', made)"
  shows "linux_ok rv'"
proof -
  let ?p = "\<lambda>c. \<lparr>Terminate = False, Side = side, P_Name = name, BaseDir = path_Join [dir, GetWorkspace (L_Mechanism c)]\<rparr>"
  have k: "linux_ok rv'" if "Kernel_ToDataRequest env (Some c) (?p c) (Some rv) connect = Inr rv'" for c
  proof -
    have "length (take 7 (e_xid env side) @ drop 16 (e_xid env side)) \<le> LinuxIfMaxLength"
      using assms(2) by (simp add: LinuxIfMaxLength_def)
    with that linux_ok_kernel [OF assms(1) kernel_name_fits [of c]] show ?thesis
      by (auto simp: Kernel_ToDataRequest_def TempIfName_def Let_def split: option.splits if_splits sum.splits bool.splits)
  qed
  have m: "linux_ok rv'" if "Memif_ToDataRequest env (Some c) (?p c) (Some rv) = (Inr rv', made)" for c
    using that assms(1)
    by (auto simp: Memif_ToDataRequest_def linux_ok_plain Let_def split: option.splits if_splits sum.splits)
  have r: "linux_ok rv'" if "Remote_ToDataRequest (Some c) name side (Some rv) = Inr rv'" for c
    using that assms(1)
    by (auto simp: Remote_ToDataRequest_def linux_ok_plain Let_def split: option.splits if_splits)
  show ?thesis
    using assms(1,3) k m r
    by (auto simp: convert_end_def Local_ToDataRequest_def Let_def split: option.splits NSMConnection.splits if_splits sum.splits prod.splits)
qed

text \<open>
  C32: The Linux interfaces of a request are well formed. If interface identifiers have
  their documented 20 characters, every conversion of a cross connect keeps the
  following: no name of a Linux interface is longer than 15 characters, the Linux side of
  every tap is configured under the temporary name of the tap, and every packet device is
  one end of a pair whose other end is configured under the name of the interface.
\<close>

theorem linux_interfaces_ok:
  assumes "\<forall>side. length (e_xid env side) = 20" "linux_ok (request_or_new rv)"
    "fst (CrossConnect_ToDataRequest env dir x rv connect) = Inr rv'"
  shows "linux_ok rv'"
proof -
  obtain rv1 rv2 m1 m2 where
      1: "convert_end env dir (''SRC-'' @ XC_GetId x) SOURCE (GetSource x) (request_or_new rv) connect = (Inr rv1, m1)" and
      2: "convert_end env dir (''DST-'' @ XC_GetId x) DESTINATION (GetDestination x) rv1 connect = (Inr rv2, m2)" and
      3: "add_xcons rv2 = Inr rv'"
    using assms(3) by (auto simp: CrossConnect_ToDataRequest_def split: option.splits prod.splits sum.splits)
  have "linux_ok rv1" by (rule linux_ok_end [OF assms(2) _ 1]) (simp add: assms(1))
  from linux_ok_end [OF this _ 2] have "linux_ok rv2" by (simp add: assms(1))
  then show ?thesis using 3 by (auto simp: add_xcons_def linux_ok_def Let_def split: if_splits)
qed

theorem linux_interfaces_ok_witness:
  "\<exists>rv. fst (CrossConnect_ToDataRequest ex_host ''/var'' (Some ex_cross) None True) = Inr rv \<and> linux_ok rv"
proof -
  obtain rv where rv: "fst (CrossConnect_ToDataRequest ex_host ''/var'' (Some ex_cross) None True) = Inr rv"
    using ex_cross_converts by blast
  moreover have "linux_ok rv"
    by (rule linux_interfaces_ok [OF _ _ rv]) (simp_all add: ex_host_def request_or_new_def linux_ok_def empty_request_def)
  ultimately show ?thesis by blast
qed

subsection \<open>The two ends of a link\<close>

lemma vni_24_bits: "VNI m = Inr v \<Longrightarrow> unat v < 2 ^ 24"
  by (auto simp: VNI_def ParseUint_def Let_def unat_of_nat split: option.splits sum.splits if_splits
      intro: le_less_trans [OF mod_less_eq_dividend])

lemma vxlan_parameters:
  assumes "RemoteConnection_IsComplete (Some c) = None" "R_Mechanism c = Some m" "RM_Type m = VXLAN"
  obtains s d v where "SrcIP (Some m) = Inr s" "DstIP (Some m) = Inr d" "VNI (Some m) = Inr v"
  using assms
  by (auto simp: RemoteConnection_IsComplete_def RemoteConnection_IsValid_def RemoteMechanism_isValid_def Let_def
      split: option.splits if_splits sum.splits)

lemma ip_parameter_valid: "getIPParameter m k = Inr ip \<Longrightarrow> ParseIP ip \<noteq> []"
  by (auto simp: getIPParameter_def split: option.splits if_splits)

definition only_interface :: "DataRequest result \<Rightarrow> InterfaceKind option" where
  "only_interface r = (case r of Inr rv \<Rightarrow> (case Interfaces rv of [i] \<Rightarrow> Some (IF_Kind i) | _ \<Rightarrow> None) | Inl _ \<Rightarrow> None)"

text \<open>
  C30: The two ends of a link match. For a complete VXLAN connection, the dataplane that
  has it as destination and the one that has it as source both build a tunnel; they use
  the same 24-bit network identifier, and each one's source address is the other one's
  destination. For a memory interface, the dataplane and the client that terminates the
  connection use the same socket, and exactly one of them is the master.
\<close>

theorem link_ends_agree:
  "(RemoteConnection_IsComplete (Some c) = None \<longrightarrow> R_Mechanism c = Some m \<longrightarrow> RM_Type m = VXLAN \<longrightarrow>
     (\<exists>s d v. only_interface (Remote_ToDataRequest (Some c) n1 DESTINATION None) = Some (Vxlan s d v) \<and>
        only_interface (Remote_ToDataRequest (Some c) n2 SOURCE None) = Some (Vxlan d s v) \<and>
        ParseIP s \<noteq> [] \<and> ParseIP d \<noteq> [] \<and> unat v < 2 ^ 24)) \<and>
   (\<forall>a b. fst (Memif_ToDataRequest env1 l (p\<lparr>Terminate := True\<rparr>) None) = Inr a \<longrightarrow>
     fst (Memif_ToDataRequest env2 l (p\<lparr>Terminate := False\<rparr>) None) = Inr b \<longrightarrow>
     (\<exists>w socket. only_interface (Inr a) = Some (Memif w socket) \<and> only_interface (Inr b) = Some (Memif (\<not> w) socket)))"
proof (intro conjI impI allI)
  assume *: "RemoteConnection_IsComplete (Some c) = None" "R_Mechanism c = Some m" "RM_Type m = VXLAN"
  then obtain s d v where p: "SrcIP (Some m) = Inr s" "DstIP (Some m) = Inr d" "VNI (Some m) = Inr v"
    by (rule vxlan_parameters)
  moreover have "ParseIP s \<noteq> []" "ParseIP d \<noteq> []"
    using p(1,2) ip_parameter_valid unfolding SrcIP_def DstIP_def by blast+
  ultimately show "\<exists>s d v. only_interface (Remote_ToDataRequest (Some c) n1 DESTINATION None) = Some (Vxlan s d v) \<and>
      only_interface (Remote_ToDataRequest (Some c) n2 SOURCE None) = Some (Vxlan d s v) \<and>
      ParseIP s \<noteq> [] \<and> ParseIP d \<noteq> [] \<and> unat v < 2 ^ 24"
    using * vni_24_bits [OF p(3)]
    by (simp add: Remote_ToDataRequest_def only_interface_def or_zero_def request_or_new_def empty_request_def)
next
  fix a b
  assume "fst (Memif_ToDataRequest env1 l (p\<lparr>Terminate := True\<rparr>) None) = Inr a"
    "fst (Memif_ToDataRequest env2 l (p\<lparr>Terminate := False\<rparr>) None) = Inr b"
  then show "\<exists>w socket. only_interface (Inr a) = Some (Memif w socket) \<and> only_interface (Inr b) = Some (Memif (\<not> w) socket)"
    by (auto simp: Memif_ToDataRequest_def only_interface_def isMaster_def memif_socket_def request_or_new_def
        empty_request_def add_static_routes_def Let_def split: option.splits sum.splits if_splits)
qed

definition ex_memif :: LocalConnection where
  "ex_memif = ex_kernel\<lparr>L_Mechanism := Some \<lparr>LM_Type = MEM_INTERFACE, LM_Parameters = Some [(SocketFilename, ''nsm0/memif.sock'')]\<rparr>\<rparr>"

definition ex_params :: ConnectionConversionParameters where
  "ex_params = \<lparr>Terminate = False, Side = SOURCE, P_Name = ''SRC-7'', BaseDir = ''/var''\<rparr>"

lemma ex_memif_converts: "\<exists>a. fst (Memif_ToDataRequest ex_host (Some ex_memif) (ex_params\<lparr>Terminate := t\<rparr>) None) = Inr a"
  by (simp add: Memif_ToDataRequest_def ex_host_def ex_params_def ex_memif_def ex_kernel_def memif_addresses_def Let_def)

lemma ex_tunnel_complete: "RemoteConnection_IsComplete (Some ex_tunnel) = None"
  using ex_complete by (auto simp: complete_xcon_def CrossConnect_IsComplete_def GetRemoteDestination_def GetDestination_def
      ex_cross_def split: option.splits if_splits)

theorem link_ends_agree_witness:
  "(\<exists>s d v. only_interface (Remote_ToDataRequest (Some ex_tunnel) ''DST-7'' DESTINATION None) = Some (Vxlan s d v) \<and>
      only_interface (Remote_ToDataRequest (Some ex_tunnel) ''SRC-9'' SOURCE None) = Some (Vxlan d s v)) \<and>
   (\<exists>a b w socket. fst (Memif_ToDataRequest ex_host (Some ex_memif) (ex_params\<lparr>Terminate := True\<rparr>) None) = Inr a \<and>
      fst (Memif_ToDataRequest ex_host (Some ex_memif) (ex_params\<lparr>Terminate := False\<rparr>) None) = Inr b \<and>
      only_interface (Inr a) = Some (Memif w socket) \<and> only_interface (Inr b) = Some (Memif (\<not> w) socket))"
proof -
  obtain m where m: "R_Mechanism ex_tunnel = Some m" "RM_Type m = VXLAN" by (simp add: ex_tunnel_def)
  obtain a b where ab: "fst (Memif_ToDataRequest ex_host (Some ex_memif) (ex_params\<lparr>Terminate := True\<rparr>) None) = Inr a"
      "fst (Memif_ToDataRequest ex_host (Some ex_memif) (ex_params\<lparr>Terminate := False\<rparr>) None) = Inr b"
    using ex_memif_converts by meson
  show ?thesis
    using link_ends_agree [of ex_tunnel m "''DST-7''" "''SRC-9''" ex_host "Some ex_memif" ex_params ex_host]
      ex_tunnel_complete m ab by blast
qed

end
