(* ===== verification/VppAgent.thy ===== *)
theory VppAgent
  imports ConverterProps
begin

text \<open>
  The dataplane server (\<open>dataplane/vppagent/pkg/vppagent\<close>): requests are converted
  and sent to vpp-agent, except for a pair of memory interfaces, which are joined by a
  proxy of their sockets (\<open>pkg/memif\<close>, \<open>pkg/memifproxy\<close>). The answers of vpp-agent and of
  the host during one call are arguments. The state keeps the goroutines of the
  proxies with the channel that stops them, and records the calls to vpp-agent and the
  events handed to the cross connect monitor.
\<close>

subsection \<open>Proxies\<close>

record Proxy =
  sourceSocket :: string
  targetSocket :: string
  stopCh :: "nat option"

definition NewProxy :: "string \<Rightarrow> string \<Rightarrow> Proxy" where
  "NewProxy source target = \<lparr>sourceSocket = source, targetSocket = target, stopCh = None\<rparr>"

record vpp_env = host_env +
  e_ResolveUnixAddr :: "string \<Rightarrow> string option"
  e_Dial :: "string option"
  e_Put :: "DataRequest \<Rightarrow> string option"
  e_Del :: "DataRequest \<Rightarrow> string option"

datatype agent_call = Put DataRequest | Del DataRequest | Resync DataRequest

record Mechanisms =
  remoteMechanisms :: "RemoteMechanism list"
  localMechanisms :: "LocalMechanism list"

record VPPAgent =
  mechanisms :: Mechanisms
  v_baseDir :: string
  srcIPNet :: IPNet
  mgmtIfaceName :: string
  proxyMap :: "(string, Proxy) gomap"
  goroutines :: "(nat \<times> string \<times> string) list"
  closed_channels :: "nat list"
  next_channel :: nat
  agent_calls :: "agent_call list"
  monitor_events :: "Event list"
  made_dirs :: "string list"

definition proxy_Start :: "vpp_env \<Rightarrow> Proxy \<Rightarrow> VPPAgent \<Rightarrow> (Proxy \<times> error option) \<times> VPPAgent" where
  "proxy_Start env p v =
     (let ch = next_channel v; p1 = p\<lparr>stopCh := Some ch\<rparr>; v1 = v\<lparr>next_channel := ch + 1\<rparr> in
      case e_ResolveUnixAddr env (sourceSocket p) of
        Some e \<Rightarrow> ((p1, Some (Errorf e)), v1)
      | None \<Rightarrow>
          (case e_ResolveUnixAddr env (targetSocket p) of
             Some e \<Rightarrow> ((p1, Some (Errorf e)), v1)
           | None \<Rightarrow> ((p1, None), v1\<lparr>goroutines := goroutines v1 @ [(ch, sourceSocket p, targetSocket p)]\<rparr>)))"

text \<open>\<open>close\<close> panics on a nil channel and on a closed one.\<close>

definition proxy_Stop :: "Proxy \<Rightarrow> VPPAgent \<Rightarrow> error option \<times> VPPAgent" where
  "proxy_Stop p v =
     (case stopCh p of
        None \<Rightarrow> (Some (Panic ''close of nil channel''), v)
      | Some ch \<Rightarrow>
          if ch \<in> set (closed_channels v) then (Some (Panic ''close of closed channel''), v)
          else (None, v\<lparr>closed_channels := ch # closed_channels v\<rparr>))"

text \<open>
  The loop that copies messages from one socket to the other: what each round finds, and
  the messages sent together with whether the loop has returned. Leaving the \<open>select\<close>
  on the stop channel does not leave the loop. The buffers are sent whole.
\<close>

datatype round_input =
    Stopped
  | Recvmsg "(byte list \<times> byte list) result" "error option"

definition overwrite :: "byte list \<Rightarrow> byte list \<Rightarrow> byte list" where
  "overwrite data buffer = data @ drop (length data) buffer"

fun transfer :: "byte list \<Rightarrow> byte list \<Rightarrow> round_input list \<Rightarrow> (byte list option \<times> byte list option) list \<times> bool" where
  "transfer dataBuffer cmsgBuffer [] = ([], False)"
| "transfer dataBuffer cmsgBuffer (Stopped # rounds) = transfer dataBuffer cmsgBuffer rounds"
| "transfer dataBuffer cmsgBuffer (Recvmsg (Inl _) _ # rounds) = ([], True)"
| "transfer dataBuffer cmsgBuffer (Recvmsg (Inr (data, cmsg)) sendErr # rounds) =
     (let d = overwrite data dataBuffer; c = overwrite cmsg cmsgBuffer;
          msg = (if data \<noteq> [] then Some d else None, if cmsg \<noteq> [] then Some c else None)
      in case sendErr of
           Some _ \<Rightarrow> ([msg], True)
         | None \<Rightarrow> (case transfer d c rounds of (out, fin) \<Rightarrow> (msg # out, fin)))"

subsection \<open>Pairs of memory interfaces\<close>

definition direct_socket :: "VPPAgent \<Rightarrow> LocalMechanism option \<Rightarrow> string" where
  "direct_socket v m = path_Join [v_baseDir v, GetWorkspace m, GetSocketFilename m]"

definition direct_connect :: "vpp_env \<Rightarrow> CrossConnect \<Rightarrow> VPPAgent \<Rightarrow> (CrossConnect option \<times> error option) \<times> VPPAgent" where
  "direct_connect env x v =
     (if map_of (proxyMap v) (X_Id x) \<noteq> None then ((Some x, None), v)
      else
        (let src = Option.bind (GetLocalSource (Some x)) L_Mechanism;
             dst = Option.bind (GetLocalDestination (Some x)) L_Mechanism;
             dir = path_Dir (direct_socket v src);
             v1 = v\<lparr>made_dirs := made_dirs v @ [dir]\<rparr>
         in case e_MkdirAll env dir of
              Some e \<Rightarrow> ((None, Some e), v1)
            | None \<Rightarrow>
                (case proxy_Start env (NewProxy (direct_socket v src) (direct_socket v dst)) v1 of
                   ((_, Some e), v2) \<Rightarrow> ((None, Some e), v2)
                 | ((p, None), v2) \<Rightarrow> ((Some x, None), v2\<lparr>proxyMap := AList.update (X_Id x) p (proxyMap v2)\<rparr>))))"

definition direct_disconnect :: "CrossConnect \<Rightarrow> VPPAgent \<Rightarrow> error option \<times> VPPAgent" where
  "direct_disconnect x v =
     (case map_of (proxyMap v) (X_Id x) of
        None \<Rightarrow> (None, v)
      | Some p \<Rightarrow>
          (case proxy_Stop p v of
             (Some e, v1) \<Rightarrow> (Some e, v1)
           | (None, v1) \<Rightarrow> (None, v1\<lparr>proxyMap := AList.delete (X_Id x) (proxyMap v1)\<rparr>)))"

definition direct_ConnectOrDisConnect ::
    "vpp_env \<Rightarrow> CrossConnect \<Rightarrow> bool \<Rightarrow> VPPAgent \<Rightarrow> (CrossConnect option \<times> error option) \<times> VPPAgent" where
  "direct_ConnectOrDisConnect env x connect v =
     (if connect then direct_connect env x v
      else (case direct_disconnect x v of
              (Some e, v1) \<Rightarrow> ((None, Some e), v1)
            | (None, v1) \<Rightarrow> ((Some x, None), v1)))"

subsection \<open>The server\<close>

text \<open>The converter reads the host part of the environment.\<close>

definition host_of :: "vpp_env \<Rightarrow> host_env" where
  "host_of env = \<lparr>e_Proc = e_Proc env, e_GetInode = e_GetInode env, e_GetCmdline = e_GetCmdline env,
     e_xid = e_xid env, e_vhost = e_vhost env, e_MkdirAll = e_MkdirAll env\<rparr>"

definition memif_pair :: "CrossConnect option \<Rightarrow> bool" where
  "memif_pair x \<longleftrightarrow> IsMemif (Option.bind (GetLocalSource x) L_Mechanism) \<and> IsMemif (Option.bind (GetLocalDestination x) L_Mechanism)"

definition vpp_ConnectOrDisConnect ::
    "vpp_env \<Rightarrow> CrossConnect option \<Rightarrow> bool \<Rightarrow> VPPAgent \<Rightarrow> (CrossConnect option \<times> error option) \<times> VPPAgent" where
  "vpp_ConnectOrDisConnect env x connect v =
     (case (memif_pair x, x) of
        (True, Some xc) \<Rightarrow> direct_ConnectOrDisConnect env xc connect v
      | _ \<Rightarrow>
          (case e_Dial env of
             Some e \<Rightarrow> ((None, Some (Errorf e)), v)
           | None \<Rightarrow>
               (case CrossConnect_ToDataRequest (host_of env) (v_baseDir v) x None connect of
                  (Inl e, made) \<Rightarrow> ((None, Some e), v\<lparr>made_dirs := made_dirs v @ made\<rparr>)
                | (Inr dataChange, made) \<Rightarrow>
                    (let v1 = v\<lparr>made_dirs := made_dirs v @ made,
                          agent_calls := agent_calls v @ [if connect then Put dataChange else Del dataChange]\<rparr>
                     in case (if connect then e_Put env dataChange else e_Del env dataChange) of
                          Some e \<Rightarrow> ((x, Some (Errorf e)), v1)
                        | None \<Rightarrow> ((x, None), v1)))))"

text \<open>A panic of the conversion ends the request before the monitor is told.\<close>

definition vpp_Request :: "vpp_env \<Rightarrow> CrossConnect option \<Rightarrow> VPPAgent \<Rightarrow> (CrossConnect option \<times> error option) \<times> VPPAgent" where
  "vpp_Request env x v =
     (case vpp_ConnectOrDisConnect env x True v of
        ((xcon, err), v1) \<Rightarrow>
          if is_panic err then ((None, err), v1)
          else ((xcon, err), v1\<lparr>monitor_events := monitor_events v1 @ [update_event (XconEntity xcon)]\<rparr>))"

definition vpp_Close :: "vpp_env \<Rightarrow> CrossConnect option \<Rightarrow> VPPAgent \<Rightarrow> error option \<times> VPPAgent" where
  "vpp_Close env x v =
     (case vpp_ConnectOrDisConnect env x False v of
        ((xcon, err), v1) \<Rightarrow>
          if is_panic err then (err, v1)
          else (None, v1\<lparr>monitor_events := monitor_events v1 @ [delete_event (XconEntity xcon)]\<rparr>))"

definition vpp_reset :: "vpp_env \<Rightarrow> VPPAgent \<Rightarrow> error option \<times> VPPAgent" where
  "vpp_reset env v =
     (case e_Dial env of
        Some e \<Rightarrow> (Some (Errorf e), v)
      | None \<Rightarrow> (None, v\<lparr>agent_calls := agent_calls v @ [Resync empty_request]\<rparr>))"

definition mgmt_request :: "VPPAgent \<Rightarrow> DataRequest" where
  "mgmt_request v = empty_request\<lparr>Interfaces := [\<lparr>IF_Name = ''mgmt'', IF_Enabled = True,
     IF_IpAddresses = [IPNet_String (srcIPNet v)], IF_Kind = Afpacket (mgmtIfaceName v)\<rparr>]\<rparr>"

definition programMgmtInterface :: "vpp_env \<Rightarrow> VPPAgent \<Rightarrow> error option \<times> VPPAgent" where
  "programMgmtInterface env v =
     (case e_Dial env of
        Some e \<Rightarrow> (Some (Errorf e), v)
      | None \<Rightarrow> (map_option Errorf (e_Put env (mgmt_request v)), v\<lparr>agent_calls := agent_calls v @ [Put (mgmt_request v)]\<rparr>))"

definition NewVPPAgent :: "vpp_env \<Rightarrow> string \<Rightarrow> net_IP \<Rightarrow> IPNet \<Rightarrow> string \<Rightarrow> VPPAgent" where
  "NewVPPAgent env baseDir srcIP srcNet mgmtIface =
     (let rv = \<lparr>mechanisms = \<lparr>remoteMechanisms = [\<lparr>RM_Type = VXLAN, RM_Parameters = Some [(VXLANSrcIP, IP_String srcIP)]\<rparr>],
                  localMechanisms = [\<lparr>LM_Type = KERNEL_INTERFACE, LM_Parameters = None\<rparr>,
                    \<lparr>LM_Type = MEM_INTERFACE, LM_Parameters = None\<rparr>]\<rparr>,
                v_baseDir = baseDir, srcIPNet = srcNet, mgmtIfaceName = mgmtIface, proxyMap = [], goroutines = [],
                closed_channels = [], next_channel = 0, agent_calls = [], monitor_events = [], made_dirs = []\<rparr>
      in snd (programMgmtInterface env (snd (vpp_reset env rv))))"

text \<open>\<open>MonitorMechanisms\<close>: the updates that are sent, given which sends fail and the updates that arrive.\<close>

fun send_updates :: "(Mechanisms \<Rightarrow> error option) \<Rightarrow> Mechanisms list \<Rightarrow> VPPAgent \<Rightarrow> Mechanisms list \<times> VPPAgent" where
  "send_updates snd_err [] v = ([], v)"
| "send_updates snd_err (u # us) v =
     (let v1 = v\<lparr>mechanisms := u\<rparr> in
      case snd_err u of
        Some _ \<Rightarrow> ([u], v1)
      | None \<Rightarrow> (case send_updates snd_err us v1 of (out, v2) \<Rightarrow> (u # out, v2)))"

definition MonitorMechanisms :: "(Mechanisms \<Rightarrow> error option) \<Rightarrow> Mechanisms list \<Rightarrow> VPPAgent \<Rightarrow> Mechanisms list \<times> VPPAgent" where
  "MonitorMechanisms snd_err updates v =
     (case snd_err (mechanisms v) of
        Some _ \<Rightarrow> ([mechanisms v], v)
      | None \<Rightarrow> (case send_updates snd_err updates v of (out, v') \<Rightarrow> (mechanisms v # out, v')))"


subsection \<open>Requests and closes\<close>

text \<open>
  C26: What a request configures, its close removes. For a complete cross connect that
  is not a pair of memory interfaces and whose ends can be set up and taken down, a
  request answers with the cross connect and makes one \<open>Put\<close>, and the close that follows makes one
  \<open>Del\<close>; both name the same two interfaces and the same connections between them, and the
  monitor is given an update and then a deletion of that cross connect. The temporary names drawn in
  the two conversions may differ.
\<close>

theorem vpp_request_close:
  assumes "\<forall>side. 16 \<le> length (e_xid env1 side) \<and> 16 \<le> length (e_xid env2 side)"
    "complete_xcon x" "\<not> memif_pair (Some x)" "e_Dial env1 = None" "e_Dial env2 = None"
    "both_convertible (host_of env1) (v_baseDir v) True x" "both_convertible (host_of env2) (v_baseDir v) False x"
    "\<forall>d. e_Put env1 d = None" "vpp_Request env1 (Some x) v = (answer, v1)" "vpp_Close env2 (Some x) v1 = (err, v2)"
  shows "answer = (Some x, None) \<and> err = None \<and>
    (\<exists>a b. agent_calls v2 = agent_calls v @ [Put a, Del b] \<and> wired (X_Id x) empty_request a \<and> wired (X_Id x) empty_request b) \<and>
    monitor_events v2 = monitor_events v @ [update_event (XconEntity (Some x)), delete_event (XconEntity (Some x))]"
proof -
  have len: "\<forall>side. 16 \<le> length (e_xid (host_of env1) side)" "\<forall>side. 16 \<le> length (e_xid (host_of env2) side)"
    using assms(1) by (simp_all add: host_of_def)
  obtain a m1 where a: "CrossConnect_ToDataRequest (host_of env1) (v_baseDir v) (Some x) None True = (Inr a, m1)"
      "wired (X_Id x) (request_or_new None) a" using len(1) assms(2,6) by (rule converts)
  obtain b m2 where b: "CrossConnect_ToDataRequest (host_of env2) (v_baseDir v) (Some x) None False = (Inr b, m2)"
      "wired (X_Id x) (request_or_new None) b" using len(2) assms(2,7) by (rule converts)
  have v1: "answer = (Some x, None)" "v1 = v\<lparr>made_dirs := made_dirs v @ m1, agent_calls := agent_calls v @ [Put a],
      monitor_events := monitor_events v @ [update_event (XconEntity (Some x))]\<rparr>"
    using assms(3,4,8,9) a(1) by (simp_all add: vpp_Request_def vpp_ConnectOrDisConnect_def is_panic_def)
  show ?thesis
    using assms(3,5,10) b a(2) v1
    by (cases "e_Del env2 b") (auto simp: vpp_Close_def vpp_ConnectOrDisConnect_def is_panic_def request_or_new_def Let_def)
qed

definition ex_vpp_env :: vpp_env where
  "ex_vpp_env = \<lparr>e_Proc = e_Proc ex_host, e_GetInode = e_GetInode ex_host, e_GetCmdline = e_GetCmdline ex_host,
     e_xid = e_xid ex_host, e_vhost = True, e_MkdirAll = (\<lambda>_. None), e_ResolveUnixAddr = (\<lambda>_. None),
     e_Dial = None, e_Put = (\<lambda>_. None), e_Del = (\<lambda>_. None)\<rparr>"

definition ex_agent :: VPPAgent where
  "ex_agent = NewVPPAgent ex_vpp_env ''/var'' [10, 0, 0, 1] \<lparr>IP = [10, 0, 0, 1], Mask = [255, 255, 255, 0]\<rparr> ''eth0''"

lemma ex_host_of: "host_of ex_vpp_env = ex_host"
  by (simp add: host_of_def ex_vpp_env_def ex_host_def)

lemma ex_baseDir: "v_baseDir ex_agent = ''/var''"
  by (simp add: ex_agent_def NewVPPAgent_def vpp_reset_def programMgmtInterface_def ex_vpp_env_def)

lemma convertible_disconnect: "both_convertible env dir True x \<Longrightarrow> both_convertible env dir False x"
proof -
  have "convertible env dir side True c \<Longrightarrow> convertible env dir side False c" for side c
    by (auto simp: convertible_def split: NSMConnection.splits)
  then show "both_convertible env dir True x \<Longrightarrow> both_convertible env dir False x"
    unfolding both_convertible_def by blast
qed

theorem vpp_request_close_witness:
  "\<exists>v1 v2 a b. vpp_Request ex_vpp_env (Some ex_cross) ex_agent = ((Some ex_cross, None), v1) \<and>
    vpp_Close ex_vpp_env (Some ex_cross) v1 = (None, v2) \<and>
    agent_calls v2 = agent_calls ex_agent @ [Put a, Del b] \<and> XCons a = XCons b"
proof -
  obtain answer v1 where 1: "vpp_Request ex_vpp_env (Some ex_cross) ex_agent = (answer, v1)" by (rule prod.exhaust)
  obtain err v2 where 2: "vpp_Close ex_vpp_env (Some ex_cross) v1 = (err, v2)" by (rule prod.exhaust)
  have "\<not> memif_pair (Some ex_cross)"
    by (simp add: memif_pair_def GetLocalSource_def GetSource_def ex_cross_def ex_kernel_def IsMemif_def)
  from vpp_request_close [OF _ ex_complete this _ _ _ _ _ 1 2] show ?thesis
    using 1 2 ex_convertible convertible_disconnect [OF ex_convertible]
    by (auto simp: ex_baseDir ex_host_of wired_def) (auto simp: ex_vpp_env_def ex_host_def)
qed

text \<open>A request that cannot be converted is published all the same, as a nil cross connect with an empty id.\<close>

lemma failed_request_published:
  assumes "e_Dial env = Some e" "\<not> memif_pair x"
  shows "vpp_Request env x v = ((None, Some (Errorf e)),
    v\<lparr>monitor_events := monitor_events v @ [\<lparr>EventType = UPDATE, Entities = [('''', XconEntity None)]\<rparr>]\<rparr>)"
  using assms by (simp add: vpp_Request_def vpp_ConnectOrDisConnect_def is_panic_def update_event_def XC_GetId_def)

subsection \<open>Proxies of memory interfaces\<close>

inductive direct_run :: "VPPAgent \<Rightarrow> bool" where
  direct_start: "direct_run (NewVPPAgent env baseDir srcIP srcNet mgmtIface)"
| direct_conn: "direct_run v \<Longrightarrow> direct_run (snd (direct_connect env x v))"
| direct_disc: "direct_run v \<Longrightarrow> direct_run (snd (direct_disconnect x v))"

text \<open>The goroutines that were not told to stop, and the one an entry of the map stands for.\<close>

definition active :: "VPPAgent \<Rightarrow> (nat \<times> string \<times> string) list" where
  "active v = filter (\<lambda>g. fst g \<notin> set (closed_channels v)) (goroutines v)"

definition proxy_goroutine :: "Proxy \<Rightarrow> nat \<times> string \<times> string" where
  "proxy_goroutine p = (the (stopCh p), sourceSocket p, targetSocket p)"

definition direct_inv :: "VPPAgent \<Rightarrow> bool" where
  "direct_inv v \<longleftrightarrow> gomap_ok (proxyMap v) \<and> (\<forall>g \<in> set (goroutines v). fst g < next_channel v) \<and>
     (\<forall>c \<in> set (closed_channels v). c < next_channel v) \<and> (\<forall>(k, p) \<in> set (proxyMap v). stopCh p \<noteq> None) \<and>
     mset (map (proxy_goroutine \<circ> snd) (proxyMap v)) = mset (active v) \<and> distinct (map fst (active v))"

lemma mset_delete_key:
  "gomap_ok m \<Longrightarrow> map_of m k = Some v \<Longrightarrow> mset (map f (AList.delete k m)) = mset (map f m) - {#f (k, v)#}"
proof (induction m)
  case (Cons e m)
  obtain k' v' where e: "e = (k', v')" by force
  show ?case
  proof (cases "k' = k")
    case True
    with Cons.prems e have "map_of m k = None" "v' = v" by (auto simp: gomap_ok_def map_of_eq_None_iff)
    then show ?thesis using True e by (simp add: delete_fresh)
  next
    case False
    then have "f (k, v) \<in># mset (map f m)" using Cons.prems e by (auto dest: map_of_SomeD)
    then show ?thesis using False Cons e by (auto simp: gomap_ok_def)
  qed
qed simp

lemma mset_filter_key:
  "distinct (map fst xs) \<Longrightarrow> g \<in> set xs \<Longrightarrow> mset (filter (\<lambda>x. fst x \<noteq> fst g) xs) = mset xs - {#g#}"
proof (induction xs)
  case (Cons x xs)
  show ?case
  proof (cases "x = g")
    case True
    then have "fst x \<noteq> fst g" if "x \<in> set xs" for x using Cons.prems that by (auto simp: image_iff)
    then have "filter (\<lambda>x. fst x \<noteq> fst g) xs = xs" by (simp add: filter_id_conv)
    then show ?thesis using True by simp
  next
    case False
    then have "fst x \<noteq> fst g" "g \<in> set xs" using Cons.prems by (auto simp: image_iff)
    then show ?thesis using False Cons by simp
  qed
qed simp

lemma gomap_snoc: "map_of m k = None \<Longrightarrow> gomap_ok (m @ [(k, v)]) = gomap_ok m"
  by (auto simp: gomap_ok_def map_of_eq_None_iff)

lemma direct_inv_connect: "direct_inv v \<Longrightarrow> direct_inv (snd (direct_connect env x v))"
proof (cases "map_of (proxyMap v) (X_Id x)")
  case None
  assume inv: "direct_inv v"
  have new: "fst g \<noteq> next_channel v" if "g \<in> set (active v)" for g
    using that inv by (auto simp: direct_inv_def active_def)
  have "next_channel v \<notin> set (closed_channels v)" using inv by (auto simp: direct_inv_def)
  with inv None new show ?thesis
    by (auto simp: direct_connect_def proxy_Start_def Let_def direct_inv_def active_def NewProxy_def proxy_goroutine_def
        update_fresh less_SucI gomap_snoc split: option.splits)
qed (simp add: direct_connect_def)

lemma direct_inv_proxy:
  assumes "direct_inv v" "map_of (proxyMap v) k = Some p"
  obtains ch where "stopCh p = Some ch" "proxy_goroutine p \<in> set (active v)" "fst (proxy_goroutine p) = ch"
    "ch \<notin> set (closed_channels v)"
proof -
  have kp: "(k, p) \<in> set (proxyMap v)" using assms(2) by (rule map_of_SomeD)
  then obtain ch where ch: "stopCh p = Some ch" using assms(1) by (auto simp: direct_inv_def)
  have "proxy_goroutine p \<in># mset (map (proxy_goroutine \<circ> snd) (proxyMap v))" using kp by force
  moreover have "mset (map (proxy_goroutine \<circ> snd) (proxyMap v)) = mset (active v)" using assms(1) by (simp add: direct_inv_def)
  ultimately have "proxy_goroutine p \<in> set (active v)" by (simp only: set_mset_mset)
  then show ?thesis using that ch by (auto simp: active_def proxy_goroutine_def)
qed

lemma direct_disconnect_run:
  assumes "direct_inv v" "map_of (proxyMap v) (X_Id x) = Some p"
  shows "direct_disconnect x v = (None, v\<lparr>closed_channels := fst (proxy_goroutine p) # closed_channels v,
    proxyMap := AList.delete (X_Id x) (proxyMap v)\<rparr>)"
proof -
  obtain ch where "stopCh p = Some ch" "fst (proxy_goroutine p) = ch" "ch \<notin> set (closed_channels v)"
    using assms by (rule direct_inv_proxy)
  then show ?thesis using assms(2) by (simp add: direct_disconnect_def proxy_Stop_def)
qed

lemma direct_inv_disconnect:
  assumes inv: "direct_inv v"
  shows "direct_inv (snd (direct_disconnect x v))"
proof (cases "map_of (proxyMap v) (X_Id x)")
  case (Some p)
  let ?g = "proxy_goroutine p"
  let ?v = "v\<lparr>closed_channels := fst ?g # closed_channels v, proxyMap := AList.delete (X_Id x) (proxyMap v)\<rparr>"
  obtain g: "?g \<in> set (active v)" using inv Some by (rule direct_inv_proxy)
  have act: "active ?v = filter (\<lambda>h. fst h \<noteq> fst ?g) (active v)"
    by (auto simp: active_def intro!: filter_cong)
  have "mset (map (proxy_goroutine \<circ> snd) (proxyMap ?v)) = mset (active ?v)"
    using mset_delete_key [of "proxyMap v" "X_Id x" p "proxy_goroutine \<circ> snd"] mset_filter_key [OF _ g] inv Some act
    by (simp add: direct_inv_def)
  moreover have "distinct (map fst (active ?v))" using inv by (simp add: act direct_inv_def distinct_map_filter)
  moreover have "fst ?g < next_channel v" using g inv by (auto simp: direct_inv_def active_def)
  moreover have "\<forall>(k, p) \<in> set (proxyMap ?v). stopCh p \<noteq> None"
    using inv entries_delete [of "X_Id x" "proxyMap v"] by (auto simp: direct_inv_def)
  ultimately have "direct_inv ?v" using inv by (simp add: direct_inv_def)
  then show ?thesis using direct_disconnect_run [OF inv Some] by simp
qed (use inv in \<open>simp add: direct_disconnect_def\<close>)

lemma direct_inv_run: "direct_run v \<Longrightarrow> direct_inv v"
proof (induction rule: direct_run.induct)
  case direct_start
  show ?case by (simp add: NewVPPAgent_def programMgmtInterface_def vpp_reset_def direct_inv_def active_def Let_def split: option.splits)
qed (simp_all add: direct_inv_connect direct_inv_disconnect)



text \<open>
  Stopping a proxy does not end its goroutines: once the channel is closed, every round
  takes the branch of the stop channel, which only leaves the \<open>select\<close>.
\<close>

lemma transfer_never_ends: "transfer d c (replicate n Stopped) = ([], False)"
  by (induction n) simp_all

end
