(* ===== verification/ResourceCache.thy ===== *)
theory ResourceCache
  imports Monitor
begin

text \<open>
  The caches of the Kubernetes registry server (\<open>k8s/pkg/registryserver/resource_cache\<close>).
  A cache is fed through two channels and kept by one goroutine, whose \<open>select\<close> takes from
  either of them. Services and managers are kept by name; endpoints also by
  the service they provide. The objects of the API server carry the fields the code reads.
\<close>

subsection \<open>Objects of the API server\<close>

record v1_NetworkService =
  v1_NS_Name :: string
  v1_Payload :: string
  v1_Matches :: "Match list"

record v1_NetworkServiceEndpoint =
  v1_NSE_Name :: string
  v1_Labels :: "(string, string) gomap"
  v1_NetworkServiceName :: string
  v1_NsmName :: string
  v1_NSE_State :: string

record v1_NetworkServiceManager =
  v1_NSM_Name :: string
  v1_URL :: string
  v1_NSM_State :: string

subsection \<open>The goroutine of a cache\<close>

record ('o, 'c) abstractResourceCache =
  addCh :: "'o list"
  deleteCh :: "string list"
  content :: 'c

definition newAbstractResourceCache :: "'c \<Rightarrow> ('o, 'c) abstractResourceCache" where
  "newAbstractResourceCache c = \<lparr>addCh = [], deleteCh = [], content = c\<rparr>"

text \<open>\<open>None\<close>: the channel is full and the caller waits.\<close>

definition cache_add :: "'o \<Rightarrow> ('o, 'c) abstractResourceCache \<Rightarrow> ('o, 'c) abstractResourceCache option" where
  "cache_add obj c = (if length (addCh c) < 10 then Some (c\<lparr>addCh := addCh c @ [obj]\<rparr>) else None)"

definition cache_delete :: "string \<Rightarrow> ('o, 'c) abstractResourceCache \<Rightarrow> ('o, 'c) abstractResourceCache option" where
  "cache_delete key c = (if length (deleteCh c) < 10 then Some (c\<lparr>deleteCh := deleteCh c @ [key]\<rparr>) else None)"

inductive run_step :: "('o \<Rightarrow> 'c \<Rightarrow> 'c) \<Rightarrow> (string \<Rightarrow> 'c \<Rightarrow> 'c result) \<Rightarrow>
    ('o, 'c) abstractResourceCache \<Rightarrow> ('o, 'c) abstractResourceCache \<Rightarrow> bool" for added deleted where
  run_added: "addCh c = obj # objs \<Longrightarrow>
    run_step added deleted c (c\<lparr>addCh := objs, content := added obj (content c)\<rparr>)"
| run_deleted: "deleteCh c = key # keys \<Longrightarrow> deleted key (content c) = Inr c1 \<Longrightarrow>
    run_step added deleted c (c\<lparr>deleteCh := keys, content := c1\<rparr>)"

inductive_cases run_stepE: "run_step added deleted c c'"

subsection \<open>Services and managers\<close>

definition ns_resourceAdded :: "v1_NetworkService \<Rightarrow> (string, v1_NetworkService) gomap \<Rightarrow> (string, v1_NetworkService) gomap" where
  "ns_resourceAdded ns c = AList.update (v1_NS_Name ns) ns c"

definition ns_resourceDeleted :: "string \<Rightarrow> (string, v1_NetworkService) gomap \<Rightarrow> (string, v1_NetworkService) gomap result" where
  "ns_resourceDeleted key c = Inr (AList.delete key c)"

definition nsm_resourceAdded ::
    "v1_NetworkServiceManager \<Rightarrow> (string, v1_NetworkServiceManager) gomap \<Rightarrow> (string, v1_NetworkServiceManager) gomap" where
  "nsm_resourceAdded nsm c = AList.update (v1_NSM_Name nsm) nsm c"

definition nsm_resourceDeleted ::
    "string \<Rightarrow> (string, v1_NetworkServiceManager) gomap \<Rightarrow> (string, v1_NetworkServiceManager) gomap result" where
  "nsm_resourceDeleted key c = Inr (AList.delete key c)"

subsection \<open>Endpoints\<close>

record NetworkServiceEndpointCache =
  nseByNs :: "(string, v1_NetworkServiceEndpoint list) gomap"
  networkServiceEndpoints :: "(string, v1_NetworkServiceEndpoint) gomap"

definition empty_nse_cache :: NetworkServiceEndpointCache where
  "empty_nse_cache = \<lparr>nseByNs = [], networkServiceEndpoints = []\<rparr>"

definition nse_Get :: "NetworkServiceEndpointCache \<Rightarrow> string \<Rightarrow> v1_NetworkServiceEndpoint list" where
  "nse_Get c networkServiceName = (case map_of (nseByNs c) networkServiceName of None \<Rightarrow> [] | Some es \<Rightarrow> es)"

text \<open>The loop that replaces the entry of the same name, in place.\<close>

fun replace_nse :: "v1_NetworkServiceEndpoint \<Rightarrow> v1_NetworkServiceEndpoint list \<Rightarrow> v1_NetworkServiceEndpoint list" where
  "replace_nse nse [] = []"
| "replace_nse nse (e # es) = (if v1_NSE_Name nse = v1_NSE_Name e then nse # es else e # replace_nse nse es)"

definition nse_resourceAdded :: "v1_NetworkServiceEndpoint \<Rightarrow> NetworkServiceEndpointCache \<Rightarrow> NetworkServiceEndpointCache" where
  "nse_resourceAdded nse c =
     (let ns = v1_NetworkServiceName nse; endpoints = nse_Get c ns;
          byNs = (if map_of (networkServiceEndpoints c) (v1_NSE_Name nse) = None
                  then AList.update ns (endpoints @ [nse]) (nseByNs c)
                  else if map_of (nseByNs c) ns = None then nseByNs c
                  else AList.update ns (replace_nse nse endpoints) (nseByNs c))
      in \<lparr>nseByNs = byNs, networkServiceEndpoints = AList.update (v1_NSE_Name nse) nse (networkServiceEndpoints c)\<rparr>)"

text \<open>The index of the entry of that name, zero when there is none.\<close>

fun index_from :: "nat \<Rightarrow> string \<Rightarrow> v1_NetworkServiceEndpoint list \<Rightarrow> nat" where
  "index_from i key [] = 0"
| "index_from i key (e # es) = (if key = v1_NSE_Name e then i else index_from (Suc i) key es)"

definition nse_resourceDeleted :: "string \<Rightarrow> NetworkServiceEndpointCache \<Rightarrow> NetworkServiceEndpointCache result" where
  "nse_resourceDeleted key c =
     (case map_of (networkServiceEndpoints c) key of
        None \<Rightarrow> Inr c
      | Some nse \<Rightarrow>
          (let ns = v1_NetworkServiceName nse; endpoints = nse_Get c ns;
               index = index_from 0 (v1_NSE_Name nse) endpoints
           in if index + 1 > length endpoints then Inl (Panic ''slice bounds out of range'')
              else
                (let rest = take index endpoints @ drop (index + 1) endpoints in
                 Inr \<lparr>nseByNs = (if rest = [] then AList.delete ns (nseByNs c) else AList.update ns rest (nseByNs c)),
                      networkServiceEndpoints = AList.delete key (networkServiceEndpoints c)\<rparr>)))"

subsection \<open>The contract of a cache\<close>

text \<open>
  What a cache promises to its goroutine: an added object is found under its name, a
  deleted name is not, other names are not touched, and a deletion never panics. \<open>good\<close>
  restricts the objects, \<open>invar\<close> is kept as long as only such objects are added.
\<close>

definition possible :: "('o \<Rightarrow> string) \<Rightarrow> ('c \<Rightarrow> string \<Rightarrow> 'o option) \<Rightarrow> ('o, 'c) abstractResourceCache \<Rightarrow> string \<Rightarrow> 'o option set" where
  "possible key lookup c k =
     (let adds = filter (\<lambda>obj. key obj = k) (addCh c) in
      if adds = [] then {if k \<in> set (deleteCh c) then None else lookup (content c) k}
      else if k \<in> set (deleteCh c) then {None, Some (last adds)} else {Some (last adds)})"

definition queued :: "('o, 'c) abstractResourceCache \<Rightarrow> nat" where
  "queued c = length (addCh c) + length (deleteCh c)"

text \<open>
  A cache converges: its goroutine never blocks while something is queued, handles
  each entry once, and in the end every name has one of the values its queued operations allow.
\<close>

definition converges :: "('o \<Rightarrow> string) \<Rightarrow> ('o \<Rightarrow> 'c \<Rightarrow> 'c) \<Rightarrow> (string \<Rightarrow> 'c \<Rightarrow> 'c result) \<Rightarrow>
    ('c \<Rightarrow> string \<Rightarrow> 'o option) \<Rightarrow> ('o, 'c) abstractResourceCache \<Rightarrow> bool" where
  "converges key added deleted lookup c \<longleftrightarrow>
     (\<forall>m c'. (run_step added deleted ^^ m) c c' \<longrightarrow> m + queued c' = queued c \<and>
        (queued c' \<noteq> 0 \<longrightarrow> (\<exists>c''. run_step added deleted c' c'')) \<and>
        (queued c' = 0 \<longrightarrow> (\<forall>k. lookup (content c') k \<in> possible key lookup c k)))"

locale cache_contract =
  fixes key :: "'o \<Rightarrow> string" and added :: "'o \<Rightarrow> 'c \<Rightarrow> 'c" and deleted :: "string \<Rightarrow> 'c \<Rightarrow> 'c result"
    and lookup :: "'c \<Rightarrow> string \<Rightarrow> 'o option" and invar :: "'c \<Rightarrow> bool" and good :: "'o \<Rightarrow> bool"
  assumes invar_added: "invar c \<Longrightarrow> good obj \<Longrightarrow> invar (added obj c)"
    and lookup_added: "invar c \<Longrightarrow> good obj \<Longrightarrow> lookup (added obj c) k = (if k = key obj then Some obj else lookup c k)"
    and deleted_total: "invar c \<Longrightarrow> \<exists>c'. deleted k c = Inr c'"
    and invar_deleted: "invar c \<Longrightarrow> deleted k c = Inr c' \<Longrightarrow> invar c'"
    and lookup_deleted: "invar c \<Longrightarrow> deleted k c = Inr c' \<Longrightarrow> lookup c' k' = (if k' = k then None else lookup c k')"
begin

lemma step_enabled:
  assumes "invar (content c)" "queued c \<noteq> 0"
  shows "\<exists>c'. run_step added deleted c c'"
proof (cases "addCh c")
  case Nil
  then obtain k ks where "deleteCh c = k # ks" using assms(2) by (auto simp: queued_def neq_Nil_conv)
  then show ?thesis using deleted_total [OF assms(1), of k] by (blast intro: run_step.intros)
qed (blast intro: run_step.intros)

lemma step_keeps:
  assumes "run_step added deleted c c'" "invar (content c)" "\<forall>obj \<in> set (addCh c). good obj"
  shows "invar (content c')" "\<forall>obj \<in> set (addCh c'). good obj" "queued c = Suc (queued c')"
    "possible key lookup c' k \<subseteq> possible key lookup c k"
  using assms
  by (auto elim!: run_stepE simp: queued_def invar_added invar_deleted possible_def lookup_added lookup_deleted Let_def
      split: if_splits)

lemma steps_keep:
  assumes "(run_step added deleted ^^ m) c c'" "invar (content c)" "\<forall>obj \<in> set (addCh c). good obj"
  shows "invar (content c') \<and> (\<forall>obj \<in> set (addCh c'). good obj) \<and> m + queued c' = queued c \<and>
    (\<forall>k. possible key lookup c' k \<subseteq> possible key lookup c k)"
  using assms(1)
proof (induction m arbitrary: c')
  case (Suc m)
  then obtain d where d: "(run_step added deleted ^^ m) c d" "run_step added deleted d c'" by auto
  have "invar (content d)" "\<forall>obj \<in> set (addCh d). good obj" using Suc.IH [OF d(1)] by blast+
  note keeps = step_keeps [OF d(2) this]
  have "possible key lookup c' k \<subseteq> possible key lookup c k" for k
    using keeps(4) Suc.IH [OF d(1)] by (blast dest: subsetD)
  then show ?case using Suc.IH [OF d(1)] keeps(1-3) by simp
qed (use assms(2,3) in simp)

lemma contract_converges:
  assumes "invar (content c)" "\<forall>obj \<in> set (addCh c). good obj"
  shows "converges key added deleted lookup c"
  unfolding converges_def
proof (intro allI impI conjI)
  fix m c'
  assume run: "(run_step added deleted ^^ m) c c'"
  note keep = steps_keep [OF run assms]
  show "m + queued c' = queued c" using keep by blast
  show "\<exists>c''. run_step added deleted c' c''" if "queued c' \<noteq> 0" using step_enabled keep that by blast
  show "lookup (content c') k \<in> possible key lookup c k" if "queued c' = 0" for k
  proof -
    have "possible key lookup c' k = {lookup (content c') k}" using that by (simp add: queued_def possible_def)
    then show ?thesis using keep by blast
  qed
qed

end

interpretation ns_contract: cache_contract v1_NS_Name ns_resourceAdded ns_resourceDeleted map_of "\<lambda>_. True" "\<lambda>_. True"
  by unfold_locales (auto simp: ns_resourceAdded_def ns_resourceDeleted_def)

interpretation nsm_contract: cache_contract v1_NSM_Name nsm_resourceAdded nsm_resourceDeleted map_of "\<lambda>_. True" "\<lambda>_. True"
  by unfold_locales (auto simp: nsm_resourceAdded_def nsm_resourceDeleted_def)

subsection \<open>The endpoint cache and its reference\<close>

text \<open>
  The reference is one list of endpoints: a new name is appended, a known one
  replaced where it is, a deletion removes it. The endpoints of a service are those
  of the list that name it. An endpoint never changes its service: \<open>svc\<close> assigns services to names.
\<close>

definition ref_added :: "v1_NetworkServiceEndpoint \<Rightarrow> v1_NetworkServiceEndpoint list \<Rightarrow> v1_NetworkServiceEndpoint list" where
  "ref_added e xs =
     (if v1_NSE_Name e \<in> v1_NSE_Name ` set xs then map (\<lambda>x. if v1_NSE_Name x = v1_NSE_Name e then e else x) xs
      else xs @ [e])"

definition ref_deleted :: "string \<Rightarrow> v1_NetworkServiceEndpoint list \<Rightarrow> v1_NetworkServiceEndpoint list" where
  "ref_deleted k xs = filter (\<lambda>x. v1_NSE_Name x \<noteq> k) xs"

definition of_service :: "string \<Rightarrow> v1_NetworkServiceEndpoint list \<Rightarrow> v1_NetworkServiceEndpoint list" where
  "of_service ns xs = filter (\<lambda>x. v1_NetworkServiceName x = ns) xs"

definition nse_good :: "(string \<Rightarrow> string) \<Rightarrow> v1_NetworkServiceEndpoint \<Rightarrow> bool" where
  "nse_good svc e \<longleftrightarrow> v1_NetworkServiceName e = svc (v1_NSE_Name e)"

definition represents :: "(string \<Rightarrow> string) \<Rightarrow> NetworkServiceEndpointCache \<Rightarrow> v1_NetworkServiceEndpoint list \<Rightarrow> bool" where
  "represents svc c xs \<longleftrightarrow> distinct (map v1_NSE_Name xs) \<and> (\<forall>x \<in> set xs. nse_good svc x) \<and>
     (\<forall>k x. map_of (networkServiceEndpoints c) k = Some x \<longleftrightarrow> x \<in> set xs \<and> v1_NSE_Name x = k) \<and>
     (\<forall>ns. nse_Get c ns = of_service ns xs)"

lemma replace_nse_map:
  "distinct (map v1_NSE_Name es) \<Longrightarrow>
    replace_nse e es = map (\<lambda>x. if v1_NSE_Name x = v1_NSE_Name e then e else x) es"
  by (induction es) (auto simp: image_iff intro!: map_idI [symmetric])

lemma index_from_split:
  assumes "distinct (map v1_NSE_Name es)" "x \<in> set es" "v1_NSE_Name x = k"
  shows "i \<le> index_from i k es \<and> index_from i k es - i < length es \<and>
    take (index_from i k es - i) es @ drop (Suc (index_from i k es - i)) es = filter (\<lambda>e. v1_NSE_Name e \<noteq> k) es"
  using assms
proof (induction es arbitrary: i)
  case (Cons e es)
  show ?case
  proof (cases "k = v1_NSE_Name e")
    case True
    then have "filter (\<lambda>e. v1_NSE_Name e \<noteq> k) es = es" using Cons.prems by (auto simp: filter_id_conv image_iff)
    then show ?thesis using True by simp
  next
    case False
    with Cons.prems Cons.IH [of "Suc i"] have "Suc i \<le> index_from (Suc i) k es"
      "index_from (Suc i) k es - Suc i < length es"
      "take (index_from (Suc i) k es - Suc i) es @ drop (Suc (index_from (Suc i) k es - Suc i)) es =
        filter (\<lambda>e. v1_NSE_Name e \<noteq> k) es" by auto
    moreover from this(1) have "index_from (Suc i) k es - i = Suc (index_from (Suc i) k es - Suc i)" by simp
    ultimately show ?thesis using False by simp
  qed
qed simp

lemma distinct_of_service: "distinct (map v1_NSE_Name xs) \<Longrightarrow> distinct (map v1_NSE_Name (of_service ns xs))"
  by (simp add: of_service_def distinct_map_filter)

lemma nse_Get_update:
  "nse_Get (c\<lparr>nseByNs := AList.update ns es m\<rparr>) ns' = (if ns' = ns then es else case map_of m ns' of None \<Rightarrow> [] | Some es \<Rightarrow> es)"
  by (simp add: nse_Get_def)

lemma represents_new:
  assumes r: "represents svc c xs" "nse_good svc e" and new: "v1_NSE_Name e \<notin> v1_NSE_Name ` set xs"
  shows "represents svc (nse_resourceAdded e c) (ref_added e xs)"
proof -
  have "map_of (networkServiceEndpoints c) (v1_NSE_Name e) = None"
    using r(1) new by (cases "map_of (networkServiceEndpoints c) (v1_NSE_Name e)") (auto simp: represents_def image_iff)
  moreover have "nse_Get c ns = of_service ns xs" for ns using r(1) by (simp add: represents_def)
  ultimately show ?thesis
    using r new by (auto simp: represents_def nse_resourceAdded_def ref_added_def nse_Get_def of_service_def Let_def image_iff)
qed

lemma represents_known:
  assumes r: "represents svc c xs" "nse_good svc e" and known: "v1_NSE_Name e \<in> v1_NSE_Name ` set xs"
  shows "represents svc (nse_resourceAdded e c) (ref_added e xs)"
proof -
  let ?f = "\<lambda>x. if v1_NSE_Name x = v1_NSE_Name e then e else x"
  obtain x where x: "x \<in> set xs" "v1_NSE_Name x = v1_NSE_Name e" using known by (metis imageE)
  have svc: "v1_NetworkServiceName y = v1_NetworkServiceName e" if "y \<in> set xs" "v1_NSE_Name y = v1_NSE_Name e" for y
    using r that by (simp add: represents_def nse_good_def)
  let ?ns = "v1_NetworkServiceName e"
  have "x \<in> set (nse_Get c ?ns)" using r(1) x svc by (simp add: represents_def of_service_def)
  then have "map_of (nseByNs c) ?ns \<noteq> None" by (cases "map_of (nseByNs c) ?ns") (simp_all add: nse_Get_def)
  moreover have "map_of (networkServiceEndpoints c) (v1_NSE_Name e) = Some x" using r(1) x by (simp add: represents_def)
  ultimately have added: "nse_resourceAdded e c = \<lparr>nseByNs = AList.update ?ns (replace_nse e (nse_Get c ?ns)) (nseByNs c),
      networkServiceEndpoints = AList.update (v1_NSE_Name e) e (networkServiceEndpoints c)\<rparr>"
    by (auto simp: nse_resourceAdded_def Let_def)
  have ref: "ref_added e xs = map ?f xs" using known by (simp add: ref_added_def)
  have names: "map v1_NSE_Name (map ?f xs) = map v1_NSE_Name xs" by simp
  have "filter (\<lambda>x. v1_NetworkServiceName (?f x) = ns) xs = of_service ns xs" for ns
    unfolding of_service_def using svc by (intro filter_cong) auto
  then have filtered: "of_service ns (map ?f xs) = map ?f (of_service ns xs)" for ns
    by (simp add: of_service_def filter_map o_def)
  have "nse_Get (nse_resourceAdded e c) ns = of_service ns (map ?f xs)" for ns
  proof (cases "ns = ?ns")
    case True
    then show ?thesis
      using r(1) replace_nse_map [OF distinct_of_service, of xs e ns] unfolding added filtered
      by (simp add: nse_Get_def represents_def)
  next
    case False
    then have "map ?f (of_service ns xs) = of_service ns xs" using svc by (intro map_idI) (auto simp: of_service_def)
    then show ?thesis using r(1) False unfolding added filtered by (simp add: nse_Get_def represents_def)
  qed
  moreover have "map_of (networkServiceEndpoints (nse_resourceAdded e c)) k = Some y \<longleftrightarrow>
      y \<in> set (map ?f xs) \<and> v1_NSE_Name y = k" for k y
    using r(1) x unfolding added by (auto simp: represents_def)
  moreover have "distinct (map v1_NSE_Name (map ?f xs))" unfolding names using r(1) by (simp add: represents_def)
  moreover have "\<forall>y \<in> set (map ?f xs). nse_good svc y" using r by (auto simp: represents_def)
  ultimately show ?thesis unfolding ref represents_def by blast
qed

lemma represents_added:
  "represents svc c xs \<Longrightarrow> nse_good svc e \<Longrightarrow> represents svc (nse_resourceAdded e c) (ref_added e xs)"
  using represents_new represents_known by blast

lemma represents_deleted:
  assumes r: "represents svc c xs"
  shows "\<exists>c'. nse_resourceDeleted k c = Inr c' \<and> represents svc c' (ref_deleted k xs)"
proof (cases "map_of (networkServiceEndpoints c) k")
  case None
  then have "v1_NSE_Name x \<noteq> k" if "x \<in> set xs" for x
    using r that unfolding represents_def by (metis option.distinct(1))
  then have "ref_deleted k xs = xs" by (simp add: ref_deleted_def filter_id_conv)
  then show ?thesis using None r by (simp add: nse_resourceDeleted_def)
next
  case (Some x)
  let ?ns = "v1_NetworkServiceName x"
  have x: "x \<in> set xs" "v1_NSE_Name x = k" using r Some by (auto simp: represents_def)
  have same: "y = x" if "y \<in> set xs" "v1_NSE_Name y = k" for y
    using r that x by (auto simp: represents_def distinct_map inj_on_def)
  have es: "nse_Get c ?ns = of_service ?ns xs" using r by (simp add: represents_def)
  have "x \<in> set (of_service ?ns xs)" using x by (simp add: of_service_def)
  moreover have "distinct (map v1_NSE_Name (of_service ?ns xs))" using r by (simp add: represents_def distinct_of_service)
  ultimately have idx: "index_from 0 k (of_service ?ns xs) < length (of_service ?ns xs)"
      "take (index_from 0 k (of_service ?ns xs)) (of_service ?ns xs) @ drop (Suc (index_from 0 k (of_service ?ns xs))) (of_service ?ns xs) =
        ref_deleted k (of_service ?ns xs)"
    using index_from_split [of "of_service ?ns xs" x k 0] x by (simp_all add: ref_deleted_def)
  have comm: "ref_deleted k (of_service ns xs) = of_service ns (ref_deleted k xs)" for ns
    by (simp add: ref_deleted_def of_service_def conj_commute)
  let ?c = "\<lparr>nseByNs = (if of_service ?ns (ref_deleted k xs) = [] then AList.delete ?ns (nseByNs c)
      else AList.update ?ns (of_service ?ns (ref_deleted k xs)) (nseByNs c)),
    networkServiceEndpoints = AList.delete k (networkServiceEndpoints c)\<rparr>"
  have "nse_resourceDeleted k c = Inr ?c"
    using Some es idx x(2) comm by (simp add: nse_resourceDeleted_def Let_def)
  moreover have "nse_Get ?c ns = of_service ns (ref_deleted k xs)" for ns
  proof (cases "ns = ?ns")
    case False
    then have "of_service ns (ref_deleted k xs) = of_service ns xs"
      using same unfolding of_service_def ref_deleted_def filter_filter by (intro filter_cong) auto
    then show ?thesis using False r by (simp add: nse_Get_def represents_def)
  qed (simp add: nse_Get_def)
  then have "represents svc ?c (ref_deleted k xs)"
    using r by (auto simp: represents_def ref_deleted_def distinct_map_filter)
  ultimately show ?thesis by blast
qed

datatype cache_op = CAdd v1_NetworkServiceEndpoint | CDel string

fun cache_ops :: "cache_op list \<Rightarrow> NetworkServiceEndpointCache \<Rightarrow> NetworkServiceEndpointCache result" where
  "cache_ops [] c = Inr c"
| "cache_ops (CAdd e # ops) c = cache_ops ops (nse_resourceAdded e c)"
| "cache_ops (CDel k # ops) c = (case nse_resourceDeleted k c of Inl e \<Rightarrow> Inl e | Inr c' \<Rightarrow> cache_ops ops c')"

fun ref_ops :: "cache_op list \<Rightarrow> v1_NetworkServiceEndpoint list \<Rightarrow> v1_NetworkServiceEndpoint list" where
  "ref_ops [] xs = xs"
| "ref_ops (CAdd e # ops) xs = ref_ops ops (ref_added e xs)"
| "ref_ops (CDel k # ops) xs = ref_ops ops (ref_deleted k xs)"

lemma represents_ops:
  "represents svc c xs \<Longrightarrow> \<forall>e. CAdd e \<in> set ops \<longrightarrow> nse_good svc e \<Longrightarrow>
    \<exists>c'. cache_ops ops c = Inr c' \<and> represents svc c' (ref_ops ops xs)"
proof (induction ops c arbitrary: xs rule: cache_ops.induct)
  case (3 k ops c)
  obtain c1 where "nse_resourceDeleted k c = Inr c1" "represents svc c1 (ref_deleted k xs)"
    using represents_deleted [OF 3(2)] by blast
  then show ?case using 3(1) 3(3) by simp
qed (auto intro: represents_added)


definition ex_nse :: "string \<Rightarrow> v1_NetworkServiceEndpoint" where
  "ex_nse name = \<lparr>v1_NSE_Name = name, v1_Labels = [], v1_NetworkServiceName = ''vpn'', v1_NsmName = ''nsm-1'', v1_NSE_State = ''RUNNING''\<rparr>"


subsection \<open>Convergence\<close>

definition nse_lookup :: "NetworkServiceEndpointCache \<Rightarrow> string \<Rightarrow> v1_NetworkServiceEndpoint option" where
  "nse_lookup c k = map_of (networkServiceEndpoints c) k"

definition nse_invar :: "(string \<Rightarrow> string) \<Rightarrow> NetworkServiceEndpointCache \<Rightarrow> bool" where
  "nse_invar svc c \<longleftrightarrow> (\<exists>xs. represents svc c xs)"

lemma nse_deleted_lookup:
  "nse_resourceDeleted k c = Inr c' \<Longrightarrow> nse_lookup c' k' = (if k' = k then None else nse_lookup c k')"
  by (auto simp: nse_resourceDeleted_def nse_lookup_def Let_def split: option.splits if_splits)

interpretation nse_contract: cache_contract v1_NSE_Name nse_resourceAdded nse_resourceDeleted nse_lookup "nse_invar svc" "nse_good svc"
  for svc
proof
  fix c obj k c' k'
  assume inv: "nse_invar svc c"
  show "nse_good svc obj \<Longrightarrow> nse_invar svc (nse_resourceAdded obj c)"
    using inv represents_added unfolding nse_invar_def by blast
  show "nse_lookup (nse_resourceAdded obj c) k = (if k = v1_NSE_Name obj then Some obj else nse_lookup c k)"
    by (simp add: nse_lookup_def nse_resourceAdded_def Let_def)
  show "\<exists>c'. nse_resourceDeleted k c = Inr c'"
    using inv represents_deleted unfolding nse_invar_def by blast
  show "nse_resourceDeleted k c = Inr c' \<Longrightarrow> nse_invar svc c'"
    using inv represents_deleted unfolding nse_invar_def by (metis sum.inject(2))
  show "nse_resourceDeleted k c = Inr c' \<Longrightarrow> nse_lookup c' k' = (if k' = k then None else nse_lookup c k')"
    by (rule nse_deleted_lookup)
qed


definition ex_cache :: "(v1_NetworkServiceEndpoint, NetworkServiceEndpointCache) abstractResourceCache" where
  "ex_cache = \<lparr>addCh = [ex_nse ''a''], deleteCh = [''a''], content = empty_nse_cache\<rparr>"

lemma ex_cache_invar: "nse_invar svc (content ex_cache)"
  unfolding nse_invar_def ex_cache_def
  by (rule exI [of _ "[]"]) (simp add: represents_def empty_nse_cache_def nse_Get_def of_service_def)


text \<open>
  Both outcomes of an addition and a deletion of the same name happen: a deletion can be
  handled before the addition it follows, and the endpoint then stays.
\<close>

lemma deletion_overtakes:
  "\<exists>c. (run_step nse_resourceAdded nse_resourceDeleted ^^ 2) ex_cache c \<and> queued c = 0 \<and>
    nse_lookup (content c) ''a'' = Some (ex_nse ''a'')"
proof -
  let ?d = "ex_cache\<lparr>deleteCh := []\<rparr>"
  let ?c = "?d\<lparr>addCh := [], content := nse_resourceAdded (ex_nse ''a'') empty_nse_cache\<rparr>"
  have "run_step nse_resourceAdded nse_resourceDeleted ex_cache ?d"
    using run_deleted [of ex_cache "''a''" "[]" nse_resourceDeleted empty_nse_cache nse_resourceAdded]
    by (simp add: ex_cache_def nse_resourceDeleted_def empty_nse_cache_def)
  moreover have "run_step nse_resourceAdded nse_resourceDeleted ?d ?c"
    using run_added [of ?d "ex_nse ''a''" "[]" nse_resourceAdded nse_resourceDeleted] by (simp add: ex_cache_def)
  ultimately have "(run_step nse_resourceAdded nse_resourceDeleted ^^ 2) ex_cache ?c"
    by (auto simp: numeral_2_eq_2)
  moreover have "nse_lookup (content ?c) ''a'' = Some (ex_nse ''a'')"
    by (simp add: nse_lookup_def nse_resourceAdded_def ex_nse_def Let_def)
  ultimately show ?thesis by (intro exI [of _ ?c]) (simp add: queued_def)
qed

text \<open>
  An endpoint that comes back under another service is listed under neither, and its
  deletion removes some other endpoint of the new service.
\<close>

lemma moved_endpoint_misdeleted:
  "cache_ops [CAdd (ex_nse ''a''), CAdd ((ex_nse ''b'')\<lparr>v1_NetworkServiceName := ''dns''\<rparr>),
     CAdd ((ex_nse ''a'')\<lparr>v1_NetworkServiceName := ''dns''\<rparr>), CDel ''a''] empty_nse_cache =
   Inr \<lparr>nseByNs = [(''vpn'', [ex_nse ''a''])], networkServiceEndpoints = [(''b'', (ex_nse ''b'')\<lparr>v1_NetworkServiceName := ''dns''\<rparr>)]\<rparr>"
  by (simp add: ex_nse_def nse_resourceAdded_def nse_resourceDeleted_def empty_nse_cache_def nse_Get_def Let_def)

end
