(* ===== verification/RegistryServer.thy ===== *)
theory RegistryServer
  imports ResourceCache
begin

text \<open>
  The Kubernetes registry server (\<open>k8s/pkg/registryserver\<close>): registrations create objects
  with the API server and put them into the caches, discovery answers from the caches.
  The answers of the API server are arguments; as the generated client does, it may
  answer with an object and an error at once. Time stamps are not modelled. A result \<open>None\<close>
  means that the call waits for room in a channel.
\<close>

subsection \<open>The registry cache\<close>

datatype api_error = AlreadyExists | ApiError string

record api_env =
  e_CreateNS :: "v1_NetworkService \<Rightarrow> v1_NetworkService option \<times> api_error option"
  e_CreateNSE :: "string \<Rightarrow> v1_NetworkServiceEndpoint \<Rightarrow> v1_NetworkServiceEndpoint option \<times> api_error option"
  e_CreateNSM :: "v1_NetworkServiceManager \<Rightarrow> v1_NetworkServiceManager option \<times> api_error option"
  e_DeleteNSE :: "string \<Rightarrow> api_error option"

record registryCacheImpl =
  networkServiceCache :: "(v1_NetworkService, (string, v1_NetworkService) gomap) abstractResourceCache"
  networkServiceEndpointCache :: "(v1_NetworkServiceEndpoint, NetworkServiceEndpointCache) abstractResourceCache"
  networkServiceManagerCache :: "(v1_NetworkServiceManager, (string, v1_NetworkServiceManager) gomap) abstractResourceCache"

definition NewRegistryCache :: registryCacheImpl where
  "NewRegistryCache = \<lparr>networkServiceCache = newAbstractResourceCache [],
     networkServiceEndpointCache = newAbstractResourceCache empty_nse_cache,
     networkServiceManagerCache = newAbstractResourceCache []\<rparr>"

definition AddNetworkService :: "api_env \<Rightarrow> v1_NetworkService \<Rightarrow> registryCacheImpl \<Rightarrow>
    ((v1_NetworkService option \<times> api_error option) \<times> registryCacheImpl) option" where
  "AddNetworkService env ns rc =
     (case e_CreateNS env ns of
        (None, err) \<Rightarrow> Some ((None, err), rc)
      | (Some r, err) \<Rightarrow>
          map_option (\<lambda>c. ((Some r, err), rc\<lparr>networkServiceCache := c\<rparr>)) (cache_add r (networkServiceCache rc)))"

definition GetNetworkService :: "string \<Rightarrow> registryCacheImpl \<Rightarrow> v1_NetworkService result" where
  "GetNetworkService name rc =
     (case map_of (content (networkServiceCache rc)) name of
        None \<Rightarrow> Inl (Errorf ''no NetworkService with name: %v'')
      | Some ns \<Rightarrow> Inr ns)"

text \<open>The API server completes the given prefix to the name of a new endpoint.\<close>

definition AddNetworkServiceEndpoint :: "api_env \<Rightarrow> string \<Rightarrow> v1_NetworkServiceEndpoint \<Rightarrow> registryCacheImpl \<Rightarrow>
    ((v1_NetworkServiceEndpoint option \<times> api_error option) \<times> registryCacheImpl) option" where
  "AddNetworkServiceEndpoint env generateName nse rc =
     (case e_CreateNSE env generateName nse of
        (None, err) \<Rightarrow> Some ((None, err), rc)
      | (Some r, err) \<Rightarrow>
          map_option (\<lambda>c. ((Some r, err), rc\<lparr>networkServiceEndpointCache := c\<rparr>)) (cache_add r (networkServiceEndpointCache rc)))"

definition DeleteNetworkServiceEndpoint :: "api_env \<Rightarrow> string \<Rightarrow> registryCacheImpl \<Rightarrow>
    (api_error option \<times> registryCacheImpl) option" where
  "DeleteNetworkServiceEndpoint env endpointName rc =
     map_option (\<lambda>c. (e_DeleteNSE env endpointName, rc\<lparr>networkServiceEndpointCache := c\<rparr>))
       (cache_delete endpointName (networkServiceEndpointCache rc))"

definition cached_endpoints :: "string \<Rightarrow> registryCacheImpl \<Rightarrow> v1_NetworkServiceEndpoint list" where
  "cached_endpoints networkServiceName rc = nse_Get (content (networkServiceEndpointCache rc)) networkServiceName"

definition AddNetworkServiceManager :: "api_env \<Rightarrow> v1_NetworkServiceManager \<Rightarrow> registryCacheImpl \<Rightarrow>
    ((v1_NetworkServiceManager option \<times> api_error option) \<times> registryCacheImpl) option" where
  "AddNetworkServiceManager env nsm rc =
     (case e_CreateNSM env nsm of
        (None, err) \<Rightarrow> Some ((None, err), rc)
      | (Some r, err) \<Rightarrow>
          map_option (\<lambda>c. ((Some r, err), rc\<lparr>networkServiceManagerCache := c\<rparr>)) (cache_add r (networkServiceManagerCache rc)))"

definition GetNetworkServiceManager :: "string \<Rightarrow> registryCacheImpl \<Rightarrow> v1_NetworkServiceManager result" where
  "GetNetworkServiceManager name rc =
     (case map_of (content (networkServiceManagerCache rc)) name of
        None \<Rightarrow> Inl (Errorf ''no NetworkServiceManager with name: %v'')
      | Some nsm \<Rightarrow> Inr nsm)"

subsection \<open>Registration\<close>

definition failed :: "api_error option \<Rightarrow> bool" where
  "failed err \<longleftrightarrow> err \<noteq> None \<and> err \<noteq> Some AlreadyExists"

definition api_failure :: "api_error option \<Rightarrow> error" where
  "api_failure err = (case err of Some (ApiError s) \<Rightarrow> Errorf s | _ \<Rightarrow> Errorf ''already exists'')"

definition request_url :: "NSERegistration \<Rightarrow> string" where
  "request_url request = (case Reg_NetworkServiceManager request of None \<Rightarrow> '''' | Some m \<Rightarrow> NSM_Url m)"

definition endpoint_labels :: "NSERegistration \<Rightarrow> (string, string) gomap" where
  "endpoint_labels request =
     AList.update ''networkservicename'' (case Reg_NetworkService request of None \<Rightarrow> '''' | Some ns \<Rightarrow> NS_Name ns)
       (case Reg_NetworkserviceEndpoint request of None \<Rightarrow> [] | Some e \<Rightarrow> NSE_Labels e)"

text \<open>The second half: the service and the endpoint, whose objects the answer is made of.\<close>

definition register_endpoint :: "api_env \<Rightarrow> string \<Rightarrow> NSERegistration \<Rightarrow> NetworkService \<Rightarrow> registryCacheImpl \<Rightarrow>
    (NSERegistration result \<times> registryCacheImpl) option" where
  "register_endpoint env nsmName request ns rc =
     (case AddNetworkService env \<lparr>v1_NS_Name = NS_Name ns, v1_Payload = NS_Payload ns, v1_Matches = []\<rparr> rc of
        None \<Rightarrow> None
      | Some ((networkService, err), rc1) \<Rightarrow>
          if failed err then Some (Inl (api_failure err), rc1)
          else
            (case AddNetworkServiceEndpoint env (NS_Name ns)
                    \<lparr>v1_NSE_Name = '''', v1_Labels = endpoint_labels request, v1_NetworkServiceName = NS_Name ns,
                     v1_NsmName = nsmName, v1_NSE_State = ''RUNNING''\<rparr> rc1 of
               None \<Rightarrow> None
             | Some ((nseResponse, err2), rc2) \<Rightarrow>
                 if err2 \<noteq> None then Some (Inl (api_failure err2), rc2)
                 else
                   (case (nseResponse, networkService) of
                      (Some nse, Some svc) \<Rightarrow>
                        Some (Inr (request\<lparr>Reg_NetworkserviceEndpoint := Some
                          \<lparr>NSE_NetworkServiceName = v1_NetworkServiceName nse, NSE_Payload = v1_Payload svc,
                           NSE_NetworkServiceManagerName = nsmName, NSE_EndpointName = v1_NSE_Name nse,
                           NSE_Labels = v1_Labels nse, NSE_State = v1_NSE_State nse\<rparr>\<rparr>), rc2)
                    | _ \<Rightarrow> Some (Inl (Panic ''nil dereference''), rc2))))"

definition k8s_RegisterNSE :: "api_env \<Rightarrow> string \<Rightarrow> NSERegistration \<Rightarrow> registryCacheImpl \<Rightarrow>
    (NSERegistration result \<times> registryCacheImpl) option" where
  "k8s_RegisterNSE env nsmName request rc =
     (if request_url request = '''' then
        Some (Inl (Errorf ''NSERegistration.NetworkServiceManager.Url must be defined''), rc)
      else
        (case AddNetworkServiceManager env \<lparr>v1_NSM_Name = nsmName, v1_URL = request_url request, v1_NSM_State = ''RUNNING''\<rparr> rc of
           None \<Rightarrow> None
         | Some ((_, err), rc1) \<Rightarrow>
             if failed err then Some (Inl (api_failure err), rc1)
             else
               (let request1 = request\<lparr>Reg_NetworkServiceManager :=
                      Some \<lparr>NSM_Name = nsmName, NSM_Url = request_url request, NSM_State = ''RUNNING''\<rparr>\<rparr>
                in case (Reg_NetworkserviceEndpoint request, Reg_NetworkService request) of
                     (Some _, Some ns) \<Rightarrow> register_endpoint env nsmName request1 ns rc1
                   | _ \<Rightarrow> Some (Inr request1, rc1))))"

definition k8s_RemoveNSE :: "api_env \<Rightarrow> string \<Rightarrow> registryCacheImpl \<Rightarrow> (error option \<times> registryCacheImpl) option" where
  "k8s_RemoveNSE env endpointName rc =
     map_option (\<lambda>(err, rc1). (if err = None then None else Some (api_failure err), rc1))
       (DeleteNetworkServiceEndpoint env endpointName rc)"

subsection \<open>Discovery\<close>

definition found_endpoint :: "string \<Rightarrow> v1_NetworkServiceEndpoint \<Rightarrow> NetworkServiceEndpoint" where
  "found_endpoint payload e = \<lparr>NSE_NetworkServiceName = v1_NetworkServiceName e, NSE_Payload = payload,
     NSE_NetworkServiceManagerName = v1_NsmName e, NSE_EndpointName = v1_NSE_Name e, NSE_Labels = v1_Labels e, NSE_State = ''''\<rparr>"

definition found_manager :: "v1_NetworkServiceManager \<Rightarrow> NetworkServiceManager" where
  "found_manager m = \<lparr>NSM_Name = v1_NSM_Name m, NSM_Url = v1_URL m, NSM_State = ''''\<rparr>"

text \<open>The loop over the endpoints; \<open>reg\<close> remembers the managers that were looked up.\<close>

fun find_managers :: "registryCacheImpl \<Rightarrow> v1_NetworkServiceEndpoint list \<Rightarrow> (string, v1_NetworkServiceManager) gomap \<Rightarrow>
    (string, NetworkServiceManager) gomap \<Rightarrow> (string, NetworkServiceManager) gomap result" where
  "find_managers rc [] reg nsms = Inr nsms"
| "find_managers rc (e # es) reg nsms =
     (case map_of reg (v1_NsmName e) of
        Some m \<Rightarrow> find_managers rc es reg (AList.update (v1_NsmName e) (found_manager m) nsms)
      | None \<Rightarrow>
          (case GetNetworkServiceManager (v1_NsmName e) rc of
             Inl err \<Rightarrow> Inl err
           | Inr m \<Rightarrow> find_managers rc es (AList.update (v1_NsmName e) m reg)
                        (AList.update (v1_NsmName e) (found_manager m) nsms)))"

definition k8s_FindNetworkService :: "string \<Rightarrow> registryCacheImpl \<Rightarrow> FindNetworkServiceResponse result" where
  "k8s_FindNetworkService name rc =
     (case GetNetworkService name rc of
        Inl e \<Rightarrow> Inl e
      | Inr service \<Rightarrow>
          (case find_managers rc (cached_endpoints name rc) [] [] of
             Inl e \<Rightarrow> Inl e
           | Inr nsms \<Rightarrow>
               Inr \<lparr>F_Payload = v1_Payload service,
                 F_NetworkService = Some \<lparr>NS_Name = v1_NS_Name service, NS_Payload = v1_Payload service,
                   NS_Matches = v1_Matches service\<rparr>,
                 F_NetworkServiceManagers = nsms,
                 F_NetworkServiceEndpoints = map (found_endpoint (v1_Payload service)) (cached_endpoints name rc)\<rparr>))"

subsection \<open>What discovery answers\<close>

abbreviation "known_managers rc \<equiv> map_of (content (networkServiceManagerCache rc))"
abbreviation "known_services rc \<equiv> map_of (content (networkServiceCache rc))"

lemma find_managers_ok:
  assumes "\<forall>e \<in> set es. known_managers rc (v1_NsmName e) \<noteq> None" "map_of reg \<subseteq>\<^sub>m known_managers rc"
  shows "\<exists>nsms'. find_managers rc es reg nsms = Inr nsms' \<and>
    (\<forall>k. map_of nsms' k = (if k \<in> v1_NsmName ` set es then map_option found_manager (known_managers rc k) else map_of nsms k))"
  using assms
proof (induction es arbitrary: reg nsms)
  case (Cons e es)
  obtain m where m: "known_managers rc (v1_NsmName e) = Some m" using Cons.prems(1) by auto
  let ?nsms = "AList.update (v1_NsmName e) (found_manager m) nsms"
  have next_step: "\<exists>reg'. find_managers rc (e # es) reg nsms = find_managers rc es reg' ?nsms \<and> map_of reg' \<subseteq>\<^sub>m known_managers rc"
  proof (cases "map_of reg (v1_NsmName e)")
    case None
    then show ?thesis using m Cons.prems(2)
      by (intro exI [of _ "AList.update (v1_NsmName e) m reg"]) (auto simp: GetNetworkServiceManager_def map_le_def)
  next
    case (Some m')
    then have "m' = m" using Cons.prems(2) m by (metis domI map_le_def option.inject)
    then show ?thesis using Some Cons.prems(2) by (intro exI [of _ reg]) simp
  qed
  then obtain reg' where "find_managers rc (e # es) reg nsms = find_managers rc es reg' ?nsms"
      "map_of reg' \<subseteq>\<^sub>m known_managers rc" by blast
  then show ?case using Cons.IH [of reg' ?nsms] Cons.prems(1) m by auto
qed simp

lemma find_exact:
  assumes "known_services rc name = Some service" "\<forall>e \<in> set (cached_endpoints name rc). known_managers rc (v1_NsmName e) \<noteq> None"
  shows "\<exists>resp. k8s_FindNetworkService name rc = Inr resp \<and> F_Payload resp = v1_Payload service \<and>
    F_NetworkServiceEndpoints resp = map (found_endpoint (v1_Payload service)) (cached_endpoints name rc) \<and>
    (\<forall>k. map_of (F_NetworkServiceManagers resp) k =
       (if k \<in> v1_NsmName ` set (cached_endpoints name rc) then map_option found_manager (known_managers rc k) else None))"
  using find_managers_ok [OF assms(2), of "[]" "[]"] assms(1)
  by (auto simp: k8s_FindNetworkService_def GetNetworkService_def)

subsection \<open>Registered endpoints are found\<close>

definition idle :: "registryCacheImpl \<Rightarrow> bool" where
  "idle rc \<longleftrightarrow> queued (networkServiceCache rc) = 0 \<and> queued (networkServiceEndpointCache rc) = 0 \<and>
     queued (networkServiceManagerCache rc) = 0"

text \<open>The caches after their goroutines have handled everything that was queued.\<close>

definition settles :: "registryCacheImpl \<Rightarrow> registryCacheImpl \<Rightarrow> bool" where
  "settles rc rc' \<longleftrightarrow> idle rc' \<and>
     (run_step ns_resourceAdded ns_resourceDeleted)\<^sup>*\<^sup>* (networkServiceCache rc) (networkServiceCache rc') \<and>
     (run_step nse_resourceAdded nse_resourceDeleted)\<^sup>*\<^sup>* (networkServiceEndpointCache rc) (networkServiceEndpointCache rc') \<and>
     (run_step nsm_resourceAdded nsm_resourceDeleted)\<^sup>*\<^sup>* (networkServiceManagerCache rc) (networkServiceManagerCache rc')"

definition endpoints_known :: "registryCacheImpl \<Rightarrow> bool" where
  "endpoints_known rc \<longleftrightarrow> (\<forall>k e. nse_lookup (content (networkServiceEndpointCache rc)) k = Some e \<longrightarrow>
     known_managers rc (v1_NsmName e) \<noteq> None)"

text \<open>
  The documented answers of the API server: an object is created as given, under a
  new name for an endpoint, or refused because it is there already, with an object
  without a name as the generated client returns it.
\<close>

definition creates_service :: "api_env \<Rightarrow> registryCacheImpl \<Rightarrow> NetworkService \<Rightarrow> bool" where
  "creates_service env rc ns \<longleftrightarrow>
     (let n = \<lparr>v1_NS_Name = NS_Name ns, v1_Payload = NS_Payload ns, v1_Matches = []\<rparr> in
      e_CreateNS env n = (Some n, None) \<or>
      known_services rc (NS_Name ns) \<noteq> None \<and> NS_Name ns \<noteq> '''' \<and>
      (\<exists>r. e_CreateNS env n = (Some r, Some AlreadyExists) \<and> v1_NS_Name r = ''''))"

definition creates_manager :: "api_env \<Rightarrow> registryCacheImpl \<Rightarrow> string \<Rightarrow> string \<Rightarrow> bool" where
  "creates_manager env rc nsmName url \<longleftrightarrow>
     (let n = \<lparr>v1_NSM_Name = nsmName, v1_URL = url, v1_NSM_State = ''RUNNING''\<rparr> in
      e_CreateNSM env n = (Some n, None) \<or>
      (\<exists>m. known_managers rc nsmName = Some m \<and> v1_URL m = url) \<and> nsmName \<noteq> '''' \<and>
      (\<exists>r. e_CreateNSM env n = (Some r, Some AlreadyExists) \<and> v1_NSM_Name r = ''''))"

definition creates_endpoint :: "api_env \<Rightarrow> string \<Rightarrow> bool" where
  "creates_endpoint env name \<longleftrightarrow> (\<forall>g e. e_CreateNSE env g e = (Some (e\<lparr>v1_NSE_Name := name\<rparr>), None))"

lemma settled_lookup:
  assumes "converges key added deleted lookup c" "(run_step added deleted)\<^sup>*\<^sup>* c c'" "queued c' = 0"
  shows "lookup (content c') k \<in> possible key lookup c k"
  using assms rtranclp_imp_relpowp [OF assms(2)] unfolding converges_def by blast

definition new_endpoint :: "string \<Rightarrow> string \<Rightarrow> NSERegistration \<Rightarrow> NetworkService \<Rightarrow> v1_NetworkServiceEndpoint" where
  "new_endpoint name nsmName request ns = \<lparr>v1_NSE_Name = name, v1_Labels = endpoint_labels request,
     v1_NetworkServiceName = NS_Name ns, v1_NsmName = nsmName, v1_NSE_State = ''RUNNING''\<rparr>"

lemma idle_channels:
  "idle rc \<Longrightarrow> addCh (networkServiceCache rc) = [] \<and> deleteCh (networkServiceCache rc) = [] \<and>
    addCh (networkServiceEndpointCache rc) = [] \<and> deleteCh (networkServiceEndpointCache rc) = [] \<and>
    addCh (networkServiceManagerCache rc) = [] \<and> deleteCh (networkServiceManagerCache rc) = []"
  by (simp add: idle_def queued_def)

lemma register_run:
  assumes "idle rc" "Reg_NetworkserviceEndpoint request = Some e0" "Reg_NetworkService request = Some ns"
    "request_url request \<noteq> ''''" "creates_manager env rc nsmName (request_url request)" "creates_service env rc ns"
    "creates_endpoint env name"
  obtains reg m n where
    "k8s_RegisterNSE env nsmName request rc = Some (Inr reg,
       rc\<lparr>networkServiceManagerCache := networkServiceManagerCache rc\<lparr>addCh := [m]\<rparr>,
          networkServiceCache := networkServiceCache rc\<lparr>addCh := [n]\<rparr>,
          networkServiceEndpointCache := networkServiceEndpointCache rc\<lparr>addCh := [new_endpoint name nsmName request ns]\<rparr>\<rparr>)"
    "\<exists>e. Reg_NetworkserviceEndpoint reg = Some e \<and> NSE_EndpointName e = name"
    "v1_NSM_Name m = nsmName \<and> v1_URL m = request_url request \<or>
      v1_NSM_Name m = '''' \<and> nsmName \<noteq> '''' \<and> (\<exists>m. known_managers rc nsmName = Some m \<and> v1_URL m = request_url request)"
    "v1_NS_Name n = NS_Name ns \<or> v1_NS_Name n = '''' \<and> NS_Name ns \<noteq> '''' \<and> known_services rc (NS_Name ns) \<noteq> None"
proof -
  let ?m = "\<lparr>v1_NSM_Name = nsmName, v1_URL = request_url request, v1_NSM_State = ''RUNNING''\<rparr>"
  let ?n = "\<lparr>v1_NS_Name = NS_Name ns, v1_Payload = NS_Payload ns, v1_Matches = []\<rparr>"
  obtain m err where m: "e_CreateNSM env ?m = (Some m, err)" "\<not> failed err"
      "v1_NSM_Name m = nsmName \<and> v1_URL m = request_url request \<or>
       v1_NSM_Name m = '''' \<and> nsmName \<noteq> '''' \<and> (\<exists>m. known_managers rc nsmName = Some m \<and> v1_URL m = request_url request)"
    using assms(5) by (auto simp: creates_manager_def failed_def Let_def)
  obtain n err' where n: "e_CreateNS env ?n = (Some n, err')" "\<not> failed err'"
      "v1_NS_Name n = NS_Name ns \<or> v1_NS_Name n = '''' \<and> NS_Name ns \<noteq> '''' \<and> known_services rc (NS_Name ns) \<noteq> None"
    using assms(6) by (auto simp: creates_service_def failed_def Let_def)
  have labels: "endpoint_labels (request\<lparr>Reg_NetworkServiceManager := x\<rparr>) = endpoint_labels request" for x
    by (simp add: endpoint_labels_def)
  show ?thesis
    using that [OF _ _ m(3) n(3)] m(1,2) n(1,2) assms(2-4,7) idle_channels [OF assms(1)]
    by (auto simp: k8s_RegisterNSE_def register_endpoint_def AddNetworkServiceManager_def AddNetworkService_def
        AddNetworkServiceEndpoint_def cache_add_def creates_endpoint_def new_endpoint_def labels)
qed

lemma lookup_listed:
  assumes "nse_invar svc c"
  shows "e \<in> set (nse_Get c ns) \<longleftrightarrow> nse_lookup c (v1_NSE_Name e) = Some e \<and> v1_NetworkServiceName e = ns"
  using assms by (auto simp: nse_invar_def represents_def nse_lookup_def of_service_def)

lemma settled_single:
  assumes "converges key added deleted lookup c" "addCh c = [x]" "deleteCh c = []"
    "(run_step added deleted)\<^sup>*\<^sup>* c c'" "queued c' = 0"
  shows "lookup (content c') k = (if k = key x then Some x else lookup (content c) k)"
  using settled_lookup [OF assms(1,4,5), of k] assms(2,3) by (auto simp: possible_def split: if_splits)

definition with_queued :: "registryCacheImpl \<Rightarrow> v1_NetworkServiceManager \<Rightarrow> v1_NetworkService \<Rightarrow> v1_NetworkServiceEndpoint \<Rightarrow> registryCacheImpl" where
  "with_queued rc m n e = rc\<lparr>networkServiceManagerCache := networkServiceManagerCache rc\<lparr>addCh := [m]\<rparr>,
     networkServiceCache := networkServiceCache rc\<lparr>addCh := [n]\<rparr>,
     networkServiceEndpointCache := networkServiceEndpointCache rc\<lparr>addCh := [e]\<rparr>\<rparr>"

lemma settled_caches:
  assumes "idle rc" "nse_invar svc (content (networkServiceEndpointCache rc))" "nse_good svc e" "settles (with_queued rc m n e) rc2"
  shows "nse_lookup (content (networkServiceEndpointCache rc2)) k =
      (if k = v1_NSE_Name e then Some e else nse_lookup (content (networkServiceEndpointCache rc)) k)"
    "known_managers rc2 k = (if k = v1_NSM_Name m then Some m else known_managers rc k)"
    "known_services rc2 k = (if k = v1_NS_Name n then Some n else known_services rc k)"
    "nse_invar svc (content (networkServiceEndpointCache rc2))"
proof -
  let ?c1 = "networkServiceEndpointCache (with_queued rc m n e)" and ?c2 = "networkServiceManagerCache (with_queued rc m n e)"
    and ?c3 = "networkServiceCache (with_queued rc m n e)"
  note ch = idle_channels [OF assms(1)]
  have inv: "nse_invar svc (content ?c1)" and good: "\<forall>e \<in> set (addCh ?c1). nse_good svc e"
    using assms(2,3) by (simp_all add: with_queued_def)
  note s = assms(4) [unfolded settles_def idle_def]
  show "nse_lookup (content (networkServiceEndpointCache rc2)) k =
      (if k = v1_NSE_Name e then Some e else nse_lookup (content (networkServiceEndpointCache rc)) k)"
    using settled_single [OF nse_contract.contract_converges [OF inv good], of e "networkServiceEndpointCache rc2" k] s ch
    by (simp add: with_queued_def)
  show "known_managers rc2 k = (if k = v1_NSM_Name m then Some m else known_managers rc k)"
    using settled_single [OF nsm_contract.contract_converges, of ?c2 m "networkServiceManagerCache rc2" k] s ch
    by (simp add: with_queued_def)
  show "known_services rc2 k = (if k = v1_NS_Name n then Some n else known_services rc k)"
    using settled_single [OF ns_contract.contract_converges, of ?c3 n "networkServiceCache rc2" k] s ch
    by (simp add: with_queued_def)
  obtain i where "(run_step nse_resourceAdded nse_resourceDeleted ^^ i) ?c1 (networkServiceEndpointCache rc2)"
    using s rtranclp_imp_relpowp by metis
  from nse_contract.steps_keep [OF this inv good] show "nse_invar svc (content (networkServiceEndpointCache rc2))" by blast
qed

lemma found_after:
  assumes "nse_invar svc (content (networkServiceEndpointCache rc))" "endpoints_known rc" "known_services rc name \<noteq> None"
    "nse_lookup (content (networkServiceEndpointCache rc)) (v1_NSE_Name e) = Some e" "v1_NetworkServiceName e = name"
    "known_managers rc (v1_NsmName e) = Some m"
  shows "\<exists>resp. k8s_FindNetworkService name rc = Inr resp \<and>
    (\<exists>f \<in> set (F_NetworkServiceEndpoints resp). NSE_EndpointName f = v1_NSE_Name e \<and> NSE_NetworkServiceManagerName f = v1_NsmName e) \<and>
    map_of (F_NetworkServiceManagers resp) (v1_NsmName e) = Some (found_manager m)"
proof -
  have listed: "e \<in> set (cached_endpoints name rc)"
    using lookup_listed [OF assms(1)] assms(4,5) by (simp add: cached_endpoints_def)
  have "\<forall>f \<in> set (cached_endpoints name rc). known_managers rc (v1_NsmName f) \<noteq> None"
    using assms(2) lookup_listed [OF assms(1)] unfolding endpoints_known_def cached_endpoints_def by blast
  moreover obtain service where "known_services rc name = Some service" using assms(3) by blast
  ultimately obtain resp where r: "k8s_FindNetworkService name rc = Inr resp"
      "F_NetworkServiceEndpoints resp = map (found_endpoint (v1_Payload service)) (cached_endpoints name rc)"
      "\<forall>k. map_of (F_NetworkServiceManagers resp) k =
         (if k \<in> v1_NsmName ` set (cached_endpoints name rc) then map_option found_manager (known_managers rc k) else None)"
    using find_exact by blast
  have "found_endpoint (v1_Payload service) e \<in> set (F_NetworkServiceEndpoints resp)" using listed r(2) by simp
  moreover have "v1_NsmName e \<in> v1_NsmName ` set (cached_endpoints name rc)" using listed by (rule imageI)
  ultimately show ?thesis using r(1,3) assms(6) by (intro exI [of _ resp]) (auto simp: found_endpoint_def intro!: bexI)
qed


definition ex_api :: api_env where
  "ex_api = \<lparr>e_CreateNS = (\<lambda>n. (Some n, None)), e_CreateNSE = (\<lambda>g e. (Some (e\<lparr>v1_NSE_Name := ''vpn-x7''\<rparr>), None)),
     e_CreateNSM = (\<lambda>m. (Some m, None)), e_DeleteNSE = (\<lambda>_. None)\<rparr>"

definition ex_request :: NSERegistration where
  "ex_request = \<lparr>Reg_NetworkService = Some \<lparr>NS_Name = ''vpn'', NS_Payload = ''IP'', NS_Matches = []\<rparr>,
     Reg_NetworkServiceManager = Some \<lparr>NSM_Name = '''', NSM_Url = ''tcp:10.0.0.1'', NSM_State = ''''\<rparr>,
     Reg_NetworkserviceEndpoint = Some \<lparr>NSE_NetworkServiceName = ''vpn'', NSE_Payload = ''IP'', NSE_NetworkServiceManagerName = '''',
       NSE_EndpointName = '''', NSE_Labels = [(''app'', ''vpn'')], NSE_State = ''''\<rparr>\<rparr>"


text \<open>
  When the service exists, the answer is made of the object that came with the error: the
  payload of the registered endpoint is empty.
\<close>

lemma payload_lost:
  assumes "e_CreateNS env = (\<lambda>_. (Some \<lparr>v1_NS_Name = '''', v1_Payload = '''', v1_Matches = []\<rparr>, Some AlreadyExists))"
    "e_CreateNSE env = e_CreateNSE ex_api" "e_CreateNSM env = e_CreateNSM ex_api"
  shows "\<exists>reg rc e. k8s_RegisterNSE env ''nsm-1'' ex_request NewRegistryCache = Some (Inr reg, rc) \<and>
    Reg_NetworkserviceEndpoint reg = Some e \<and> NSE_Payload e = ''''"
  using assms
  by (simp add: k8s_RegisterNSE_def register_endpoint_def AddNetworkServiceManager_def AddNetworkService_def
      AddNetworkServiceEndpoint_def cache_add_def ex_api_def ex_request_def request_url_def failed_def NewRegistryCache_def
      newAbstractResourceCache_def Let_def)

end
