(* ===== verification/Sdk.thy ===== *)
theory Sdk
  imports PoolProps Acl
begin

text \<open>
  The SDK for clients and endpoints (\<open>sdk\<close>): the configuration, the client that asks
  the manager for connections, the composites an endpoint is built of and the endpoint
  itself. Connections are objects on a heap, because the composites of a chain
  change one object in turn and the client compares pointers. A chain of composites is a
  list with the outermost first: the tail is what \<open>GetNext\<close> returns, and the
  empty tail is nil. \<open>logrus.Fatal\<close> ends the process and is a \<open>Panic\<close>.
\<close>

subsection \<open>Configuration\<close>

record NSConfiguration =
  NsmServerSocket :: string
  NsmClientSocket :: string
  cfg_Workspace :: string
  AdvertiseNseName :: string
  cfg_OutgoingNscName :: string
  AdvertiseNseLabels :: string
  cfg_OutgoingNscLabels :: string
  TracerEnabled :: bool
  MechanismType :: string
  IPAddress :: string

definition empty_configuration :: NSConfiguration where
  "empty_configuration = \<lparr>NsmServerSocket = '''', NsmClientSocket = '''', cfg_Workspace = '''', AdvertiseNseName = '''',
     cfg_OutgoingNscName = '''', AdvertiseNseLabels = '''', cfg_OutgoingNscLabels = '''', TracerEnabled = False,
     MechanismType = '''', IPAddress = ''''\<rparr>"

definition fatal :: error where
  "fatal = Panic ''exit status 1''"

definition getEnv :: "(string \<Rightarrow> string option) \<Rightarrow> string \<Rightarrow> bool \<Rightarrow> string result" where
  "getEnv LookupEnv key mandatory =
     (case LookupEnv key of
        Some value \<Rightarrow> Inr value
      | None \<Rightarrow> if mandatory then Inl fatal else Inr '''')"

text \<open>\<open>strconv.ParseBool\<close>; its error is dropped, so that anything unreadable is false.\<close>

definition ParseBool :: "string \<Rightarrow> bool" where
  "ParseBool s \<longleftrightarrow> s \<in> {''1'', ''t'', ''T'', ''TRUE'', ''true'', ''True''}"

text \<open>An option that is set is kept; one that is not is looked up.\<close>

definition complete_option :: "(string \<Rightarrow> string option) \<Rightarrow> string \<Rightarrow> bool \<Rightarrow> string \<Rightarrow> string result" where
  "complete_option LookupEnv key mandatory v = (if v = '''' then getEnv LookupEnv key mandatory else Inr v)"

definition andThen :: "'a result \<Rightarrow> ('a \<Rightarrow> 'b result) \<Rightarrow> 'b result" where
  "andThen r f = (case r of Inl e \<Rightarrow> Inl e | Inr x \<Rightarrow> f x)"

definition CompleteNSConfiguration :: "(string \<Rightarrow> string option) \<Rightarrow> NSConfiguration \<Rightarrow> NSConfiguration result" where
  "CompleteNSConfiguration LookupEnv c =
     (let opt = complete_option LookupEnv in
      andThen (opt ''NSM_SERVER_SOCKET'' True (NsmServerSocket c)) (\<lambda>server.
      andThen (opt ''NSM_CLIENT_SOCKET'' True (NsmClientSocket c)) (\<lambda>client.
      andThen (opt ''WORKSPACE'' True (cfg_Workspace c)) (\<lambda>workspace.
      andThen (opt ''ADVERTISE_NSE_NAME'' False (AdvertiseNseName c)) (\<lambda>name.
      andThen (opt ''OUTGOING_NSC_NAME'' False (cfg_OutgoingNscName c)) (\<lambda>nsc.
      andThen (opt ''ADVERTISE_NSE_LABELS'' False (AdvertiseNseLabels c)) (\<lambda>labels.
      andThen (opt ''OUTGOING_NSC_LABELS'' False (cfg_OutgoingNscLabels c)) (\<lambda>nsc_labels.
      andThen (getEnv LookupEnv ''TRACER_ENABLED'' False) (\<lambda>tracer.
      andThen (opt ''MECHANISM_TYPE'' False (MechanismType c)) (\<lambda>mechanism.
      andThen (opt ''IP_ADDRESS'' False (IPAddress c)) (\<lambda>ip.
      Inr \<lparr>NsmServerSocket = server, NsmClientSocket = client, cfg_Workspace = workspace, AdvertiseNseName = name,
        cfg_OutgoingNscName = nsc, AdvertiseNseLabels = labels, cfg_OutgoingNscLabels = nsc_labels,
        TracerEnabled = ParseBool tracer, MechanismType = mechanism, IPAddress = ip\<rparr>)))))))))))"

text \<open>\<open>binary.BigEndian.Uint32\<close> panics on less than four bytes; nil is the empty address.\<close>

definition Ip2int :: "net_IP \<Rightarrow> (32 word) result" where
  "Ip2int ip =
     (if ip = [] then Inr 0
      else if length ip = 16 then Inr (of_nat (be_nat (drop 12 ip)))
      else if length ip < 4 then Inl (Panic ''index out of range'')
      else Inr (of_nat (be_nat (take 4 ip))))"

definition MechanismType_value :: "(string, LocalMechanismType) gomap" where
  "MechanismType_value =
     [(''DEFAULT_INTERFACE'', DEFAULT_INTERFACE), (''KERNEL_INTERFACE'', KERNEL_INTERFACE),
      (''VHOST_INTERFACE'', VHOST_INTERFACE), (''MEM_INTERFACE'', MEM_INTERFACE),
      (''SRIOV_INTERFACE'', SRIOV_INTERFACE), (''HW_INTERFACE'', HW_INTERFACE)]"

definition MechanismFromString :: "string \<Rightarrow> LocalMechanismType" where
  "MechanismFromString mechanismName =
     (case map_of MechanismType_value (map to_upper mechanismName @ ''_INTERFACE'') of
        Some mechanism \<Rightarrow> mechanism
      | None \<Rightarrow> KERNEL_INTERFACE)"

subsection \<open>The world of an SDK process\<close>

text \<open>
  The connection objects (a pointer is an index), how many short identifiers were
  drawn, and the calls made to the manager. The environment has the answers: the
  manager may answer every call differently.
\<close>

record sdk_world =
  w_heap :: "LocalConnection list"
  w_ids :: nat
  w_requests :: "LocalRequest list"
  w_closes :: "LocalConnection option list"

record sdk_env =
  e_shortid :: "nat \<Rightarrow> string result"
  e_NetNs :: "string result"
  e_Interfaces :: "(string \<times> string list result) list result"
  e_NSM :: "nat \<Rightarrow> LocalRequest \<Rightarrow> LocalConnection result"
  e_Orders :: range_orders

definition new_conn :: "LocalConnection \<Rightarrow> sdk_world \<Rightarrow> nat \<times> sdk_world" where
  "new_conn c w = (length (w_heap w), w\<lparr>w_heap := w_heap w @ [c]\<rparr>)"

definition deref :: "sdk_world \<Rightarrow> nat option \<Rightarrow> LocalConnection option" where
  "deref w p = map_option (\<lambda>n. w_heap w ! n) p"

definition ptr_Id :: "sdk_world \<Rightarrow> nat option \<Rightarrow> string" where
  "ptr_Id w p = (case deref w p of None \<Rightarrow> '''' | Some c \<Rightarrow> L_Id c)"

subsection \<open>The client\<close>

record NsmClient =
  Configuration :: NSConfiguration
  OutgoingNscName :: string
  OutgoingNscLabels :: "(string, string) gomap"
  OutgoingConnections :: "nat option list"

definition connectRetries :: nat where "connectRetries = 10"

fun connect_loop :: "nat \<Rightarrow> sdk_env \<Rightarrow> LocalRequest \<Rightarrow> NsmClient \<Rightarrow> sdk_world \<Rightarrow> nat result \<times> NsmClient \<times> sdk_world" where
  "connect_loop iteration env rq nc w =
     (let w1 = w\<lparr>w_requests := w_requests w @ [rq]\<rparr> in
      case e_NSM env (length (w_requests w)) rq of
        Inl e \<Rightarrow>
          if iteration - 1 > 0 then connect_loop (iteration - 1) env rq nc w1
          else (Inl e, nc, w1)
      | Inr c \<Rightarrow>
          (case new_conn c w1 of (p, w2) \<Rightarrow>
             (Inr p, nc\<lparr>OutgoingConnections := OutgoingConnections nc @ [Some p]\<rparr>, w2)))"

definition client_Connect :: "sdk_env \<Rightarrow> string \<Rightarrow> string \<Rightarrow> string \<Rightarrow> NsmClient \<Rightarrow> sdk_world \<Rightarrow>
    nat result \<times> NsmClient \<times> sdk_world" where
  "client_Connect env name mechanism description nc w =
     (case NewMechanism (e_NetNs env) (MechanismFromString mechanism) name description of
        Inl e \<Rightarrow> (Inl e, nc, w)
      | Inr outgoingMechanism \<Rightarrow>
          connect_loop connectRetries env
            \<lparr>LQ_Connection = Some
               \<lparr>L_Id = '''', L_NetworkService = cfg_OutgoingNscName (Configuration nc), L_Mechanism = None,
                L_Context = Some (empty_context\<lparr>SrcIpRequired := True, DstIpRequired := True\<rparr>),
                L_Labels = OutgoingNscLabels nc, L_State = UP\<rparr>,
             LQ_MechanismPreferences = [outgoingMechanism]\<rparr> nc w)"

text \<open>
  The loop of \<open>Close\<close> over the outgoing connections. It ranges over the array as it was,
  reads the elements as they are, and shortens only its own slice \<open>arr\<close>, of length
  \<open>l\<close>: the array keeps its length, with nil at the end.
\<close>

fun close_loop :: "nat option \<Rightarrow> nat list \<Rightarrow> nat \<Rightarrow> nat option list \<Rightarrow> nat option list result" where
  "close_loop c [] l xs = Inr xs"
| "close_loop c (i # is) l xs =
     (if xs ! i = c then
        (if l < Suc i then Inl (Panic ''slice bounds out of range'')
         else close_loop c is (l - 1) (take i xs @ drop (Suc i) (take l xs) @ [None] @ drop l xs))
      else close_loop c is l xs)"

definition client_Close :: "nat option \<Rightarrow> NsmClient \<Rightarrow> sdk_world \<Rightarrow> error option \<times> NsmClient \<times> sdk_world" where
  "client_Close c nc w =
     (let w1 = w\<lparr>w_closes := w_closes w @ [deref w c]\<rparr>;
          arr = OutgoingConnections nc
      in case close_loop c [0..<length arr] (length arr) arr of
           Inl e \<Rightarrow> (Some e, nc, w1)
         | Inr xs \<Rightarrow> (None, nc\<lparr>OutgoingConnections := xs\<rparr>, w1))"

definition client_Destroy :: "NsmClient \<Rightarrow> sdk_world \<Rightarrow> sdk_world" where
  "client_Destroy nc w = w\<lparr>w_closes := w_closes w @ map (deref w) (OutgoingConnections nc)\<rparr>"

text \<open>
  Connecting to the manager: the server socket is tried, looked at and dialled.
\<close>

definition NewNSMConnection :: "(nat \<Rightarrow> string \<Rightarrow> error option) \<Rightarrow> NSConfiguration \<Rightarrow> NSConfiguration result" where
  "NewNSMConnection access configuration =
     (case access 0 (NsmServerSocket configuration) of
        Some e \<Rightarrow> Inl e
      | None \<Rightarrow>
          (case access 1 (NsmServerSocket configuration) of
             Some e \<Rightarrow> Inl e
           | None \<Rightarrow>
               (case access 2 (NsmServerSocket configuration) of
                  Some e \<Rightarrow> Inl e
                | None \<Rightarrow> Inr configuration)))"

definition completed :: "(string \<Rightarrow> string option) \<Rightarrow> NSConfiguration option \<Rightarrow> NSConfiguration result" where
  "completed LookupEnv configuration =
     CompleteNSConfiguration LookupEnv (case configuration of None \<Rightarrow> empty_configuration | Some c \<Rightarrow> c)"

definition NewNSMClient :: "(string \<Rightarrow> string option) \<Rightarrow> (nat \<Rightarrow> string \<Rightarrow> error option) \<Rightarrow> NSConfiguration option \<Rightarrow>
    NsmClient result" where
  "NewNSMClient LookupEnv access configuration =
     andThen (completed LookupEnv configuration) (\<lambda>c.
     andThen (NewNSMConnection access c) (\<lambda>c.
     Inr \<lparr>Configuration = c, OutgoingNscName = cfg_OutgoingNscName c,
       OutgoingNscLabels = ParseKVStringToMap (cfg_OutgoingNscLabels c) '','' ''='', OutgoingConnections = []\<rparr>))"

text \<open>\<open>NsmClientList.Connect\<close>: the first client that fails ends it; the connections made so far stay.\<close>

fun list_Connect :: "sdk_env \<Rightarrow> string \<Rightarrow> string \<Rightarrow> string \<Rightarrow> NsmClient list \<Rightarrow> nat list \<Rightarrow> sdk_world \<Rightarrow>
    error option \<times> NsmClient list \<times> nat list \<times> sdk_world" where
  "list_Connect env name mechanism description [] conns w = (None, [], conns, w)"
| "list_Connect env name mechanism description (nc # ncs) conns w =
     (case client_Connect env name mechanism description nc w of
        (Inl e, nc', w') \<Rightarrow> (Some e, nc' # ncs, conns, w')
      | (Inr p, nc', w') \<Rightarrow>
          (case list_Connect env name mechanism description ncs (conns @ [p]) w' of
             (e, ncs', conns', w'') \<Rightarrow> (e, nc' # ncs', conns', w'')))"

declare connect_loop.simps [simp del]

subsection \<open>Composites\<close>

text \<open>
  A composite with its own state. What the monitor is told of is kept as the list
  of calls: an update carries the pointer, which outer composites may still
  change.
\<close>

datatype monitor_call = Monitor_Update "nat option" | Monitor_Delete LocalConnection

datatype composite =
    BaseCompositeEndpoint
  | IpamCompositeEndpoint prefixPool
  | ConnectionCompositeEndpoint LocalMechanismType
  | ClientCompositeEndpoint NsmClient string "(string, nat) gomap"
  | MonitorCompositeEndpoint "monitor_call list"

definition generateIfName :: "string \<Rightarrow> string" where
  "generateIfName shortid = filter (\<lambda>c. c \<noteq> CHR ''_'') (filter (\<lambda>c. c \<noteq> CHR ''-'') (''nsm'' @ shortid))"

definition nil_deref :: error where
  "nil_deref = Panic ''invalid memory address or nil pointer dereference''"

definition ipam_extract :: "prefixPool \<Rightarrow> LocalRequest \<Rightarrow> prefixPool \<times> (IPNet \<times> IPNet \<times> string list) result" where
  "ipam_extract pool request =
     (case LQ_Connection request of
        None \<Rightarrow> (pool, Inl nil_deref)
      | Some c \<Rightarrow>
          (case L_Context c of
             None \<Rightarrow> (pool, Inl nil_deref)
           | Some ctx \<Rightarrow> Extract pool (L_Id c) IPV4 (ExtraPrefixRequests ctx)))"

text \<open>The address of an interface; what cannot be read is the nil address.\<close>

definition neighbor_ip :: "string \<Rightarrow> string" where
  "neighbor_ip a = IP_String (case ParseCIDR a of Inl _ \<Rightarrow> [] | Inr (addr, _) \<Rightarrow> addr)"

definition ipam_neighbors :: "sdk_env \<Rightarrow> IpNeighbor list" where
  "ipam_neighbors env =
     (case e_Interfaces env of
        Inl _ \<Rightarrow> []
      | Inr ifaces \<Rightarrow>
          concat (map (\<lambda>(hardwareAddr, addrs). case addrs of
               Inl _ \<Rightarrow> []
             | Inr adrs \<Rightarrow>
                 map (\<lambda>a. \<lparr>Ip = neighbor_ip a, HardwareAddress = hardwareAddr\<rparr>)
                   (filter (\<lambda>a. neighbor_ip a \<noteq> ''127.0.0.1'') adrs)) ifaces))"

definition ipam_context :: "sdk_env \<Rightarrow> IPNet \<Rightarrow> IPNet \<Rightarrow> string list \<Rightarrow> ConnectionContext \<Rightarrow> ConnectionContext" where
  "ipam_context env srcIP dstIP prefixes ctx =
     ctx\<lparr>SrcIpAddr := IPNet_String srcIP, DstIpAddr := IPNet_String dstIP,
       Routes := [\<lparr>Route_Prefix = ''8.8.8.8/30''\<rparr>], ExtraPrefixes := prefixes,
       IpNeighbors := IpNeighbors ctx @ ipam_neighbors env\<rparr>"

definition ipam_update :: "sdk_env \<Rightarrow> nat option \<Rightarrow> IPNet \<times> IPNet \<times> string list \<Rightarrow> sdk_world \<Rightarrow> nat option result \<times> sdk_world" where
  "ipam_update env newConnection out w =
     (case out of (srcIP, dstIP, prefixes) \<Rightarrow>
        (case newConnection of
           None \<Rightarrow> (Inl nil_deref, w)
         | Some p \<Rightarrow>
             (let c = w_heap w ! p in
              case L_Context c of
                None \<Rightarrow> (Inl nil_deref, w)
              | Some ctx \<Rightarrow>
                  (let c' = c\<lparr>L_Context := Some (ipam_context env srcIP dstIP prefixes ctx)\<rparr>;
                       w' = w\<lparr>w_heap := (w_heap w)[p := c']\<rparr>
                   in case LocalConnection_IsComplete (Some c') of
                        Some e \<Rightarrow> (Inl e, w')
                      | None \<Rightarrow> (Inr (Some p), w')))))"

definition clear_workspace :: "nat \<Rightarrow> sdk_world \<Rightarrow> sdk_world result" where
  "clear_workspace p w =
     (let c = w_heap w ! p in
      case L_Mechanism c of
        None \<Rightarrow> Inl (Panic ''assignment to entry in nil map'')
      | Some m \<Rightarrow>
          (case LM_Parameters m of
             None \<Rightarrow> Inl (Panic ''assignment to entry in nil map'')
           | Some ps \<Rightarrow> Inr (w\<lparr>w_heap := (w_heap w)[p := c\<lparr>L_Mechanism :=
               Some (m\<lparr>LM_Parameters := Some (AList.update Workspace '''' ps)\<rparr>)\<rparr>]\<rparr>)))"

definition connection_new :: "LocalRequest \<Rightarrow> LocalMechanism \<Rightarrow> LocalConnection" where
  "connection_new request mechanism =
     \<lparr>L_Id = (case LQ_Connection request of None \<Rightarrow> '''' | Some c \<Rightarrow> L_Id c),
      L_NetworkService = (case LQ_Connection request of None \<Rightarrow> '''' | Some c \<Rightarrow> L_NetworkService c),
      L_Mechanism = Some mechanism, L_Context = Option.bind (LQ_Connection request) L_Context,
      L_Labels = [], L_State = UP\<rparr>"

text \<open>
  The handlers. \<open>cs\<close> are the composites behind this one and \<open>next\<close> is their handler, which
  returns them in their new states; \<open>GetNext\<close> is nil when there are none.
\<close>

type_synonym request_handler = "sdk_world \<Rightarrow> nat option result \<times> composite list \<times> sdk_world"

definition base_Request :: "composite list \<Rightarrow> request_handler \<Rightarrow> request_handler" where
  "base_Request cs next w =
     (if cs = [] then (Inr None, [BaseCompositeEndpoint], w)
      else case next w of (r, cs', w') \<Rightarrow> (r, BaseCompositeEndpoint # cs', w'))"

definition ipam_Request :: "sdk_env \<Rightarrow> LocalRequest \<Rightarrow> prefixPool \<Rightarrow> composite list \<Rightarrow> request_handler \<Rightarrow> request_handler" where
  "ipam_Request env rq pool cs next w =
     (if cs = [] then (Inl (Errorf ''IPAM needs next''), [IpamCompositeEndpoint pool], w)
      else case next w of
        (Inl e, cs', w') \<Rightarrow> (Inl e, IpamCompositeEndpoint pool # cs', w')
      | (Inr newConnection, cs', w') \<Rightarrow>
          (case ipam_extract pool rq of
             (pool', Inl e) \<Rightarrow> (Inl e, IpamCompositeEndpoint pool' # cs', w')
           | (pool', Inr out) \<Rightarrow>
               (case ipam_update env newConnection out w' of
                  (r, w'') \<Rightarrow> (r, IpamCompositeEndpoint pool' # cs', w''))))"

definition connection_Request :: "sdk_env \<Rightarrow> LocalRequest \<Rightarrow> LocalMechanismType \<Rightarrow> composite list \<Rightarrow> request_handler \<Rightarrow>
    request_handler" where
  "connection_Request env rq mechanismType cs next w =
     (let self = ConnectionCompositeEndpoint mechanismType; w1 = w\<lparr>w_ids := Suc (w_ids w)\<rparr> in
      case LocalRequest_IsValid (Some rq) of
        Some e \<Rightarrow> (Inl e, self # cs, w)
      | None \<Rightarrow>
          (case e_shortid env (w_ids w) of
             Inl _ \<Rightarrow> (Inl (Panic ''MustGenerate''), self # cs, w1)
           | Inr shortid \<Rightarrow>
               (case NewMechanism (e_NetNs env) mechanismType (generateIfName shortid) ''NSM Endpoint'' of
                  Inl e \<Rightarrow> (Inl e, self # cs, w1)
                | Inr mechanism \<Rightarrow>
                    if cs = [] then
                      (case new_conn (connection_new rq mechanism) w1 of (p, w2) \<Rightarrow> (Inr (Some p), [self], w2))
                    else
                      (case next w1 of
                         (Inl e, cs', w2) \<Rightarrow> (Inl e, self # cs', w2)
                       | (Inr None, cs', w2) \<Rightarrow> (Inl (Errorf ''Unabel to create a new connection''), self # cs', w2)
                       | (Inr (Some p), cs', w2) \<Rightarrow> (Inr (Some p), self # cs', w2)))))"

definition client_Request :: "sdk_env \<Rightarrow> LocalRequest \<Rightarrow> NsmClient \<Rightarrow> string \<Rightarrow> (string, nat) gomap \<Rightarrow>
    composite list \<Rightarrow> request_handler \<Rightarrow> request_handler" where
  "client_Request env rq nsmClient mechanismType ioConnMap cs next w =
     (if cs = [] then (Inl fatal, [ClientCompositeEndpoint nsmClient mechanismType ioConnMap], w)
      else case next w of
        (Inl e, cs', w1) \<Rightarrow> (Inl e, ClientCompositeEndpoint nsmClient mechanismType ioConnMap # cs', w1)
      | (Inr incomingConnection, cs', w1) \<Rightarrow>
          (let name = (case LQ_Connection rq of None \<Rightarrow> '''' | Some c \<Rightarrow> L_Id c) in
           case client_Connect env name mechanismType (''Describe '' @ name) nsmClient w1 of
             (Inl e, nsmClient', w2) \<Rightarrow> (Inl e, ClientCompositeEndpoint nsmClient' mechanismType ioConnMap # cs', w2)
           | (Inr outgoingConnection, nsmClient', w2) \<Rightarrow>
               (case clear_workspace outgoingConnection w2 of
                  Inl e \<Rightarrow> (Inl e, ClientCompositeEndpoint nsmClient' mechanismType ioConnMap # cs', w2)
                | Inr w3 \<Rightarrow>
                    (Inr incomingConnection,
                     ClientCompositeEndpoint nsmClient' mechanismType
                       (AList.update (ptr_Id w3 incomingConnection) outgoingConnection ioConnMap) # cs', w3))))"

definition monitor_Request :: "monitor_call list \<Rightarrow> composite list \<Rightarrow> request_handler \<Rightarrow> request_handler" where
  "monitor_Request calls cs next w =
     (if cs = [] then (Inl (Errorf ''Monitor needs next''), [MonitorCompositeEndpoint calls], w)
      else case next w of
        (Inl e, cs', w') \<Rightarrow> (Inl e, MonitorCompositeEndpoint calls # cs', w')
      | (Inr p, cs', w') \<Rightarrow> (Inr p, MonitorCompositeEndpoint (calls @ [Monitor_Update p]) # cs', w'))"

text \<open>A request to a chain. Calling a nil composite is a nil dereference.\<close>

fun composite_Request :: "sdk_env \<Rightarrow> LocalRequest \<Rightarrow> composite list \<Rightarrow> request_handler" where
  "composite_Request env rq [] w = (Inl nil_deref, [], w)"
| "composite_Request env rq (c # cs) w =
     (let next = composite_Request env rq cs in
      case c of
        BaseCompositeEndpoint \<Rightarrow> base_Request cs next w
      | IpamCompositeEndpoint pool \<Rightarrow> ipam_Request env rq pool cs next w
      | ConnectionCompositeEndpoint mt \<Rightarrow> connection_Request env rq mt cs next w
      | ClientCompositeEndpoint nc mt m \<Rightarrow> client_Request env rq nc mt m cs next w
      | MonitorCompositeEndpoint calls \<Rightarrow> monitor_Request calls cs next w)"

text \<open>
  Closing. The composites are closed from the outside in; errors of the pool are
  logged, a panic ends the call. \<open>None\<close>: the merging of prefixes ran out of fuel.
\<close>

type_synonym close_handler = "sdk_world \<Rightarrow> (error option \<times> composite list \<times> sdk_world) option"

definition then_close :: "composite \<Rightarrow> composite list \<Rightarrow> close_handler \<Rightarrow> close_handler" where
  "then_close self cs next w =
     (if cs = [] then Some (None, [self], w)
      else case next w of
        None \<Rightarrow> None
      | Some (e, cs', w') \<Rightarrow> Some (e, self # cs', w'))"

definition ipam_Close :: "sdk_env \<Rightarrow> string \<Rightarrow> prefixPool \<Rightarrow> composite list \<Rightarrow> close_handler \<Rightarrow> close_handler" where
  "ipam_Close env connectionId pool cs next w =
     (case Release (e_Orders env) pool connectionId of
        None \<Rightarrow> None
      | Some (pool', err) \<Rightarrow>
          if is_panic err then Some (err, IpamCompositeEndpoint pool' # cs, w)
          else then_close (IpamCompositeEndpoint pool') cs next w)"

definition composite_client_Close :: "string \<Rightarrow> NsmClient \<Rightarrow> string \<Rightarrow> (string, nat) gomap \<Rightarrow> composite list \<Rightarrow> close_handler \<Rightarrow>
    close_handler" where
  "composite_client_Close connectionId nsmClient mechanismType ioConnMap cs next w =
     (case map_of ioConnMap connectionId of
        None \<Rightarrow> then_close (ClientCompositeEndpoint nsmClient mechanismType ioConnMap) cs next w
      | Some outgoingConnection \<Rightarrow>
          (case client_Close (Some outgoingConnection) nsmClient w of
             (err, nsmClient', w') \<Rightarrow>
               if is_panic err then Some (err, ClientCompositeEndpoint nsmClient' mechanismType ioConnMap # cs, w')
               else then_close (ClientCompositeEndpoint nsmClient' mechanismType ioConnMap) cs next w'))"

definition monitor_Close :: "LocalConnection \<Rightarrow> monitor_call list \<Rightarrow> composite list \<Rightarrow> close_handler \<Rightarrow> close_handler" where
  "monitor_Close conn calls cs next w = then_close (MonitorCompositeEndpoint (calls @ [Monitor_Delete conn])) cs next w"

fun composite_Close :: "sdk_env \<Rightarrow> LocalConnection \<Rightarrow> composite list \<Rightarrow> close_handler" where
  "composite_Close env conn [] w = Some (Some nil_deref, [], w)"
| "composite_Close env conn (c # cs) w =
     (let next = composite_Close env conn cs in
      case c of
        BaseCompositeEndpoint \<Rightarrow> then_close c cs next w
      | IpamCompositeEndpoint pool \<Rightarrow> ipam_Close env (L_Id conn) pool cs next w
      | ConnectionCompositeEndpoint mt \<Rightarrow> then_close c cs next w
      | ClientCompositeEndpoint nc mt m \<Rightarrow> composite_client_Close (L_Id conn) nc mt m cs next w
      | MonitorCompositeEndpoint calls \<Rightarrow> monitor_Close conn calls cs next w)"

text \<open>\<open>GetOpaque\<close> of the client composite: the outgoing connection of an incoming one.\<close>

definition client_GetOpaque :: "(string, nat) gomap \<Rightarrow> LocalConnection \<Rightarrow> nat option" where
  "client_GetOpaque ioConnMap incoming = map_of ioConnMap (L_Id incoming)"

subsection \<open>Constructors\<close>

definition NewIpamCompositeEndpoint :: "(string \<Rightarrow> string option) \<Rightarrow> NSConfiguration option \<Rightarrow> composite result" where
  "NewIpamCompositeEndpoint LookupEnv configuration =
     andThen (completed LookupEnv configuration) (\<lambda>c. Inr (IpamCompositeEndpoint (NewPrefixPool [IPAddress c])))"

definition NewConnectionCompositeEndpoint :: "(string \<Rightarrow> string option) \<Rightarrow> NSConfiguration option \<Rightarrow> composite result" where
  "NewConnectionCompositeEndpoint LookupEnv configuration =
     andThen (completed LookupEnv configuration)
       (\<lambda>c. Inr (ConnectionCompositeEndpoint (MechanismFromString (MechanismType c))))"

definition NewClientCompositeEndpoint :: "(string \<Rightarrow> string option) \<Rightarrow> (nat \<Rightarrow> string \<Rightarrow> error option) \<Rightarrow>
    NSConfiguration option \<Rightarrow> composite result" where
  "NewClientCompositeEndpoint LookupEnv access configuration =
     andThen (completed LookupEnv configuration) (\<lambda>c.
       case NewNSMClient LookupEnv access (Some c) of
         Inl _ \<Rightarrow> Inl fatal
       | Inr nsmClient \<Rightarrow> Inr (ClientCompositeEndpoint nsmClient (MechanismType c) []))"

definition NewMonitorCompositeEndpoint :: "(string \<Rightarrow> string option) \<Rightarrow> NSConfiguration option \<Rightarrow> composite result" where
  "NewMonitorCompositeEndpoint LookupEnv configuration =
     andThen (completed LookupEnv configuration) (\<lambda>c. Inr (MonitorCompositeEndpoint []))"

subsection \<open>The endpoint\<close>

record nsmEndpoint =
  ne_Configuration :: NSConfiguration
  ne_composite :: "composite list"
  ne_tracerCloser :: bool
  ne_serving :: bool
  ne_registryClient :: bool
  endpointName :: string

record endpoint_env =
  e_SocketCleanup :: "string \<Rightarrow> error option"
  e_ListenUnix :: "string \<Rightarrow> error option"
  e_RegisterNSE :: "NSERegistration \<Rightarrow> NSERegistration result"
  e_RemoveNSE :: "string \<Rightarrow> error option"

definition NewNSMEndpoint :: "(string \<Rightarrow> string option) \<Rightarrow> (nat \<Rightarrow> string \<Rightarrow> error option) \<Rightarrow> NSConfiguration option \<Rightarrow>
    composite list \<Rightarrow> nsmEndpoint result" where
  "NewNSMEndpoint LookupEnv access configuration composite =
     andThen (completed LookupEnv configuration) (\<lambda>c.
     andThen (NewNSMConnection access c) (\<lambda>c.
     Inr \<lparr>ne_Configuration = c, ne_composite = (if composite = [] then [BaseCompositeEndpoint] else composite),
       ne_tracerCloser = False, ne_serving = False, ne_registryClient = False, endpointName = ''''\<rparr>))"

definition setupNSEServerConnection :: "endpoint_env \<Rightarrow> nsmEndpoint \<Rightarrow> error option" where
  "setupNSEServerConnection env ne =
     (let socket = NsmClientSocket (ne_Configuration ne) in
      case e_SocketCleanup env socket of Some e \<Rightarrow> Some e | None \<Rightarrow> e_ListenUnix env socket)"

definition nse_registration :: "NSConfiguration \<Rightarrow> NSERegistration" where
  "nse_registration c =
     \<lparr>Reg_NetworkService = Some \<lparr>NS_Name = AdvertiseNseName c, NS_Payload = ''IP'', NS_Matches = []\<rparr>,
      Reg_NetworkServiceManager = None,
      Reg_NetworkserviceEndpoint = Some
        \<lparr>NSE_NetworkServiceName = AdvertiseNseName c, NSE_Payload = ''IP'', NSE_NetworkServiceManagerName = '''',
         NSE_EndpointName = '''', NSE_Labels = ParseKVStringToMap (AdvertiseNseLabels c) '','' ''='', NSE_State = ''''\<rparr>\<rparr>"

definition endpoint_Start :: "endpoint_env \<Rightarrow> nsmEndpoint \<Rightarrow> error option \<times> nsmEndpoint" where
  "endpoint_Start env ne =
     (let c = ne_Configuration ne;
          ne1 = ne\<lparr>ne_tracerCloser := TracerEnabled c \<or> ne_tracerCloser ne\<rparr> in
      case setupNSEServerConnection env ne1 of
        Some e \<Rightarrow> (Some e, ne1)
      | None \<Rightarrow>
          (let ne2 = ne1\<lparr>ne_serving := True, ne_registryClient := True\<rparr> in
           case e_RegisterNSE env (nse_registration c) of
             Inl _ \<Rightarrow> (Some fatal, ne2)
           | Inr reg \<Rightarrow>
               (None, ne2\<lparr>endpointName := (case Reg_NetworkserviceEndpoint reg of
                                             None \<Rightarrow> '''' | Some e \<Rightarrow> NSE_EndpointName e)\<rparr>)))"

text \<open>Deleting an endpoint that was not started dereferences nil.\<close>

definition endpoint_Delete :: "endpoint_env \<Rightarrow> nsmEndpoint \<Rightarrow> error option \<times> nsmEndpoint" where
  "endpoint_Delete env ne =
     (if TracerEnabled (ne_Configuration ne) \<and> \<not> ne_tracerCloser ne \<or> \<not> ne_registryClient ne
      then (Some nil_deref, ne)
      else (e_RemoveNSE env (endpointName ne), ne\<lparr>ne_serving := False\<rparr>))"

definition endpoint_Request :: "sdk_env \<Rightarrow> LocalRequest \<Rightarrow> nsmEndpoint \<Rightarrow> sdk_world \<Rightarrow> nat option result \<times> nsmEndpoint \<times> sdk_world" where
  "endpoint_Request env rq ne w =
     (case composite_Request env rq (ne_composite ne) w of
        (r, cs, w') \<Rightarrow> (r, ne\<lparr>ne_composite := cs\<rparr>, w'))"

definition endpoint_Close :: "sdk_env \<Rightarrow> LocalConnection \<Rightarrow> nsmEndpoint \<Rightarrow> sdk_world \<Rightarrow>
    (error option \<times> nsmEndpoint \<times> sdk_world) option" where
  "endpoint_Close env conn ne w =
     (case composite_Close env conn (ne_composite ne) w of
        None \<Rightarrow> None
      | Some (err, cs, w') \<Rightarrow>
          let ne' = ne\<lparr>ne_composite := cs\<rparr> in
          if is_panic err then Some (err, ne', w')
          else Some (None, ne', w'\<lparr>w_closes := w_closes w' @ [Some conn]\<rparr>))"

end
