(* ===== verification/SdkProps.thy ===== *)
theory SdkProps
  imports Sdk
begin

text \<open>
  Chains of composites, in whatever order they are composed. Handlers are judged against a
  contract with the handler behind them: if the rest of the chain keeps its
  contract, so does the chain with one more composite in front. The contracts of
  whole chains follow by induction.
\<close>

subsection \<open>Invariants\<close>

definition live :: "nat option list \<Rightarrow> nat option list" where
  "live xs = filter (\<lambda>x. x \<noteq> None) xs"

definition client_ok :: "sdk_world \<Rightarrow> NsmClient \<Rightarrow> bool" where
  "client_ok w nc \<longleftrightarrow> distinct (live (OutgoingConnections nc)) \<and>
     (\<forall>p. Some p \<in> set (OutgoingConnections nc) \<longrightarrow> p < length (w_heap w))"

fun composite_ok :: "sdk_world \<Rightarrow> composite \<Rightarrow> bool" where
  "composite_ok w (IpamCompositeEndpoint p) = pool_inv p"
| "composite_ok w (ClientCompositeEndpoint nc mt m) = client_ok w nc"
| "composite_ok w _ = True"

definition chain_ok :: "sdk_world \<Rightarrow> composite list \<Rightarrow> bool" where
  "chain_ok w cs \<longleftrightarrow> (\<forall>c \<in> set cs. composite_ok w c)"

fun pools :: "composite list \<Rightarrow> prefixPool list" where
  "pools [] = []"
| "pools (IpamCompositeEndpoint p # cs) = p # pools cs"
| "pools (_ # cs) = pools cs"

fun monitors :: "composite list \<Rightarrow> monitor_call list list" where
  "monitors [] = []"
| "monitors (MonitorCompositeEndpoint calls # cs) = calls # monitors cs"
| "monitors (_ # cs) = monitors cs"

lemma chain_ok_simps [simp]:
  "chain_ok w []"
  "chain_ok w (c # cs) \<longleftrightarrow> composite_ok w c \<and> chain_ok w cs"
  by (auto simp: chain_ok_def)

lemma composite_ok_mono: "composite_ok w c \<Longrightarrow> length (w_heap w) \<le> length (w_heap w') \<Longrightarrow> composite_ok w' c"
  by (cases c) (auto simp: client_ok_def)

lemma chain_ok_mono: "chain_ok w cs \<Longrightarrow> length (w_heap w) \<le> length (w_heap w') \<Longrightarrow> chain_ok w' cs"
  using composite_ok_mono by (auto simp: chain_ok_def)

lemma chain_ok_pools: "chain_ok w cs \<Longrightarrow> p \<in> set (pools cs) \<Longrightarrow> pool_inv p"
  by (induction cs rule: pools.induct) auto

subsection \<open>The client\<close>

lemma live_simps [simp]: "live [] = []" "live (None # xs) = live xs" "live (Some p # xs) = Some p # live xs"
  "live (xs @ ys) = live xs @ live ys"
  by (simp_all add: live_def)

lemma set_live: "Some p \<in> set (live xs) \<longleftrightarrow> Some p \<in> set xs"
  by (simp add: live_def)

lemma close_loop_skip: "\<forall>i \<in> set is. xs ! i \<noteq> c \<Longrightarrow> close_loop c (is @ js) l xs = close_loop c js l xs"
  by (induction "is") auto

lemma close_loop_live:
  assumes "distinct (live xs)"
  shows "\<exists>ys. close_loop (Some p) [0..<length xs] (length xs) xs = Inr ys \<and>
    live ys = removeAll (Some p) (live xs) \<and> length ys = length xs"
proof (cases "Some p \<in> set xs")
  case False
  then have "\<forall>i \<in> set [0..<length xs]. xs ! i \<noteq> Some p" by (auto simp: in_set_conv_nth)
  from close_loop_skip [OF this, of "[]" "length xs"] False show ?thesis by (simp add: set_live)
next
  case True
  then obtain as bs where xs: "xs = as @ Some p # bs" "Some p \<notin> set as" by (meson split_list_first)
  then have b: "Some p \<notin> set bs" using assms by (auto simp: set_live)
  let ?n = "length as" and ?ys = "as @ bs @ [None]"
  have "[0..<length xs] = [0..<?n] @ ?n # [Suc ?n..<length xs]"
  proof -
    have "?n < length xs" using xs(1) by simp
    then show ?thesis using upt_add_eq_append [of 0 ?n "length xs - ?n"] by (simp add: upt_conv_Cons)
  qed
  moreover have "\<forall>i \<in> set [0..<?n]. xs ! i \<noteq> Some p" using xs by (auto simp: nth_append in_set_conv_nth)
  ultimately have "close_loop (Some p) [0..<length xs] (length xs) xs =
      close_loop (Some p) [Suc ?n..<length xs] (length xs - 1) ?ys"
    using close_loop_skip xs(1) by simp
  moreover have "\<forall>i \<in> set [Suc ?n..<length xs]. ?ys ! i \<noteq> Some p"
  proof
    fix i assume i: "i \<in> set [Suc ?n..<length xs]"
    then have "i < length ?ys" using xs(1) by (simp only: set_upt atLeastLessThan_iff) simp
    then have "?ys ! i \<in> set ?ys" by (rule nth_mem)
    then show "?ys ! i \<noteq> Some p" using xs(2) b by auto
  qed
  ultimately have "close_loop (Some p) [0..<length xs] (length xs) xs = Inr ?ys"
    using close_loop_skip [of "[Suc ?n..<length xs]" ?ys "Some p" "[]" "length xs - 1"] by simp
  moreover have "removeAll (Some p) (live xs) = live ?ys"
    using xs b by (simp add: set_live removeAll_id)
  ultimately show ?thesis using xs(1) by simp
qed

lemma client_Close_ok:
  assumes "client_ok w nc"
  shows "\<exists>nc'. client_Close (Some p) nc w = (None, nc', w\<lparr>w_closes := w_closes w @ [deref w (Some p)]\<rparr>) \<and>
    client_ok w nc' \<and> Some p \<notin> set (OutgoingConnections nc')"
proof -
  obtain ys where "close_loop (Some p) [0..<length (OutgoingConnections nc)] (length (OutgoingConnections nc)) (OutgoingConnections nc) = Inr ys"
    and y: "live ys = removeAll (Some p) (live (OutgoingConnections nc))"
    using close_loop_live assms unfolding client_ok_def by blast
  then have "client_Close (Some p) nc w = (None, nc\<lparr>OutgoingConnections := ys\<rparr>, w\<lparr>w_closes := w_closes w @ [deref w (Some p)]\<rparr>)"
    by (simp add: client_Close_def Let_def)
  moreover have "Some q \<in> set ys \<longleftrightarrow> Some q \<in> set (OutgoingConnections nc) \<and> q \<noteq> p" for q
    using y by (metis set_live set_removeAll Diff_iff insert_iff empty_iff option.inject)
  ultimately show ?thesis using assms y by (auto simp: client_ok_def intro!: distinct_removeAll)
qed

lemma connect_loop_ok:
  assumes "connect_loop n env rq nc w = (r, nc', w')" "client_ok w nc"
  shows "client_ok w' nc' \<and> (case r of
      Inl _ \<Rightarrow> w_heap w' = w_heap w
    | Inr p \<Rightarrow> p = length (w_heap w) \<and> (\<exists>c. w_heap w' = w_heap w @ [c]))"
  using assms
proof (induction n env rq nc w arbitrary: r nc' w' rule: connect_loop.induct)
  case (1 n env rq nc w)
  show ?case
  proof (cases "e_NSM env (length (w_requests w)) rq")
    case (Inl e)
    let ?w = "w\<lparr>w_requests := w_requests w @ [rq]\<rparr>"
    have ok: "client_ok ?w nc" using 1(3) by (simp add: client_ok_def)
    show ?thesis
    proof (cases "n - 1 > 0")
      case True
      with 1(2) Inl have "connect_loop (n - 1) env rq nc ?w = (r, nc', w')"
        by (simp add: connect_loop.simps [of n])
      from 1(1) [OF refl Inl True this ok] show ?thesis by (cases r) simp_all
    next
      case False
      with 1(2) Inl ok show ?thesis by (auto simp: connect_loop.simps [of n] client_ok_def)
    qed
  next
    case (Inr c)
    have "Some (length (w_heap w)) \<notin> set (OutgoingConnections nc)" using 1(3) by (auto simp: client_ok_def)
    with Inr 1 show ?thesis
      by (auto simp: connect_loop.simps [of n] new_conn_def client_ok_def set_live)
  qed
qed

lemma client_Connect_ok:
  assumes "client_Connect env name mt d nc w = (r, nc', w')" "client_ok w nc"
  shows "client_ok w' nc' \<and> (case r of
      Inl _ \<Rightarrow> w_heap w' = w_heap w
    | Inr p \<Rightarrow> p = length (w_heap w) \<and> (\<exists>c. w_heap w' = w_heap w @ [c]))"
  using assms connect_loop_ok by (fastforce simp: client_Connect_def split: sum.splits)

subsection \<open>The contract of a request handler\<close>

text \<open>
  A request keeps the invariant and never shrinks the heap; what it returns is an object with the
  identity of the request; and if the chain has a pool, the outermost one has the network
  whose addresses the connection has.
\<close>

definition request_id :: "LocalRequest \<Rightarrow> string" where
  "request_id rq = (case LQ_Connection rq of None \<Rightarrow> '''' | Some c \<Rightarrow> L_Id c)"

definition answers :: "LocalRequest \<Rightarrow> LocalConnection \<Rightarrow> bool" where
  "answers rq c \<longleftrightarrow> (\<exists>c0. LQ_Connection rq = Some c0 \<and> L_Id c = L_Id c0 \<and> L_NetworkService c = L_NetworkService c0)"

definition addressed :: "LocalRequest \<Rightarrow> prefixPool \<Rightarrow> LocalConnection \<Rightarrow> bool" where
  "addressed rq pool c \<longleftrightarrow> LocalConnection_IsComplete (Some c) = None \<and>
     (\<exists>r src dst ctx. map_of (connections pool) (request_id rq) = Some r \<and> slash30_of r src dst \<and>
        L_Context c = Some ctx \<and> SrcIpAddr ctx = IPNet_String src \<and> DstIpAddr ctx = IPNet_String dst \<and>
        ExtraPrefixes ctx = cr_prefixes r)"

definition request_ok :: "LocalRequest \<Rightarrow> composite list \<Rightarrow> request_handler \<Rightarrow> bool" where
  "request_ok rq cs next \<longleftrightarrow> (\<forall>w r cs' w'. chain_ok w cs \<longrightarrow> next w = (r, cs', w') \<longrightarrow>
     chain_ok w' cs' \<and> length (w_heap w) \<le> length (w_heap w') \<and> length (pools cs') = length (pools cs) \<and>
     (\<forall>p. r = Inr (Some p) \<longrightarrow> p < length (w_heap w') \<and> answers rq (w_heap w' ! p) \<and>
        (pools cs \<noteq> [] \<longrightarrow> addressed rq (hd (pools cs')) (w_heap w' ! p))))"

lemma request_okD:
  assumes "request_ok rq cs next" "chain_ok w cs" "next w = (r, cs', w')"
  shows "chain_ok w' cs'" "length (w_heap w) \<le> length (w_heap w')" "length (pools cs') = length (pools cs)"
    "r = Inr (Some p) \<Longrightarrow> p < length (w_heap w')" "r = Inr (Some p) \<Longrightarrow> answers rq (w_heap w' ! p)"
    "r = Inr (Some p) \<Longrightarrow> pools cs \<noteq> [] \<Longrightarrow> addressed rq (hd (pools cs')) (w_heap w' ! p)"
  using assms unfolding request_ok_def by blast+

lemma base_request_ok: "request_ok rq cs next \<Longrightarrow> request_ok rq (BaseCompositeEndpoint # cs) (base_Request cs next)"
  by (auto simp: request_ok_def base_Request_def split: if_splits prod.splits)

lemma monitor_request_ok:
  "request_ok rq cs next \<Longrightarrow> request_ok rq (MonitorCompositeEndpoint calls # cs) (monitor_Request calls cs next)"
  by (auto simp: request_ok_def monitor_Request_def split: if_splits prod.splits sum.splits)

lemma ipam_extract_ok:
  assumes "ipam_extract pool rq = (pool', res)" "pool_inv pool"
  shows "pool_inv pool' \<and> (case res of
      Inl _ \<Rightarrow> True
    | Inr (src, dst, req) \<Rightarrow>
        (\<exists>r. map_of (connections pool') (request_id rq) = Some r \<and> cr_prefixes r = req \<and> slash30_of r src dst))"
proof (cases "\<exists>c ctx. LQ_Connection rq = Some c \<and> L_Context c = Some ctx")
  case True
  then obtain c ctx where c: "LQ_Connection rq = Some c" "L_Context c = Some ctx" by blast
  then have e: "Extract pool (L_Id c) IPV4 (ExtraPrefixRequests ctx) = (pool', res)"
    using assms(1) by (simp add: ipam_extract_def)
  have can: "list_all v4_canonical (pool_prefixes pool)"
    using assms(2) by (simp add: pool_inv_def all_prefixes_conn)
  show ?thesis
  proof (cases res)
    case (Inr out)
    obtain src dst req where out: "out = (src, dst, req)" by (cases out) auto
    from extract_slash30 [OF can e [unfolded Inr out]] extract_step(1) [OF assms(2) e]
    show ?thesis by (simp add: Inr out request_id_def c)
  qed (use extract_step(1) [OF assms(2) e] in simp)
next
  case False
  then show ?thesis using assms by (auto simp: ipam_extract_def split: option.splits)
qed

lemma ipam_update_ok:
  assumes "ipam_update env n (src, dst, req) w = (r, w')" "\<forall>p. n = Some p \<longrightarrow> p < length (w_heap w) \<and> answers rq (w_heap w ! p)"
    "map_of (connections pool) (request_id rq) = Some rc" "cr_prefixes rc = req" "slash30_of rc src dst" "r = Inr (Some p)"
  shows "p < length (w_heap w') \<and> answers rq (w_heap w' ! p) \<and> addressed rq pool (w_heap w' ! p)"
  using assms
  by (auto simp: ipam_update_def Let_def answers_def addressed_def ipam_context_def split: option.splits)
    blast

lemma ipam_update_length: "ipam_update env n out w = (r, w') \<Longrightarrow> length (w_heap w') = length (w_heap w)"
  by (auto simp: ipam_update_def Let_def split: option.splits prod.splits)

lemma ipam_request_ok:
  assumes n: "request_ok rq cs next"
  shows "request_ok rq (IpamCompositeEndpoint pool # cs) (ipam_Request env rq pool cs next)"
  unfolding request_ok_def
proof (intro allI impI)
  fix w r cs' w'
  assume ok: "chain_ok w (IpamCompositeEndpoint pool # cs)" and e: "ipam_Request env rq pool cs next w = (r, cs', w')"
  obtain r1 cs1 w1 where nx: "next w = (r1, cs1, w1)" by (rule prod_cases3)
  obtain pool' res where x: "ipam_extract pool rq = (pool', res)" by (rule prod.exhaust)
  from ok have inv: "pool_inv pool" and okc: "chain_ok w cs" by simp_all
  note nd = request_okD [OF n okc nx]
  note xo = ipam_extract_ok [OF x inv]
  consider (none) "cs = []" | (err) e where "cs \<noteq> []" "r1 = Inl e" | (noext) n1 e where "cs \<noteq> []" "r1 = Inr n1" "res = Inl e"
    | (ok) n1 src dst req where "cs \<noteq> []" "r1 = Inr n1" "res = Inr (src, dst, req)"
    by (cases r1; cases res) auto
  then show "chain_ok w' cs' \<and> length (w_heap w) \<le> length (w_heap w') \<and>
      length (pools cs') = length (pools (IpamCompositeEndpoint pool # cs)) \<and>
      (\<forall>p. r = Inr (Some p) \<longrightarrow> p < length (w_heap w') \<and> answers rq (w_heap w' ! p) \<and>
        (pools (IpamCompositeEndpoint pool # cs) \<noteq> [] \<longrightarrow> addressed rq (hd (pools cs')) (w_heap w' ! p)))"
  proof cases
    case ok
    obtain r2 w2 where u: "ipam_update env n1 (src, dst, req) w1 = (r2, w2)" by (rule prod.exhaust)
    have eq: "r = r2" "cs' = IpamCompositeEndpoint pool' # cs1" "w' = w2"
      using e ok u by (simp_all add: ipam_Request_def nx x)
    obtain rc where "map_of (connections pool') (request_id rq) = Some rc" "cr_prefixes rc = req" "slash30_of rc src dst"
      using xo ok(3) by auto
    from ipam_update_ok [OF u _ this] nd(4,5) ok(2) ipam_update_length [OF u] nd(1-3) xo chain_ok_mono
    show ?thesis unfolding eq by auto
  qed (use e nd(1-3) xo inv okc in \<open>auto simp: ipam_Request_def nx x\<close>)
qed

lemma valid_request_connection: "LocalRequest_IsValid (Some rq) = None \<Longrightarrow> \<exists>c0. LQ_Connection rq = Some c0"
  by (auto split: if_splits)

lemma connection_request_ok:
  assumes n: "request_ok rq cs next"
  shows "request_ok rq (ConnectionCompositeEndpoint mt # cs) (connection_Request env rq mt cs next)"
  unfolding request_ok_def
proof (intro allI impI)
  fix w w' :: sdk_world and r cs'
  let ?w1 = "w\<lparr>w_ids := Suc (w_ids w)\<rparr>"
  assume ok: "chain_ok w (ConnectionCompositeEndpoint mt # cs)" and e: "connection_Request env rq mt cs next w = (r, cs', w')"
  have okc: "chain_ok ?w1 cs" using ok by (auto intro: chain_ok_mono)
  obtain r1 cs1 w1 where nx: "next ?w1 = (r1, cs1, w1)" by (rule prod_cases3)
  note nd = request_okD [OF n okc nx]
  consider (early) e where "r = Inl e" "cs' = ConnectionCompositeEndpoint mt # cs" "w' = w \<or> w' = ?w1"
    | (new) m where "cs = []" "r = Inr (Some (length (w_heap w)))" "cs' = [ConnectionCompositeEndpoint mt]"
        "w_heap w' = w_heap w @ [connection_new rq m]" "LocalRequest_IsValid (Some rq) = None"
    | (passed) "cs' = ConnectionCompositeEndpoint mt # cs1" "w' = w1" "\<And>p. r = Inr (Some p) \<Longrightarrow> r1 = r"
    using e nx by (auto simp: connection_Request_def new_conn_def Let_def simp del: LocalRequest_IsValid.simps
        split: option.splits sum.splits if_splits prod.splits)
  then show "chain_ok w' cs' \<and> length (w_heap w) \<le> length (w_heap w') \<and>
      length (pools cs') = length (pools (ConnectionCompositeEndpoint mt # cs)) \<and>
      (\<forall>p. r = Inr (Some p) \<longrightarrow> p < length (w_heap w') \<and> answers rq (w_heap w' ! p) \<and>
        (pools (ConnectionCompositeEndpoint mt # cs) \<noteq> [] \<longrightarrow> addressed rq (hd (pools cs')) (w_heap w' ! p)))"
  proof cases
    case early
    then show ?thesis using ok okc by auto
  next
    case new
    obtain c0 where "LQ_Connection rq = Some c0" using valid_request_connection new(5) by blast
    then show ?thesis using new by (simp add: answers_def connection_new_def)
  next
    case passed
    then show ?thesis using nd by auto
  qed
qed

lemma clear_workspace_heap:
  assumes "clear_workspace q w = Inr w'"
  shows "length (w_heap w') = length (w_heap w)" "p \<noteq> q \<Longrightarrow> w_heap w' ! p = w_heap w ! p"
  using assms by (auto simp: clear_workspace_def Let_def split: option.splits)

lemma client_request_ok:
  assumes n: "request_ok rq cs next"
  shows "request_ok rq (ClientCompositeEndpoint nc mt m # cs) (client_Request env rq nc mt m cs next)"
  unfolding request_ok_def
proof (intro allI impI)
  fix w r cs' w'
  let ?name = "case LQ_Connection rq of None \<Rightarrow> '''' | Some c \<Rightarrow> L_Id c"
  assume ok: "chain_ok w (ClientCompositeEndpoint nc mt m # cs)" and e: "client_Request env rq nc mt m cs next w = (r, cs', w')"
  obtain r1 cs1 w1 where nx: "next w = (r1, cs1, w1)" by (rule prod_cases3)
  have okc: "chain_ok w cs" using ok by simp
  note nd = request_okD [OF n okc nx]
  have c1: "client_ok w1 nc" using ok nd(2) composite_ok_mono [of w "ClientCompositeEndpoint nc mt m" w1] by simp
  obtain r2 nc2 w2 where co: "client_Connect env ?name mt (''Describe '' @ ?name) nc w1 = (r2, nc2, w2)" by (rule prod_cases3)
  note cc = client_Connect_ok [OF co c1]
  have l2: "length (w_heap w1) \<le> length (w_heap w2)" using cc by (auto split: sum.splits)
  consider (none) "cs = []" | (err) e where "cs \<noteq> []" "r1 = Inl e" | (noconn) n1 e where "cs \<noteq> []" "r1 = Inr n1" "r2 = Inl e"
    | (nomap) n1 q e where "cs \<noteq> []" "r1 = Inr n1" "r2 = Inr q" "clear_workspace q w2 = Inl e"
    | (ok) n1 q w3 where "cs \<noteq> []" "r1 = Inr n1" "r2 = Inr q" "clear_workspace q w2 = Inr w3"
    by (cases r1; cases r2) (auto, metis sum.exhaust)
  then show "chain_ok w' cs' \<and> length (w_heap w) \<le> length (w_heap w') \<and>
      length (pools cs') = length (pools (ClientCompositeEndpoint nc mt m # cs)) \<and>
      (\<forall>p. r = Inr (Some p) \<longrightarrow> p < length (w_heap w') \<and> answers rq (w_heap w' ! p) \<and>
        (pools (ClientCompositeEndpoint nc mt m # cs) \<noteq> [] \<longrightarrow> addressed rq (hd (pools cs')) (w_heap w' ! p)))"
  proof cases
    case ok
    have eq: "r = Inr n1" "w' = w3" "\<exists>m'. cs' = ClientCompositeEndpoint nc2 mt m' # cs1"
      using e ok co by (auto simp: client_Request_def nx Let_def)
    note h3 = clear_workspace_heap [OF ok(4)]
    have "client_ok w3 nc2" using cc h3(1) by (simp add: client_ok_def)
    moreover have "p < length (w_heap w1) \<Longrightarrow> w_heap w3 ! p = w_heap w1 ! p" for p
      using cc ok(3) h3(2) [of p] by (auto simp: nth_append)
    ultimately show ?thesis
      using eq nd ok(2) h3(1) l2 chain_ok_mono [OF nd(1), of w3] by fastforce
  qed (use e nd(1-3) c1 ok cc l2 co chain_ok_mono [OF nd(1), of w2] in \<open>auto simp: client_Request_def nx Let_def client_ok_def\<close>)
qed

lemma composite_request_ok: "request_ok rq cs (composite_Request env rq cs)"
proof (induction cs)
  case Nil
  then show ?case by (simp add: request_ok_def)
next
  case (Cons c cs)
  then show ?case
    by (cases c) (simp_all add: base_request_ok ipam_request_ok connection_request_ok client_request_ok monitor_request_ok
        Let_def composite_Request.simps [abs_def])
qed

subsection \<open>The contract of a close handler\<close>

definition released :: "string \<Rightarrow> prefixPool \<Rightarrow> prefixPool \<Rightarrow> bool" where
  "released c p p' \<longleftrightarrow> pool_inv p' \<and> connections p' = AList.delete c (connections p) \<and>
     (\<forall>ip. length ip = 4 \<longrightarrow> cover (all_prefixes p') ip = cover (all_prefixes p) ip)"

definition close_ok :: "LocalConnection \<Rightarrow> composite list \<Rightarrow> close_handler \<Rightarrow> bool" where
  "close_ok conn cs next \<longleftrightarrow> (\<forall>w. chain_ok w cs \<longrightarrow> cs \<noteq> [] \<longrightarrow> (\<exists>cs' w'. next w = Some (None, cs', w') \<and>
     chain_ok w' cs' \<and> w_heap w' = w_heap w \<and> list_all2 (released (L_Id conn)) (pools cs) (pools cs') \<and>
     monitors cs' = map (\<lambda>calls. calls @ [Monitor_Delete conn]) (monitors cs)))"

lemma then_close_ok:
  assumes "close_ok conn cs next" "chain_ok w cs"
  shows "\<exists>cs' w'. then_close self cs next w = Some (None, self # cs', w') \<and>
     chain_ok w' cs' \<and> w_heap w' = w_heap w \<and> list_all2 (released (L_Id conn)) (pools cs) (pools cs') \<and>
     monitors cs' = map (\<lambda>calls. calls @ [Monitor_Delete conn]) (monitors cs)"
proof (cases "cs = []")
  case False
  then obtain cs' w' where "next w = Some (None, cs', w')" "chain_ok w' cs'" "w_heap w' = w_heap w"
    "list_all2 (released (L_Id conn)) (pools cs) (pools cs')"
    "monitors cs' = map (\<lambda>calls. calls @ [Monitor_Delete conn]) (monitors cs)"
    using assms unfolding close_ok_def by blast
  then show ?thesis using False by (simp add: then_close_def)
qed (simp add: then_close_def)

lemma release_released:
  assumes "pool_inv p" "orders_ok o1"
  shows "\<exists>p' err. Release o1 p c = Some (p', err) \<and> \<not> is_panic err \<and> released c p p'"
proof (cases "map_of (connections p) c")
  case None
  then have "AList.delete c (connections p) = connections p"
    by (simp add: delete_fresh map_of_eq_None_iff)
  with None show ?thesis using assms(1) by (auto simp: Release_def is_panic_def released_def)
next
  case (Some r)
  from release_record [OF assms Some] obtain ps where
    r: "Release o1 p c = Some (p\<lparr>connections := AList.delete c (connections p), pool_prefixes := ps\<rparr>, None)" by blast
  from release_step [OF assms r] r show ?thesis by (auto simp: is_panic_def released_def)
qed

lemma composite_close_ok:
  assumes o: "orders_ok (e_Orders env)"
  shows "close_ok conn cs (composite_Close env conn cs)"
proof (induction cs)
  case Nil
  then show ?case by (simp add: close_ok_def)
next
  case (Cons c cs)
  let ?next = "composite_Close env conn cs"
  show ?case unfolding close_ok_def
  proof (intro allI impI)
    fix w assume ok: "chain_ok w (c # cs)"
    then have okc: "chain_ok w cs" by simp
    show "\<exists>cs' w'. composite_Close env conn (c # cs) w = Some (None, cs', w') \<and> chain_ok w' cs' \<and> w_heap w' = w_heap w \<and>
      list_all2 (released (L_Id conn)) (pools (c # cs)) (pools cs') \<and>
      monitors cs' = map (\<lambda>calls. calls @ [Monitor_Delete conn]) (monitors (c # cs))"
    proof (cases c)
      case (IpamCompositeEndpoint p)
      with ok obtain p' err where r: "Release (e_Orders env) p (L_Id conn) = Some (p', err)" "\<not> is_panic err"
        "released (L_Id conn) p p'" using release_released [OF _ o, of p "L_Id conn"] by auto
      from then_close_ok [OF Cons okc, of "IpamCompositeEndpoint p'"] r IpamCompositeEndpoint
      show ?thesis by (auto simp: ipam_Close_def released_def)
    next
      case (ClientCompositeEndpoint nc mt m)
      show ?thesis
      proof (cases "map_of m (L_Id conn)")
        case None
        with then_close_ok [OF Cons okc, of c] ClientCompositeEndpoint ok show ?thesis
          by (auto simp: composite_client_Close_def client_ok_def)
      next
        case (Some q)
        let ?w = "w\<lparr>w_closes := w_closes w @ [deref w (Some q)]\<rparr>"
        obtain nc' where c: "client_Close (Some q) nc w = (None, nc', ?w)" "client_ok w nc'"
          using client_Close_ok [of w nc q] ok ClientCompositeEndpoint by auto
        have "chain_ok ?w cs" using okc by (auto intro: chain_ok_mono)
        from then_close_ok [OF Cons this, of "ClientCompositeEndpoint nc' mt m"] c Some ClientCompositeEndpoint
        show ?thesis by (auto simp: composite_client_Close_def is_panic_def client_ok_def)
      qed
    next
      case (MonitorCompositeEndpoint calls)
      with then_close_ok [OF Cons okc, of "MonitorCompositeEndpoint (calls @ [Monitor_Delete conn])"]
      show ?thesis by (auto simp: monitor_Close_def)
    qed (use then_close_ok [OF Cons okc, of c] in auto)
  qed
qed

subsection \<open>Runs of a chain\<close>

text \<open>
  A chain begins with new composites, whatever their number and order; then it serves
  requests and closes, in whatever environment.
\<close>

fun new_composite :: "composite \<Rightarrow> bool" where
  "new_composite (IpamCompositeEndpoint p) \<longleftrightarrow>
     (\<exists>ps. p = NewPrefixPool ps \<and> list_all v4_canonical ps \<and> overlap_free ps)"
| "new_composite (ClientCompositeEndpoint nc mt m) \<longleftrightarrow> OutgoingConnections nc = [] \<and> m = []"
| "new_composite (MonitorCompositeEndpoint calls) \<longleftrightarrow> calls = []"
| "new_composite _ \<longleftrightarrow> True"

inductive chain_run :: "composite list \<Rightarrow> sdk_world \<Rightarrow> bool" where
  chain_start: "\<forall>c \<in> set cs. new_composite c \<Longrightarrow> chain_run cs w"
| chain_request: "chain_run cs w \<Longrightarrow> composite_Request env rq cs w = (r, cs', w') \<Longrightarrow> chain_run cs' w'"
| chain_close: "chain_run cs w \<Longrightarrow> orders_ok (e_Orders env) \<Longrightarrow> composite_Close env conn cs w = Some (e, cs', w') \<Longrightarrow>
    chain_run cs' w'"

lemma new_composite_ok: "new_composite c \<Longrightarrow> composite_ok w c"
  by (cases c) (auto simp: client_ok_def NewPrefixPool_inv)

lemma chain_run_ok: "chain_run cs w \<Longrightarrow> chain_ok w cs"
proof (induction rule: chain_run.induct)
  case (chain_start cs w)
  then show ?case by (auto simp: chain_ok_def new_composite_ok)
next
  case (chain_request cs w env rq r cs' w')
  then show ?case using request_okD(1) [OF composite_request_ok] by blast
next
  case (chain_close cs w env conn e cs' w')
  show ?case
  proof (cases "cs = []")
    case False
    then show ?thesis
      using composite_close_ok [OF chain_close.hyps(2), of conn cs] chain_close by (fastforce simp: close_ok_def)
  qed (use chain_close in simp)
qed

subsection \<open>Properties\<close>

text \<open>
  C33: A chain of composites, whatever they are and in whatever order, gives addresses only of
  its pools. After any requests and closes, when a request to a chain with at least one
  pool returns a connection, that connection is complete and has the identity and
  the network service of the request; the outermost pool holds a record
  for it, its source and destination are the two addresses of the /30 network of that
  record, and its extra prefixes are those of the record. No two records of any pool
  of the chain overlap, nor does a record overlap what is free.
\<close>

theorem composite_request_addresses:
  assumes "chain_run cs w" "composite_Request env rq cs w = (Inr (Some p), cs', w')" "pools cs \<noteq> []"
  shows "\<exists>c0 c ctx r src dst. LQ_Connection rq = Some c0 \<and> w_heap w' ! p = c \<and> p < length (w_heap w') \<and>
    LocalConnection_IsComplete (Some c) = None \<and> L_Id c = L_Id c0 \<and> L_NetworkService c = L_NetworkService c0 \<and>
    L_Context c = Some ctx \<and> map_of (connections (hd (pools cs'))) (L_Id c0) = Some r \<and> slash30_of r src dst \<and>
    SrcIpAddr ctx = IPNet_String src \<and> DstIpAddr ctx = IPNet_String dst \<and> ExtraPrefixes ctx = cr_prefixes r \<and>
    (\<forall>q \<in> set (pools cs'). list_all v4_canonical (all_prefixes q) \<and> overlap_free (all_prefixes q))"
proof -
  note rd = request_okD [OF composite_request_ok chain_run_ok [OF assms(1)] assms(2)]
  from rd(5) [OF refl] obtain c0 where "LQ_Connection rq = Some c0" "L_Id (w_heap w' ! p) = L_Id c0"
    "L_NetworkService (w_heap w' ! p) = L_NetworkService c0" by (auto simp: answers_def)
  moreover have "\<forall>q \<in> set (pools cs'). list_all v4_canonical (all_prefixes q) \<and> overlap_free (all_prefixes q)"
    using chain_ok_pools [OF rd(1)] by (simp add: pool_inv_def)
  ultimately show ?thesis
    using rd(4) rd(6) [OF refl assms(3)] by (auto simp: addressed_def request_id_def)
qed

text \<open>
  C34: Closing always works. After any requests and closes, whatever failed in between, closing a
  connection in a nonempty chain ends without an error or a panic: every pool has no
  record of the connection any more and all other records as before, with the
  addresses of the connection free again and none lost, and every monitor is told of the
  deletion, once.
\<close>

theorem composite_close_releases:
  assumes "chain_run cs w" "cs \<noteq> []" "orders_ok (e_Orders env)"
  shows "\<exists>cs' w'. composite_Close env conn cs w = Some (None, cs', w') \<and>
    list_all2 (\<lambda>p p'. connections p' = AList.delete (L_Id conn) (connections p) \<and> overlap_free (all_prefixes p') \<and>
       (\<forall>ip. length ip = 4 \<longrightarrow> cover (all_prefixes p') ip = cover (all_prefixes p) ip)) (pools cs) (pools cs') \<and>
    monitors cs' = map (\<lambda>calls. calls @ [Monitor_Delete conn]) (monitors cs)"
proof -
  from composite_close_ok [OF assms(3), of conn cs] chain_run_ok [OF assms(1)] assms(2)
  obtain cs' w' where "composite_Close env conn cs w = Some (None, cs', w')"
    and l: "list_all2 (released (L_Id conn)) (pools cs) (pools cs')"
    and "monitors cs' = map (\<lambda>calls. calls @ [Monitor_Delete conn]) (monitors cs)"
    unfolding close_ok_def by blast
  moreover from l have "list_all2 (\<lambda>p p'. connections p' = AList.delete (L_Id conn) (connections p) \<and>
      overlap_free (all_prefixes p') \<and>
      (\<forall>ip. length ip = 4 \<longrightarrow> cover (all_prefixes p') ip = cover (all_prefixes p) ip)) (pools cs) (pools cs')"
    by (rule list.rel_mono_strong) (simp add: released_def pool_inv_def)
  ultimately show ?thesis by blast
qed

subsection \<open>An example\<close>

definition ex_sdk_env :: sdk_env where
  "ex_sdk_env = \<lparr>e_shortid = (\<lambda>_. Inr ''aB-3_x''), e_NetNs = Inr ''4026531992'', e_Interfaces = Inr [],
     e_NSM = (\<lambda>_ _. Inl (Errorf ''down'')),
     e_Orders = \<lparr>ord_levels = (\<lambda>_ x. x), ord_base = (\<lambda>_ _ x. x), ord_result = (\<lambda>x. x)\<rparr>\<rparr>"

definition ex_world :: sdk_world where
  "ex_world = \<lparr>w_heap = [], w_ids = 0, w_requests = [], w_closes = []\<rparr>"

definition ex_chain :: "composite list" where
  "ex_chain = [MonitorCompositeEndpoint [], IpamCompositeEndpoint (NewPrefixPool [''10.20.0.0/16'']),
     ConnectionCompositeEndpoint KERNEL_INTERFACE]"

definition ex_sdk_request :: "string \<Rightarrow> LocalRequest" where
  "ex_sdk_request i = \<lparr>LQ_Connection = Some \<lparr>L_Id = i, L_NetworkService = ''icmp'', L_Mechanism = None,
       L_Context = Some empty_context, L_Labels = [], L_State = UP\<rparr>,
     LQ_MechanismPreferences = [\<lparr>LM_Type = KERNEL_INTERFACE, LM_Parameters = None\<rparr>]\<rparr>"

lemma default_route [simp]: "\<exists>x. ParseCIDR ''8.8.8.8/30'' = Inr x"
proof -
  have "anet_str 4 (134744072, 30) = ''8.8.8.8/30''" by (simp add: anet_str_def anet_net_def go_simps)
  then have "v4_canonical ''8.8.8.8/30''" unfolding v4_canonical_iff
    by (intro exI [of _ "(134744072, 30)"]) (simp add: anet_wf_def)
  then show ?thesis by (auto simp: v4_canonical_def split: sum.splits)
qed

lemma ex_mechanism:
  "\<exists>m. NewMechanism (Inr ''4026531992'') KERNEL_INTERFACE (generateIfName ''aB-3_x'') ''NSM Endpoint'' = Inr m \<and>
     LocalMechanism_IsValid (Some m) = None"
  by (simp add: NewMechanism_def generateIfName_def LocalMechanism_IsValid_def ParseUint_def is_dec_def dec_val_def of_char_def
      NetNsInodeKey_def InterfaceNameKey_def InterfaceDescriptionKey_def SocketFilename_def LinuxIfMaxLength_def Let_def)

lemma ex_run: "chain_run ex_chain w"
  by (rule chain_start) (auto simp: ex_chain_def)

lemma ex_extracts: "\<exists>p' src dst. Extract (NewPrefixPool [''10.20.0.0/16'']) c IPV4 [] = (p', Inr (src, dst, []))"
  using extract_succeeds [of "NewPrefixPool [''10.20.0.0/16'']" "''10.20.0.0/16''" c] by (simp add: NewPrefixPool_def)

lemma ex_connected:
  "\<exists>m. connection_Request ex_sdk_env (ex_sdk_request i) KERNEL_INTERFACE [] next ex_world =
     (Inr (Some 0), [ConnectionCompositeEndpoint KERNEL_INTERFACE],
      ex_world\<lparr>w_ids := 1, w_heap := [connection_new (ex_sdk_request i) m]\<rparr>) \<and> LocalMechanism_IsValid (Some m) = None"
  using ex_mechanism
  by (auto simp: connection_Request_def ex_sdk_env_def ex_sdk_request_def LocalConnection_IsValid_def new_conn_def ex_world_def Let_def)

lemma ex_request:
  assumes "Extract (NewPrefixPool [''10.20.0.0/16'']) i IPV4 [] = (pool, Inr (src, dst, []))"
  shows "\<exists>w'. composite_Request ex_sdk_env (ex_sdk_request i) ex_chain ex_world =
    (if i = '''' then (Inl (Errorf ''Connection.Id cannot be empty: %v''),
       [MonitorCompositeEndpoint [], IpamCompositeEndpoint pool, ConnectionCompositeEndpoint KERNEL_INTERFACE], w')
     else (Inr (Some 0),
       [MonitorCompositeEndpoint [Monitor_Update (Some 0)], IpamCompositeEndpoint pool,
        ConnectionCompositeEndpoint KERNEL_INTERFACE], w'))"
proof -
  obtain m where c: "connection_Request ex_sdk_env (ex_sdk_request i) KERNEL_INTERFACE []
      (composite_Request ex_sdk_env (ex_sdk_request i) []) ex_world =
     (Inr (Some 0), [ConnectionCompositeEndpoint KERNEL_INTERFACE],
      ex_world\<lparr>w_ids := 1, w_heap := [connection_new (ex_sdk_request i) m]\<rparr>)" and m: "LocalMechanism_IsValid (Some m) = None"
    using ex_connected by blast
  have x: "ipam_extract (NewPrefixPool [''10.20.0.0/16'']) (ex_sdk_request i) = (pool, Inr (src, dst, []))"
    using assms by (simp add: ipam_extract_def ex_sdk_request_def empty_context_def)
  obtain d where d: "ParseCIDR ''8.8.8.8/30'' = Inr d" using default_route by blast
  obtain r w' where u: "ipam_update ex_sdk_env (Some 0) (src, dst, [])
      (ex_world\<lparr>w_ids := 1, w_heap := [connection_new (ex_sdk_request i) m]\<rparr>) = (r, w')" by (rule prod.exhaust)
  have "r = (if i = '''' then Inl (Errorf ''Connection.Id cannot be empty: %v'') else Inr (Some 0))"
    using u d m by (auto simp: ipam_update_def connection_new_def ex_sdk_request_def ipam_context_def ipam_neighbors_def
        ex_sdk_env_def LocalConnection_IsComplete_def LocalConnection_IsValid_def Context_IsComplete_def empty_context_def
        Let_def split: if_splits)
  then show ?thesis
    using c x u by (auto simp: ex_chain_def monitor_Request_def ipam_Request_def)
qed

theorem composite_request_addresses_witness:
  "\<exists>cs' w' r. composite_Request ex_sdk_env (ex_sdk_request ''c1'') ex_chain ex_world = (Inr (Some 0), cs', w') \<and>
     map_of (connections (hd (pools cs'))) ''c1'' = Some r \<and> L_NetworkService (w_heap w' ! 0) = ''icmp''"
proof -
  obtain pool src dst where "Extract (NewPrefixPool [''10.20.0.0/16'']) ''c1'' IPV4 [] = (pool, Inr (src, dst, []))"
    using ex_extracts by blast
  from ex_request [OF this] obtain cs' w' where
    e: "composite_Request ex_sdk_env (ex_sdk_request ''c1'') ex_chain ex_world = (Inr (Some 0), cs', w')" by auto
  have "pools ex_chain \<noteq> []" by (simp add: ex_chain_def)
  from composite_request_addresses [OF ex_run e this] e show ?thesis by (auto simp: ex_sdk_request_def)
qed

theorem composite_close_releases_witness:
  "\<exists>cs' w'. composite_Close ex_sdk_env \<lparr>L_Id = ''c1'', L_NetworkService = ''icmp'', L_Mechanism = None, L_Context = None,
      L_Labels = [], L_State = UP\<rparr> ex_chain ex_world = Some (None, cs', w') \<and> length (monitors cs') = 1"
proof -
  have "ex_chain \<noteq> []" "orders_ok (e_Orders ex_sdk_env)" using orders_ok_id by (simp_all add: ex_chain_def ex_sdk_env_def)
  from composite_close_releases [OF ex_run [of ex_world] this, of "\<lparr>L_Id = ''c1'', L_NetworkService = ''icmp'', L_Mechanism = None,
      L_Context = None, L_Labels = [], L_State = UP\<rparr>"]
  show ?thesis by (auto simp: ex_chain_def)
qed

subsection \<open>Flaws\<close>

text \<open>A request that turns out incomplete after the addresses were taken keeps them: the record stays.\<close>

lemma incomplete_request_leaks:
  "\<exists>e pool cs' w' r. composite_Request ex_sdk_env (ex_sdk_request '''') ex_chain ex_world =
     (Inl e, MonitorCompositeEndpoint [] # IpamCompositeEndpoint pool # cs', w') \<and> map_of (connections pool) '''' = Some r"
proof -
  obtain pool src dst where x: "Extract (NewPrefixPool [''10.20.0.0/16'']) '''' IPV4 [] = (pool, Inr (src, dst, []))"
    using ex_extracts by blast
  have "list_all v4_canonical (pool_prefixes (NewPrefixPool [''10.20.0.0/16'']))" by (simp add: NewPrefixPool_def)
  from extract_slash30 [OF this x] ex_request [OF x] show ?thesis by auto
qed

text \<open>The client forgets nothing: the list of outgoing connections keeps its length, with nil for what was closed.\<close>

lemma closed_slot_kept:
  assumes "distinct (live (OutgoingConnections nc))" "client_Close (Some p) nc w = (e, nc', w')"
  shows "length (OutgoingConnections nc') = length (OutgoingConnections nc)"
  using assms close_loop_live [OF assms(1), of p] by (auto simp: client_Close_def Let_def)

end
