(* ===== verification/Sriov.thy ===== *)
theory Sriov
  imports Converter
begin

text \<open>
  The SR-IOV controller (\<open>controllers/sriov-controller\<close>). The config controller turns changes of a
  config map into messages; the service controller keeps one instance for each network
  service that has virtual functions; the controller of an instance advertises its devices
  to the kubelet. The goroutines and their channels are a step relation: an unbuffered
  send and its receive are one step, and what a goroutine does under a lock is one step.
\<close>

subsection \<open>Data\<close>

datatype operationType = operationAdd | operationDeleteAll | operationUpdate | operationDeleteEntry

record VF =
  VF_NetworkService :: string
  VF_PCIAddr :: string
  VF_ParentDevice :: string
  VFLocalID :: "32 word"
  VFIODevice :: string

record configMessage =
  m_op :: operationType
  m_pciAddr :: string
  m_vf :: VF

record ConfigMap =
  cm_ResourceVersion :: string
  cm_Data :: "(string, string) gomap"

definition empty_VF :: VF where
  "empty_VF = \<lparr>VF_NetworkService = '''', VF_PCIAddr = '''', VF_ParentDevice = '''', VFLocalID = 0, VFIODevice = ''''\<rparr>"

subsection \<open>The config controller\<close>

text \<open>What the handlers of the informer put into the work queue.\<close>

definition informer_add :: "ConfigMap \<Rightarrow> (operationType \<times> ConfigMap) list" where
  "informer_add cm = [(operationAdd, cm)]"

definition informer_update :: "ConfigMap \<Rightarrow> ConfigMap \<Rightarrow> (operationType \<times> ConfigMap) list" where
  "informer_update old new =
     (if cm_ResourceVersion new = cm_ResourceVersion old then [] else [(operationUpdate, new)])"

definition informer_delete :: "ConfigMap \<Rightarrow> (operationType \<times> ConfigMap) list" where
  "informer_delete cm = [(operationDeleteAll, cm)]"

text \<open>The loop of \<open>processConfigMap\<close>; \<open>unmarshal\<close> is the YAML decoder.\<close>

fun parse_entries :: "(string \<Rightarrow> VF result) \<Rightarrow> (string \<times> string) list \<Rightarrow> (string, VF) gomap \<Rightarrow> (string, VF) gomap result" where
  "parse_entries unmarshal [] vfs = Inr vfs"
| "parse_entries unmarshal ((k, v) # kvs) vfs =
     (case unmarshal v of
        Inl e \<Rightarrow> Inl e
      | Inr vf \<Rightarrow> parse_entries unmarshal kvs (AList.update k vf vfs))"

record config_env =
  c_unmarshal :: "string \<Rightarrow> VF result"
  c_range_data :: "(string \<times> string) list \<Rightarrow> (string \<times> string) list"
  c_range_add :: "(string \<times> VF) list \<Rightarrow> (string \<times> VF) list"
  c_range_delete :: "(string \<times> VF) list \<Rightarrow> (string \<times> VF) list"

definition processConfigMap :: "config_env \<Rightarrow> ConfigMap \<Rightarrow> (string, VF) gomap result" where
  "processConfigMap env cm = parse_entries (c_unmarshal env) (c_range_data env (cm_Data cm)) []"

definition messages :: "operationType \<Rightarrow> (string \<times> VF) list \<Rightarrow> configMessage list" where
  "messages op entries = map (\<lambda>(k, vf). \<lparr>m_op = op, m_pciAddr = k, m_vf = vf\<rparr>) entries"

text \<open>
  The handlers: the functions the controller then knows, and the messages it sends to the
  service controller.
\<close>

type_synonym config_step = "(string, VF) gomap \<Rightarrow> error option \<times> (string, VF) gomap \<times> configMessage list"

definition processConfigMapAdd :: "config_env \<Rightarrow> ConfigMap \<Rightarrow> config_step" where
  "processConfigMapAdd env cm vfs0 =
     (case processConfigMap env cm of
        Inl e \<Rightarrow> (Some e, vfs0, [])
      | Inr vfs \<Rightarrow> (None, vfs, messages operationAdd (c_range_add env vfs)))"

definition diffMap :: "(string, VF) gomap \<Rightarrow> (string, VF) gomap \<Rightarrow> (string, VF) gomap" where
  "diffMap m1 m2 = filter (\<lambda>(k, _). map_of m2 k = None) m1"

definition processConfigMapUpdate :: "config_env \<Rightarrow> ConfigMap \<Rightarrow> config_step" where
  "processConfigMapUpdate env cm oldConfig =
     (case processConfigMap env cm of
        Inl e \<Rightarrow> (Some e, oldConfig, [])
      | Inr vfs \<Rightarrow>
          (None, vfs, messages operationDeleteEntry (c_range_delete env (diffMap oldConfig vfs)) @
                      messages operationAdd (c_range_add env (diffMap vfs oldConfig))))"

definition processConfigMapDelete :: config_step where
  "processConfigMapDelete vfs0 = (None, [], [\<lparr>m_op = operationDeleteAll, m_pciAddr = '''', m_vf = empty_VF\<rparr>])"

text \<open>One turn of \<open>workforever\<close>: errors are logged.\<close>

definition work :: "config_env \<Rightarrow> operationType \<times> ConfigMap \<Rightarrow> (string, VF) gomap \<Rightarrow> (string, VF) gomap \<times> configMessage list" where
  "work env ev vfs =
     (case ev of (op, cm) \<Rightarrow>
        snd (case op of
               operationAdd \<Rightarrow> processConfigMapAdd env cm vfs
             | operationUpdate \<Rightarrow> processConfigMapUpdate env cm vfs
             | operationDeleteAll \<Rightarrow> processConfigMapDelete vfs
             | operationDeleteEntry \<Rightarrow> (None, vfs, [])))"

fun workforever :: "(config_env \<times> operationType \<times> ConfigMap) list \<Rightarrow> (string, VF) gomap \<Rightarrow> (string, VF) gomap \<times> configMessage list" where
  "workforever [] vfs = (vfs, [])"
| "workforever ((env, ev) # evs) vfs =
     (case work env ev vfs of
        (vfs1, ms) \<Rightarrow> (case workforever evs vfs1 of (vfs2, ms') \<Rightarrow> (vfs2, ms @ ms')))"

subsection \<open>The controller of an instance\<close>

datatype registrationState = notRegistered | registrationInProgress | registered

text \<open>
  Where its goroutines are. \<open>Run\<close> waits for a message, or is about to signal an update; after a
  deletion it does so with the lock held. \<open>ListAndWatch\<close> has not been called, is
  about to build and send the list, waits, or has returned.
\<close>

datatype run_phase = RunIdle | Notify | DeleteNotify

datatype watch_phase = WatchOff | WatchBuild | WatchIdle | WatchDone

record serviceInstance =
  si_vfs :: "(string, VF) gomap"
  sic_vfs :: "(string, VF) gomap"
  regState :: registrationState
  networkServiceName :: string
  regUpdateCh :: nat
  run :: run_phase
  watch :: watch_phase
  sent_lists :: "string list list"
  doneCh :: bool

definition updateChannelBufferSize :: nat where "updateChannelBufferSize = 10"

definition newServiceInstance :: "(string, VF) gomap \<Rightarrow> serviceInstance" where
  "newServiceInstance vfs = \<lparr>si_vfs = vfs, sic_vfs = [], regState = notRegistered, networkServiceName = '''',
     regUpdateCh = 0, run = RunIdle, watch = WatchOff, sent_lists = [], doneCh = False\<rparr>"

text \<open>The socket of the device plugin, below the directory the kubelet documents.\<close>

definition device_socket :: "string \<Rightarrow> string \<Rightarrow> string" where
  "device_socket serverBasePath name =
     path_Join [serverBasePath, map (\<lambda>c. if c = CHR ''/'' then CHR ''-'' else c) name @ ''.sock'']"

definition startDevicePlugin :: "configMessage \<Rightarrow> serviceInstance \<Rightarrow> serviceInstance" where
  "startDevicePlugin msg s = s\<lparr>networkServiceName := VF_NetworkService (m_vf msg)\<rparr>"

definition processAddVF :: "configMessage \<Rightarrow> serviceInstance \<Rightarrow> serviceInstance" where
  "processAddVF msg s =
     (let s1 = (if regState s = notRegistered then startDevicePlugin msg (s\<lparr>regState := registrationInProgress\<rparr>) else s)
      in s1\<lparr>sic_vfs := AList.update (m_pciAddr msg) (m_vf msg) (sic_vfs s1), run := Notify\<rparr>)"

definition processDeleteVF :: "configMessage \<Rightarrow> serviceInstance \<Rightarrow> serviceInstance" where
  "processDeleteVF msg s = s\<lparr>sic_vfs := AList.delete (m_pciAddr msg) (sic_vfs s), run := DeleteNotify\<rparr>"

text \<open>A message is received by \<open>Run\<close>; unknown operations are logged.\<close>

definition run_message :: "configMessage \<Rightarrow> serviceInstance \<Rightarrow> serviceInstance" where
  "run_message msg s =
     (case m_op msg of
        operationAdd \<Rightarrow> processAddVF msg s
      | operationDeleteEntry \<Rightarrow> processDeleteVF msg s
      | _ \<Rightarrow> s)"

definition buildDeviceList :: "((string \<times> VF) list \<Rightarrow> (string \<times> VF) list) \<Rightarrow> serviceInstance \<Rightarrow> string list" where
  "buildDeviceList ord s = map (\<lambda>(_, vf). VFIODevice vf) (ord (sic_vfs s))"

text \<open>The steps of an instance on its own, with the kubelet that registers it and calls \<open>ListAndWatch\<close>.\<close>

inductive instance_step :: "serviceInstance \<Rightarrow> serviceInstance \<Rightarrow> bool" where
  notify: "run s \<noteq> RunIdle \<Longrightarrow> regUpdateCh s < updateChannelBufferSize \<Longrightarrow>
    instance_step s (s\<lparr>regUpdateCh := Suc (regUpdateCh s), run := RunIdle\<rparr>)"
| register: "regState s = registrationInProgress \<Longrightarrow> instance_step s (s\<lparr>regState := registered\<rparr>)"
| kubelet: "regState s = registered \<Longrightarrow> watch s = WatchOff \<Longrightarrow> instance_step s (s\<lparr>watch := WatchBuild\<rparr>)"
| build: "watch s = WatchBuild \<Longrightarrow> run s \<noteq> DeleteNotify \<Longrightarrow> is_order ord \<Longrightarrow>
    instance_step s (s\<lparr>sent_lists := sent_lists s @ [buildDeviceList ord s], watch := WatchIdle\<rparr>)"
| update: "watch s = WatchIdle \<Longrightarrow> regUpdateCh s = Suc n \<Longrightarrow> instance_step s (s\<lparr>regUpdateCh := n, watch := WatchBuild\<rparr>)"

definition stopWatch :: "serviceInstance \<Rightarrow> serviceInstance" where
  "stopWatch s = s\<lparr>sent_lists := sent_lists s @ [[]], watch := WatchDone, doneCh := True\<rparr>"

subsection \<open>The service controller\<close>

text \<open>
  \<open>ScSend\<close>: handing a message to an instance; \<open>ScStop\<close>: stopping instances, with the services
  there are afterwards; \<open>ScWait\<close>: waiting for one of them to confirm.
\<close>

datatype service_phase =
    ScIdle
  | ScSend configMessage nat
  | ScStop "nat list" "(string, nat) gomap"
  | ScWait nat "nat list" "(string, nat) gomap"

record sriov =
  inbox :: "configMessage list"
  phase :: service_phase
  sriovNetServices :: "(string, nat) gomap"
  instances :: "serviceInstance list"

definition service_start :: "configMessage list \<Rightarrow> sriov" where
  "service_start ms = \<lparr>inbox = ms, phase = ScIdle, sriovNetServices = [], instances = []\<rparr>"

definition set_instance :: "nat \<Rightarrow> serviceInstance \<Rightarrow> sriov \<Rightarrow> sriov" where
  "set_instance i s st = st\<lparr>instances := (instances st)[i := s]\<rparr>"

definition processAdd :: "configMessage \<Rightarrow> sriov \<Rightarrow> sriov" where
  "processAdd msg st =
     (let name = VF_NetworkService (m_vf msg) in
      case map_of (sriovNetServices st) name of
        None \<Rightarrow>
          st\<lparr>sriovNetServices := AList.update name (length (instances st)) (sriovNetServices st),
             instances := instances st @ [newServiceInstance [(m_pciAddr msg, m_vf msg)]],
             phase := ScSend msg (length (instances st))\<rparr>
      | Some i \<Rightarrow>
          (set_instance i ((instances st ! i)\<lparr>si_vfs := AList.update (m_pciAddr msg) (m_vf msg) (si_vfs (instances st ! i))\<rparr>) st)
             \<lparr>phase := ScSend msg i\<rparr>)"

text \<open>\<open>processDeleteEntry\<close> and \<open>processUpdate\<close> up to the send; the new map of the latter is assigned to a copy.\<close>

definition processExisting :: "configMessage \<Rightarrow> sriov \<Rightarrow> sriov" where
  "processExisting msg st =
     (case map_of (sriovNetServices st) (VF_NetworkService (m_vf msg)) of
        None \<Rightarrow> st
      | Some i \<Rightarrow> st\<lparr>phase := ScSend msg i\<rparr>)"

text \<open>\<open>processDeleteEntry\<close> after the send.\<close>

definition afterDelete :: "configMessage \<Rightarrow> nat \<Rightarrow> sriov \<Rightarrow> sriov" where
  "afterDelete msg i st =
     (let vfs = AList.delete (m_pciAddr msg) (si_vfs (instances st ! i));
          st1 = set_instance i ((instances st ! i)\<lparr>si_vfs := vfs\<rparr>) st
      in st1\<lparr>phase := if vfs = [] then ScStop [i] (AList.delete (VF_NetworkService (m_vf msg)) (sriovNetServices st))
                      else ScIdle\<rparr>)"

definition service_Stop :: "((string \<times> nat) list \<Rightarrow> (string \<times> nat) list) \<Rightarrow> sriov \<Rightarrow> sriov" where
  "service_Stop ord st = st\<lparr>phase := ScStop (map snd (ord (sriovNetServices st))) []\<rparr>"

definition service_message :: "((string \<times> nat) list \<Rightarrow> (string \<times> nat) list) \<Rightarrow> configMessage \<Rightarrow> sriov \<Rightarrow> sriov" where
  "service_message ord msg st =
     (case m_op msg of
        operationAdd \<Rightarrow> processAdd msg st
      | operationDeleteEntry \<Rightarrow> processExisting msg st
      | operationDeleteAll \<Rightarrow> service_Stop ord st
      | operationUpdate \<Rightarrow> processExisting msg st)"

text \<open>The send of a message meets its receive; then the service controller goes on.\<close>

definition hand_over :: "configMessage \<Rightarrow> nat \<Rightarrow> sriov \<Rightarrow> sriov" where
  "hand_over msg i st =
     (let st1 = (set_instance i (run_message msg (instances st ! i)) st)\<lparr>phase := ScIdle\<rparr>
      in if m_op msg = operationDeleteEntry then afterDelete msg i st1 else st1)"

inductive sriov_step :: "sriov \<Rightarrow> sriov \<Rightarrow> bool" where
  sc_take: "phase st = ScIdle \<Longrightarrow> inbox st = msg # ms \<Longrightarrow> is_order ord \<Longrightarrow>
    sriov_step st (service_message ord msg (st\<lparr>inbox := ms\<rparr>))"
| sc_hand: "phase st = ScSend msg i \<Longrightarrow> run (instances st ! i) = RunIdle \<Longrightarrow> sriov_step st (hand_over msg i st)"
| sc_stop: "phase st = ScStop (i # todo) after \<Longrightarrow> watch (instances st ! i) = WatchIdle \<Longrightarrow>
    sriov_step st ((set_instance i (stopWatch (instances st ! i)) st)\<lparr>phase := ScWait i todo after\<rparr>)"
| sc_done: "phase st = ScWait i todo after \<Longrightarrow> doneCh (instances st ! i) \<Longrightarrow>
    sriov_step st (st\<lparr>phase := ScStop todo after\<rparr>)"
| sc_stopped: "phase st = ScStop [] after \<Longrightarrow> sriov_step st (st\<lparr>phase := ScIdle, sriovNetServices := after\<rparr>)"
| sc_instance: "i < length (instances st) \<Longrightarrow> instance_step (instances st ! i) s' \<Longrightarrow> sriov_step st (set_instance i s' st)"

subsection \<open>Allocation of devices\<close>

definition checkVF :: "string \<Rightarrow> serviceInstance \<Rightarrow> bool" where
  "checkVF dev s \<longleftrightarrow> list_ex (\<lambda>(_, vf). VFIODevice vf = dev) (sic_vfs s)"

record vfioConfig =
  vc_VFIODevice :: string
  vc_PCIAddr :: string

definition getVFIODevSpecs :: "((string \<times> VF) list \<Rightarrow> (string \<times> VF) list) \<Rightarrow> string \<Rightarrow> serviceInstance \<Rightarrow> vfioConfig result" where
  "getVFIODevSpecs ord dev s =
     (case find (\<lambda>(_, vf). VFIODevice vf = dev) (ord (sic_vfs s)) of
        Some (_, vf) \<Rightarrow> Inr \<lparr>vc_VFIODevice = dev, vc_PCIAddr = VF_PCIAddr vf\<rparr>
      | None \<Rightarrow> Inl (Errorf ''vfio %s device is not found''))"

definition to_lower :: "char \<Rightarrow> char" where
  "to_lower c = (let n = of_char c :: nat in if 65 \<le> n \<and> n \<le> 90 then char_of (n + 32) else c)"

definition allocate_name :: "string \<Rightarrow> string result" where
  "allocate_name name =
     (case Split name ''/'' of
        _ # p # _ \<Rightarrow>
          (let n = map (\<lambda>c. if c = CHR ''-'' then CHR ''_'' else c) (map to_lower p) in
           if HasPrefix n ''sriov_'' then Inr (Split n ''sriov_'' ! 1) else Inr n)
      | _ \<Rightarrow> Inl (Panic ''index out of range''))"

definition containersConfigPath :: string where
  "containersConfigPath = ''/var/lib/networkservicemesh/sriov-controller/config''"

definition containerConfigFilePath :: string where
  "containerConfigFilePath = ''/var/lib/networkservicemesh''"

definition path_Base_of :: "string \<Rightarrow> string" where
  "path_Base_of p = rev (takeWhile (\<lambda>c. c \<noteq> CHR ''/'') (rev p))"

record ContainerAllocateResponse =
  ca_Envs :: "(string, string) gomap"
  ca_ContainerPath :: string
  ca_HostPath :: string
  ca_Devices :: "string list"

text \<open>The devices of one container: unknown ones end the allocation.\<close>

fun allocate_devices :: "((string \<times> VF) list \<Rightarrow> (string \<times> VF) list) \<Rightarrow> serviceInstance \<Rightarrow> string list \<Rightarrow> (string list \<times> vfioConfig list) result" where
  "allocate_devices ord s [] = Inr ([''/dev/vfio/vfio''], [])"
| "allocate_devices ord s (dev # devs) =
     (if \<not> checkVF dev s then Inl (Errorf ''allocation request failure, unknown device: %s'')
      else case getVFIODevSpecs ord dev s of
        Inl _ \<Rightarrow> Inl (Errorf ''allocation request failure, unable to get device %s specs with error: %+v'')
      | Inr spec \<Rightarrow>
          (case allocate_devices ord s devs of
             Inl e \<Rightarrow> Inl e
           | Inr (ds, specs) \<Rightarrow> Inr (dev # ds, spec # specs)))"

fun allocate_containers :: "((string \<times> VF) list \<Rightarrow> (string \<times> VF) list) \<Rightarrow> serviceInstance \<Rightarrow> string \<Rightarrow> string \<Rightarrow> string list list \<Rightarrow>
    (ContainerAllocateResponse list \<times> vfioConfig list) result" where
  "allocate_containers ord s key file [] = Inr ([], [])"
| "allocate_containers ord s key file (devs # reqs) =
     (case allocate_devices ord s devs of
        Inl e \<Rightarrow> Inl e
      | Inr (ds, specs) \<Rightarrow>
          (case allocate_containers ord s key file reqs of
             Inl e \<Rightarrow> Inl e
           | Inr (rs, specs') \<Rightarrow>
               Inr (\<lparr>ca_Envs = [(key, path_Join [containerConfigFilePath, file])],
                     ca_ContainerPath = path_Join [containerConfigFilePath, file],
                     ca_HostPath = path_Join [containersConfigPath, file], ca_Devices = ds\<rparr> # rs,
                    specs @ specs')))"

text \<open>
  \<open>Allocate\<close>: the answer and the specifications written to the config file. The
  file system may fail to create or to write the file.
\<close>

definition sriov_Allocate :: "(string \<Rightarrow> error option) \<Rightarrow> error option \<Rightarrow> ((string \<times> VF) list \<Rightarrow> (string \<times> VF) list) \<Rightarrow>
    string list list \<Rightarrow> serviceInstance \<Rightarrow> (ContainerAllocateResponse list \<times> vfioConfig list) result" where
  "sriov_Allocate create write ord reqs s =
     (case allocate_name (networkServiceName s) of
        Inl e \<Rightarrow> Inl e
      | Inr name \<Rightarrow>
          (case reqs of
             (dev # _) # _ \<Rightarrow>
               (let file = name @ ''_'' @ path_Base_of dev @ ''.json'' in
                case create (path_Join [containersConfigPath, file]) of
                  Some _ \<Rightarrow> Inl (Errorf ''fail to create network services config file with error: %+v'')
                | None \<Rightarrow>
                    (case allocate_containers ord s (''NSM_VFS_'' @ name) file reqs of
                       Inl e \<Rightarrow> Inl e
                     | Inr out \<Rightarrow>
                         (case write of
                            Some _ \<Rightarrow> Inl (Errorf ''allocation request failure, unable to save config file with error: %+v'')
                          | None \<Rightarrow> Inr out)))
           | _ \<Rightarrow> Inl (Panic ''index out of range'')))"

end
