(* ===== verification/SriovProps.thy ===== *)
theory SriovProps
  imports Sriov
begin

text \<open>
  What the kubelet is told in the end is what the config map says. The messages of the config
  controller describe the config map; the service controller and its instances
  follow the messages; and the lists sent to the kubelet follow the instances.
\<close>

subsection \<open>Messages\<close>

text \<open>The virtual functions of every network service that a sequence of messages describes.\<close>

type_synonym described = "string \<Rightarrow> string \<Rightarrow> VF option"

definition apply_message :: "configMessage \<Rightarrow> described \<Rightarrow> described" where
  "apply_message msg d =
     (let name = VF_NetworkService (m_vf msg) in
      case m_op msg of
        operationAdd \<Rightarrow> d(name := (d name)(m_pciAddr msg \<mapsto> m_vf msg))
      | operationDeleteEntry \<Rightarrow> d(name := (d name)(m_pciAddr msg := None))
      | operationDeleteAll \<Rightarrow> (\<lambda>_ _. None)
      | operationUpdate \<Rightarrow> d)"

definition described_by :: "configMessage list \<Rightarrow> described" where
  "described_by ms = fold apply_message ms (\<lambda>_ _. None)"

definition by_service :: "(string, VF) gomap \<Rightarrow> described" where
  "by_service vfs name pci =
     (case map_of vfs pci of Some vf \<Rightarrow> if VF_NetworkService vf = name then Some vf else None | None \<Rightarrow> None)"

definition stable :: "(string \<Rightarrow> VF) \<Rightarrow> (string \<times> VF) list \<Rightarrow> bool" where
  "stable vf_of es \<longleftrightarrow> (\<forall>(k, vf) \<in> set es. vf = vf_of k)"

lemma stable_simps [simp]: "stable vf_of []" "stable vf_of ((k, vf) # es) \<longleftrightarrow> vf = vf_of k \<and> stable vf_of es"
  by (auto simp: stable_def)

lemma stable_subset: "stable vf_of es \<Longrightarrow> set es' \<subseteq> set es \<Longrightarrow> stable vf_of es'"
  by (auto simp: stable_def)

lemma messages_Cons: "messages op ((k, vf) # es) = \<lparr>m_op = op, m_pciAddr = k, m_vf = vf\<rparr> # messages op es"
  by (simp add: messages_def)

lemma fold_adds:
  "stable vf_of es \<Longrightarrow> fold apply_message (messages operationAdd es) d name pci =
     (if pci \<in> fst ` set es \<and> VF_NetworkService (vf_of pci) = name then Some (vf_of pci) else d name pci)"
proof (induction es arbitrary: d)
  case (Cons e es)
  obtain k vf where e: "e = (k, vf)" by (cases e)
  with Cons.prems have "stable vf_of es" "vf = vf_of k" by simp_all
  with Cons.IH show ?case by (auto simp: e messages_Cons apply_message_def Let_def)
qed (simp add: messages_def)

lemma fold_deletes:
  "stable vf_of es \<Longrightarrow> fold apply_message (messages operationDeleteEntry es) d name pci =
     (if pci \<in> fst ` set es \<and> VF_NetworkService (vf_of pci) = name then None else d name pci)"
proof (induction es arbitrary: d)
  case (Cons e es)
  obtain k vf where e: "e = (k, vf)" by (cases e)
  with Cons.prems have "stable vf_of es" "vf = vf_of k" by simp_all
  with Cons.IH show ?case by (auto simp: e messages_Cons apply_message_def Let_def)
qed (simp add: messages_def)

lemma by_service_stable:
  "stable vf_of vfs \<Longrightarrow> by_service vfs name pci =
     (if pci \<in> fst ` set vfs \<and> VF_NetworkService (vf_of pci) = name then Some (vf_of pci) else None)"
proof (cases "map_of vfs pci")
  case (Some vf)
  moreover assume "stable vf_of vfs"
  ultimately have "vf = vf_of pci" "pci \<in> fst ` set vfs" by (auto simp: stable_def dest!: map_of_SomeD intro: rev_image_eqI)
  then show ?thesis using Some by (simp add: by_service_def)
next
  case None
  then have "pci \<notin> fst ` set vfs" by (simp add: map_of_eq_None_iff)
  with None show ?thesis by (simp add: by_service_def)
qed

subsection \<open>The config controller\<close>

definition env_ok :: "(string \<Rightarrow> VF) \<Rightarrow> config_env \<Rightarrow> ConfigMap \<Rightarrow> bool" where
  "env_ok vf_of env cm \<longleftrightarrow> is_order (c_range_data env) \<and> is_order (c_range_add env) \<and> is_order (c_range_delete env) \<and>
     (\<forall>(k, v) \<in> set (cm_Data cm). \<forall>vf. c_unmarshal env v = Inr vf \<longrightarrow> vf = vf_of k)"

lemma parse_entries_ok:
  assumes "parse_entries u kvs acc = Inr vfs" "gomap_ok acc" "stable vf_of acc"
    "\<forall>(k, v) \<in> set kvs. \<forall>vf. u v = Inr vf \<longrightarrow> vf = vf_of k"
  shows "gomap_ok vfs \<and> stable vf_of vfs"
  using assms
proof (induction u kvs acc rule: parse_entries.induct)
  case (2 u k v kvs vfs1)
  then show ?case using entries_update [of k _ vfs1] by (fastforce simp: stable_def split: sum.splits)
qed simp

lemma process_ok:
  assumes "processConfigMap env cm = Inr vfs" "env_ok vf_of env cm"
  shows "gomap_ok vfs" "stable vf_of vfs"
proof -
  have "\<forall>(k, v) \<in> set (c_range_data env (cm_Data cm)). \<forall>vf. c_unmarshal env v = Inr vf \<longrightarrow> vf = vf_of k"
    using assms(2) by (simp add: env_ok_def is_order_set)
  from parse_entries_ok [OF assms(1) [unfolded processConfigMap_def] _ _ this] show "gomap_ok vfs" "stable vf_of vfs" by simp_all
qed

lemma work_describes:
  assumes w: "work env (op, cm) vfs = (vfs', ms)" and ok: "env_ok vf_of env cm"
    and vfs: "gomap_ok vfs" "stable vf_of vfs" and add: "op = operationAdd \<Longrightarrow> vfs = []"
  shows "fold apply_message ms (by_service vfs) = by_service vfs' \<and> gomap_ok vfs' \<and> stable vf_of vfs'"
proof (cases op)
  case operationDeleteAll
  with w vfs show ?thesis
    by (auto simp: work_def processConfigMapDelete_def apply_message_def by_service_def fun_eq_iff)
next
  case operationDeleteEntry
  with w vfs show ?thesis by (simp add: work_def)
next
  case operationAdd
  show ?thesis
  proof (cases "processConfigMap env cm")
    case (Inr new)
    with operationAdd w have m: "vfs' = new" "ms = messages operationAdd (c_range_add env new)"
      by (auto simp: work_def processConfigMapAdd_def)
    note p = process_ok [OF Inr ok]
    have "stable vf_of (c_range_add env new)" using p(2) ok by (simp add: stable_def env_ok_def is_order_set)
    from fold_adds [OF this] p m add [OF operationAdd] ok show ?thesis
      by (auto simp: fun_eq_iff by_service_stable env_ok_def is_order_set by_service_def [of "[]"])
  qed (use operationAdd w vfs in \<open>auto simp: work_def processConfigMapAdd_def\<close>)
next
  case operationUpdate
  show ?thesis
  proof (cases "processConfigMap env cm")
    case (Inr new)
    let ?del = "c_range_delete env (diffMap vfs new)" and ?add = "c_range_add env (diffMap new vfs)"
    from operationUpdate w Inr have m: "vfs' = new" "ms = messages operationDeleteEntry ?del @ messages operationAdd ?add"
      by (auto simp: work_def processConfigMapUpdate_def)
    note p = process_ok [OF Inr ok]
    have s: "set ?del = {(k, v) \<in> set vfs. map_of new k = None}" "set ?add = {(k, v) \<in> set new. map_of vfs k = None}"
      using ok by (auto simp: env_ok_def is_order_set diffMap_def)
    then have st: "stable vf_of ?del" "stable vf_of ?add" using vfs(2) p(2) by (auto intro: stable_subset)
    have k: "fst ` set ?del = fst ` set vfs - fst ` set new" "fst ` set ?add = fst ` set new - fst ` set vfs"
      unfolding s by (force simp: map_of_eq_None_iff)+
    show ?thesis using p m
      by (auto simp: fun_eq_iff fold_adds [OF st(2)] fold_deletes [OF st(1)] k by_service_stable [OF vfs(2)] by_service_stable [OF p(2)])
  qed (use operationUpdate w vfs in \<open>auto simp: work_def processConfigMapUpdate_def\<close>)
qed

text \<open>
  A config map is added when there was none, and its entries for a PCI address never change.
\<close>

fun config_history :: "(string \<Rightarrow> VF) \<Rightarrow> (config_env \<times> operationType \<times> ConfigMap) list \<Rightarrow> (string, VF) gomap \<Rightarrow> bool" where
  "config_history vf_of [] vfs \<longleftrightarrow> True"
| "config_history vf_of ((env, op, cm) # evs) vfs \<longleftrightarrow> env_ok vf_of env cm \<and> (op = operationAdd \<longrightarrow> vfs = []) \<and>
     config_history vf_of evs (fst (work env (op, cm) vfs))"

lemma workforever_describes:
  assumes "workforever evs vfs = (vfs', ms)" "config_history vf_of evs vfs" "gomap_ok vfs" "stable vf_of vfs"
  shows "fold apply_message ms (by_service vfs) = by_service vfs' \<and> gomap_ok vfs'"
  using assms
proof (induction evs arbitrary: vfs ms)
  case (Cons x evs)
  obtain env op cm where x: "x = (env, op, cm)" by (rule prod_cases3)
  obtain vfs1 ms1 where w: "work env (op, cm) vfs = (vfs1, ms1)" by (rule prod.exhaust)
  obtain ms2 where r: "workforever evs vfs1 = (vfs', ms2)" "ms = ms1 @ ms2"
    using Cons.prems(1) by (auto simp: x w split: prod.splits)
  from Cons.prems(2) have h: "env_ok vf_of env cm" "op = operationAdd \<longrightarrow> vfs = []" "config_history vf_of evs vfs1"
    by (simp_all add: x w)
  from work_describes [OF w h(1) Cons.prems(3,4)] h(2)
  have "fold apply_message ms1 (by_service vfs) = by_service vfs1" "gomap_ok vfs1" "stable vf_of vfs1" by auto
  with Cons.IH [OF r(1) h(3)] show ?case by (simp add: r(2))
qed simp

subsection \<open>One instance\<close>

definition devices :: "(string \<times> VF) list \<Rightarrow> string multiset" where
  "devices vfs = mset (map (\<lambda>(_, vf). VFIODevice vf) vfs)"

text \<open>
  An idle instance has told the kubelet of what it has; until then some signal is under way.
\<close>

definition instance_inv :: "serviceInstance \<Rightarrow> bool" where
  "instance_inv s \<longleftrightarrow> gomap_ok (si_vfs s) \<and> gomap_ok (sic_vfs s) \<and> regUpdateCh s \<le> updateChannelBufferSize \<and>
     (watch s = WatchDone \<longleftrightarrow> doneCh s) \<and>
     (regState s = notRegistered \<longrightarrow> run s = RunIdle) \<and>
     (watch s = WatchIdle \<and> regUpdateCh s = 0 \<and> run s = RunIdle \<longrightarrow>
        sent_lists s \<noteq> [] \<and> mset (last (sent_lists s)) = devices (sic_vfs s))"

definition view :: "serviceInstance \<Rightarrow> (string, VF) gomap \<times> (string, VF) gomap \<times> bool \<times> bool" where
  "view s = (si_vfs s, sic_vfs s, regState s = notRegistered, watch s = WatchDone)"

lemma buildDeviceList_devices: "is_order ord \<Longrightarrow> mset (buildDeviceList ord s) = devices (sic_vfs s)"
  by (simp add: buildDeviceList_def devices_def is_order_mset mset_map [symmetric] del: mset_map) (simp add: is_order_mset)

lemma instance_step_inv: "instance_step s s' \<Longrightarrow> instance_inv s \<Longrightarrow> instance_inv s' \<and> view s' = view s"
  by (induction rule: instance_step.induct) (auto simp: instance_inv_def view_def buildDeviceList_devices)

lemma newServiceInstance_inv: "instance_inv (newServiceInstance [(k, v)])"
  by (simp add: instance_inv_def newServiceInstance_def gomap_ok_def)

lemma run_message_inv: "run s = RunIdle \<Longrightarrow> instance_inv s \<Longrightarrow> regState s \<noteq> notRegistered \<or> m_op msg = operationAdd \<Longrightarrow>
    instance_inv (run_message msg s)"
  by (auto simp: instance_inv_def run_message_def processAddVF_def processDeleteVF_def startDevicePlugin_def Let_def
      split: operationType.splits)

lemma stopWatch_inv: "instance_inv s \<Longrightarrow> instance_inv (stopWatch s)"
  by (auto simp: instance_inv_def stopWatch_def)

subsection \<open>The service controller\<close>

text \<open>
  The services of a map follow a description: there is a service for every name with a
  virtual function, with an instance of its own that has exactly these functions, in
  both of its maps.
\<close>

definition serves :: "(string \<Rightarrow> VF option) \<Rightarrow> serviceInstance \<Rightarrow> bool" where
  "serves f s \<longleftrightarrow> f \<noteq> Map.empty \<and> map_of (si_vfs s) = f \<and> map_of (sic_vfs s) = f \<and>
     regState s \<noteq> notRegistered \<and> watch s \<noteq> WatchDone"

definition follows :: "described \<Rightarrow> (string, nat) gomap \<Rightarrow> serviceInstance list \<Rightarrow> bool" where
  "follows d m insts \<longleftrightarrow> gomap_ok m \<and> distinct (map snd m) \<and>
     (\<forall>n. case map_of m n of None \<Rightarrow> d n = Map.empty | Some i \<Rightarrow> i < length insts \<and> serves (d n) (insts ! i))"

definition stoppable :: "serviceInstance list \<Rightarrow> nat list \<Rightarrow> (string, nat) gomap \<Rightarrow> bool" where
  "stoppable insts todo after \<longleftrightarrow> distinct todo \<and>
     (\<forall>i \<in> set todo. i < length insts \<and> i \<notin> snd ` set after \<and> regState (insts ! i) \<noteq> notRegistered \<and> watch (insts ! i) \<noteq> WatchDone)"

definition settled :: "described \<Rightarrow> sriov \<Rightarrow> bool" where
  "settled d st \<longleftrightarrow> (case phase st of
       ScIdle \<Rightarrow> follows d (sriovNetServices st) (instances st)
     | ScSend _ _ \<Rightarrow> False
     | ScStop todo after \<Rightarrow> follows d after (instances st) \<and> stoppable (instances st) todo after
     | ScWait i todo after \<Rightarrow> follows d after (instances st) \<and> stoppable (instances st) todo after \<and>
         i < length (instances st) \<and> watch (instances st ! i) = WatchDone)"

definition sriov_inv :: "described \<Rightarrow> sriov \<Rightarrow> bool" where
  "sriov_inv d st \<longleftrightarrow> (\<forall>s \<in> set (instances st). instance_inv s) \<and>
     (case phase st of
        ScSend msg i \<Rightarrow> i < length (instances st) \<and> watch (instances st ! i) \<noteq> WatchDone \<and>
          (regState (instances st ! i) \<noteq> notRegistered \<or> m_op msg = operationAdd) \<and> settled d (hand_over msg i st)
      | _ \<Rightarrow> settled d st)"

definition same_view :: "sriov \<Rightarrow> sriov \<Rightarrow> bool" where
  "same_view st st' \<longleftrightarrow> phase st' = phase st \<and> sriovNetServices st' = sriovNetServices st \<and>
     map view (instances st') = map view (instances st)"

lemma view_nth: "map view xs = map view ys \<Longrightarrow> i < length xs \<Longrightarrow> view (xs ! i) = view (ys ! i)"
  by (metis length_map nth_map)

lemma view_list:
  assumes "map view xs = map view ys"
  shows "follows d m xs = follows d m ys" "stoppable xs todo after = stoppable ys todo after"
proof -
  have l: "length xs = length ys" by (metis assms length_map)
  have v: "i < length ys \<Longrightarrow> view (xs ! i) = view (ys ! i)" for i using view_nth [OF assms] l by simp
  then have "i < length ys \<Longrightarrow> serves f (xs ! i) = serves f (ys ! i)" for f i by (auto simp: serves_def view_def)
  then show "follows d m xs = follows d m ys" unfolding follows_def l by (auto split: option.splits)
  show "stoppable xs todo after = stoppable ys todo after" unfolding stoppable_def l using v by (fastforce simp: view_def)
qed

lemma settled_view:
  assumes "same_view st st'" "settled d st"
  shows "settled d st'"
proof -
  have v: "map view (instances st) = map view (instances st')" and p: "phase st' = phase st" "sriovNetServices st' = sriovNetServices st"
    using assms(1) by (simp_all add: same_view_def)
  have l: "length (instances st) = length (instances st')" by (metis v length_map)
  show ?thesis using assms(2) view_list [OF v] view_nth [OF v] l
    unfolding settled_def p by (auto split: service_phase.splits simp: view_def)
qed

lemma view_run_message: "view s = view s' \<Longrightarrow> view (run_message msg s) = view (run_message msg s')"
  by (auto simp: view_def run_message_def processAddVF_def processDeleteVF_def startDevicePlugin_def Let_def split: operationType.splits)

lemma hand_over_view:
  assumes "same_view st st'" "i < length (instances st)"
  shows "same_view (hand_over msg i st) (hand_over msg i st')"
proof -
  have v: "map view (instances st) = map view (instances st')" using assms(1) by (simp add: same_view_def)
  have l: "length (instances st') = length (instances st)" by (metis v length_map)
  note r = view_run_message [OF view_nth [OF v assms(2)], of msg]
  then have "view ((run_message msg (instances st ! i))\<lparr>si_vfs := x\<rparr>) = view ((run_message msg (instances st' ! i))\<lparr>si_vfs := x\<rparr>)"
    "si_vfs (run_message msg (instances st ! i)) = si_vfs (run_message msg (instances st' ! i))" for x
    by (simp_all add: view_def)
  then show ?thesis using assms r l v
    by (auto simp: same_view_def hand_over_def afterDelete_def set_instance_def Let_def map_update)
qed

lemma inv_instances: "sriov_inv d st \<Longrightarrow> i < length (instances st) \<Longrightarrow> instance_inv (instances st ! i)"
  by (simp add: sriov_inv_def)

lemma set_instances: "(\<forall>s \<in> set xs. P s) \<Longrightarrow> P y \<Longrightarrow> \<forall>s \<in> set (xs[i := y]). P s"
  using set_update_subset_insert [of xs i y] by auto

lemma step_instance:
  assumes inv: "sriov_inv d st" and i: "i < length (instances st)" and s: "instance_step (instances st ! i) s'"
  shows "sriov_inv d (set_instance i s' st)"
proof -
  note ii = instance_step_inv [OF s inv_instances [OF inv i]]
  have sv: "same_view st (set_instance i s' st)"
    using ii i by (simp add: same_view_def set_instance_def map_update list_update_same_conv)
  have a: "\<forall>s \<in> set (instances (set_instance i s' st)). instance_inv s"
    using set_instances [of "instances st" instance_inv s' i] inv ii by (simp add: sriov_inv_def set_instance_def)
  have p: "phase (set_instance i s' st) = phase st" "length (instances (set_instance i s' st)) = length (instances st)"
    by (simp_all add: set_instance_def)
  have v: "view (instances (set_instance i s' st) ! j) = view (instances st ! j)" if "j < length (instances st)" for j
    using ii that by (cases "j = i") (simp_all add: set_instance_def)
  show ?thesis
  proof (cases "\<exists>msg j. phase st = ScSend msg j")
    case True
    then obtain msg j where s: "phase st = ScSend msg j" by blast
    with inv have j: "j < length (instances st)" and b: "watch (instances st ! j) \<noteq> WatchDone"
      "regState (instances st ! j) \<noteq> notRegistered \<or> m_op msg = operationAdd" "settled d (hand_over msg j st)"
      by (simp_all add: sriov_inv_def)
    have "settled d (hand_over msg j (set_instance i s' st))" by (rule settled_view [OF hand_over_view [OF sv j] b(3)])
    then show ?thesis using a p s j b(1,2) v [OF j] by (simp add: sriov_inv_def view_def)
  next
    case False
    then have "settled d st" using inv by (cases "phase st") (simp_all add: sriov_inv_def)
    from settled_view [OF sv this] show ?thesis using a p False by (cases "phase st") (simp_all add: sriov_inv_def)
  qed
qed

lemma hand_over_phase: "phase (hand_over msg i st) = ScIdle \<or> (\<exists>todo after. phase (hand_over msg i st) = ScStop todo after)"
  by (simp add: hand_over_def afterDelete_def Let_def)

lemma step_hand:
  assumes inv: "sriov_inv d st" and p: "phase st = ScSend msg i" and r: "run (instances st ! i) = RunIdle"
  shows "sriov_inv d (hand_over msg i st)"
proof -
  from inv p have i: "i < length (instances st)" and s: "settled d (hand_over msg i st)"
    and reg: "regState (instances st ! i) \<noteq> notRegistered \<or> m_op msg = operationAdd" by (simp_all add: sriov_inv_def)
  have "instance_inv (run_message msg (instances st ! i))"
    by (rule run_message_inv [OF r inv_instances [OF inv i] reg])
  then have "instance_inv (instances (hand_over msg i st) ! i)"
    using i by (simp add: hand_over_def afterDelete_def set_instance_def Let_def instance_inv_def)
  moreover obtain x where x: "instances (hand_over msg i st) = (instances st)[i := x]"
    by (rule that [of "instances (hand_over msg i st) ! i"])
      (use i in \<open>simp add: hand_over_def afterDelete_def set_instance_def Let_def\<close>)
  ultimately have "\<forall>s \<in> set (instances (hand_over msg i st)). instance_inv s"
    using set_instances [of "instances st" instance_inv x i] inv i by (simp add: sriov_inv_def)
  then show ?thesis using s hand_over_phase [of msg i st] by (auto simp: sriov_inv_def)
qed

lemma watch_stopWatch: "watch (stopWatch s) = WatchDone"
  by (simp add: stopWatch_def)

lemma follows_other:
  assumes "follows d m insts" "i \<notin> snd ` set m"
  shows "follows d m (insts[i := x])"
  unfolding follows_def
proof (intro conjI allI)
  fix n
  show "case map_of m n of None \<Rightarrow> d n = Map.empty
      | Some j \<Rightarrow> j < length (insts[i := x]) \<and> serves (d n) (insts[i := x] ! j)"
  proof (cases "map_of m n")
    case (Some j)
    then have "j \<noteq> i" using assms(2) by (metis map_of_SomeD image_eqI snd_conv)
    with Some assms(1) show ?thesis unfolding follows_def by (auto dest: spec [of _ n])
  next
    case None
    with assms(1) show ?thesis unfolding follows_def by (auto dest: spec [of _ n])
  qed
qed (use assms(1) in \<open>simp_all add: follows_def\<close>)

lemma step_stop:
  assumes inv: "sriov_inv d st" and p: "phase st = ScStop (i # todo) after"
  shows "sriov_inv d ((set_instance i (stopWatch (instances st ! i)) st)\<lparr>phase := ScWait i todo after\<rparr>)"
proof -
  from inv p have f: "follows d after (instances st)" and t: "stoppable (instances st) (i # todo) after"
    by (simp_all add: sriov_inv_def settled_def)
  then have i: "i < length (instances st)" "i \<notin> snd ` set after" "i \<notin> set todo" by (simp_all add: stoppable_def)
  let ?x = "(instances st)[i := stopWatch (instances st ! i)]"
  have "follows d after ?x" by (rule follows_other [OF f i(2)])
  moreover have "stoppable ?x todo after" using t i(3) by (auto simp: stoppable_def nth_list_update)
  ultimately show ?thesis using inv i(1) inv_instances [OF inv i(1)]
      set_instances [of "instances st" instance_inv "stopWatch (instances st ! i)" i]
    by (simp add: sriov_inv_def settled_def set_instance_def stopWatch_inv watch_stopWatch)
qed

lemma step_done: "sriov_inv d st \<Longrightarrow> phase st = ScWait i todo after \<Longrightarrow> sriov_inv d (st\<lparr>phase := ScStop todo after\<rparr>)"
  by (simp add: sriov_inv_def settled_def)

lemma step_stopped: "sriov_inv d st \<Longrightarrow> phase st = ScStop [] after \<Longrightarrow> sriov_inv d (st\<lparr>phase := ScIdle, sriovNetServices := after\<rparr>)"
  by (simp add: sriov_inv_def settled_def)

lemma followsD:
  assumes "follows d m insts"
  shows "gomap_ok m" "distinct (map snd m)" "map_of m n = None \<Longrightarrow> d n = Map.empty"
    "map_of m n = Some i \<Longrightarrow> i < length insts" "map_of m n = Some i \<Longrightarrow> serves (d n) (insts ! i)"
  using assms unfolding follows_def by (auto dest: spec [of _ n])

lemma followsI:
  assumes "gomap_ok m" "distinct (map snd m)" "\<And>n. map_of m n = None \<Longrightarrow> d n = Map.empty"
    "\<And>n i. map_of m n = Some i \<Longrightarrow> i < length insts \<and> serves (d n) (insts ! i)"
  shows "follows d m insts"
  using assms unfolding follows_def by (auto split: option.splits)

lemma follows_inj:
  assumes "follows d m insts" "map_of m n = Some i" "map_of m n' = Some i"
  shows "n' = n"
proof -
  have "(n, i) \<in> set m" "(n', i) \<in> set m" using assms(2,3) by (simp_all add: map_of_SomeD)
  with followsD(2) [OF assms(1)] show ?thesis by (metis distinct_map inj_on_eq_iff prod.inject snd_conv)
qed

lemma follows_set:
  assumes f: "follows d m insts" and i: "map_of m n = Some i" and s: "serves g s"
  shows "follows (d(n := g)) m (insts[i := s])"
proof (rule followsI)
  fix n' j assume j: "map_of m n' = Some j"
  then have "n' \<noteq> n \<Longrightarrow> j \<noteq> i" using follows_inj [OF f i] by blast
  then show "j < length (insts[i := s]) \<and> serves ((d(n := g)) n') (insts[i := s] ! j)"
    using followsD(4,5) [OF f j] i j s by (cases "n' = n") simp_all
qed (use followsD [OF f] i in \<open>auto simp: fun_upd_def\<close>)

lemma follows_new:
  assumes f: "follows d m insts" and n: "map_of m n = None" and s: "serves g s"
  shows "follows (d(n := g)) (AList.update n (length insts) m) (insts @ [s])"
proof (rule followsI)
  have "length insts \<notin> snd ` set m"
  proof
    assume "length insts \<in> snd ` set m"
    then obtain k where "(k, length insts) \<in> set m" by auto
    then have "map_of m k = Some (length insts)" using followsD(1) [OF f] by (simp add: gomap_map_of_iff)
    from followsD(4) [OF f this] show False by simp
  qed
  then show "distinct (map snd (AList.update n (length insts) m))"
    using followsD(2) [OF f] by (simp add: update_fresh [OF n])
  fix n' j assume "map_of (AList.update n (length insts) m) n' = Some j"
  then show "j < length (insts @ [s]) \<and> serves ((d(n := g)) n') ((insts @ [s]) ! j)"
    using followsD(4,5) [OF f, of n' j] s by (cases "n' = n") (auto simp: nth_append)
qed (use followsD [OF f] in \<open>auto split: if_splits\<close>)

lemma follows_drop:
  assumes f: "follows d m insts" and i: "map_of m n = Some i"
  shows "follows (d(n := Map.empty)) (AList.delete n m) (insts[i := s])" "i \<notin> snd ` set (AList.delete n m)"
proof -
  show x: "i \<notin> snd ` set (AList.delete n m)"
  proof
    assume "i \<in> snd ` set (AList.delete n m)"
    then obtain k where "(k, i) \<in> set (AList.delete n m)" by auto
    then have "map_of (AList.delete n m) k = Some i"
      by (rule gomap_map_of_iff [OF gomap_ok_delete [OF followsD(1) [OF f]], THEN iffD2])
    then show False using follows_inj [OF f i, of k] by (auto split: if_splits)
  qed
  have "follows (d(n := Map.empty)) (AList.delete n m) insts"
  proof (rule followsI)
    show "distinct (map snd (AList.delete n m))"
      using followsD(2) [OF f] by (simp add: AList.delete_eq distinct_map_filter)
  qed (use followsD [OF f] in \<open>auto split: if_splits\<close>)
  then show "follows (d(n := Map.empty)) (AList.delete n m) (insts[i := s])" using x by (rule follows_other)
qed

lemma take_add:
  assumes f: "follows d (sriovNetServices st) (instances st)" and a: "\<forall>s \<in> set (instances st). instance_inv s"
    and op: "m_op msg = operationAdd"
  shows "sriov_inv (apply_message msg d) (processAdd msg st)"
proof -
  let ?n = "VF_NetworkService (m_vf msg)" and ?k = "m_pciAddr msg" and ?v = "m_vf msg"
  have d': "apply_message msg d = d(?n := (d ?n)(?k \<mapsto> ?v))" by (simp add: apply_message_def op Let_def)
  show ?thesis
  proof (cases "map_of (sriovNetServices st) ?n")
    case None
    let ?i = "length (instances st)" and ?s = "newServiceInstance [(?k, ?v)]"
    have "serves ((d ?n)(?k \<mapsto> ?v)) (run_message msg ?s)"
      using followsD(3) [OF f None]
      by (auto simp: serves_def run_message_def op processAddVF_def newServiceInstance_def startDevicePlugin_def Let_def fun_eq_iff)
    from follows_new [OF f None this]
    have "settled (apply_message msg d) (hand_over msg ?i (processAdd msg st))"
      by (simp add: settled_def hand_over_def op processAdd_def None d' set_instance_def Let_def)
    then show ?thesis using a newServiceInstance_inv
      by (simp add: sriov_inv_def processAdd_def None op newServiceInstance_def [of "[(?k, ?v)]"] Let_def) (simp add: newServiceInstance_def)
  next
    case (Some i)
    let ?s = "(instances st ! i)\<lparr>si_vfs := AList.update ?k ?v (si_vfs (instances st ! i))\<rparr>"
    note i = followsD(4,5) [OF f Some]
    have "serves ((d ?n)(?k \<mapsto> ?v)) (run_message msg ?s)"
      using i(2) by (auto simp: serves_def run_message_def op processAddVF_def Let_def fun_eq_iff)
    from follows_set [OF f Some this]
    have "settled (apply_message msg d) (hand_over msg i (processAdd msg st))"
      using i(1) by (simp add: settled_def hand_over_def op processAdd_def Some d' set_instance_def Let_def)
    moreover have "instance_inv ?s" using a i(1) by (simp add: instance_inv_def)
    ultimately show ?thesis
      using set_instances [OF a, of ?s i] i by (simp add: sriov_inv_def processAdd_def Some op set_instance_def Let_def serves_def)
  qed
qed

lemma take_existing:
  assumes f: "follows d (sriovNetServices st) (instances st)" and a: "\<forall>s \<in> set (instances st). instance_inv s"
    and op: "m_op msg = operationDeleteEntry \<or> m_op msg = operationUpdate" and p: "phase st = ScIdle"
  shows "sriov_inv (apply_message msg d) (processExisting msg st)"
proof -
  let ?n = "VF_NetworkService (m_vf msg)" and ?k = "m_pciAddr msg"
  show ?thesis
  proof (cases "map_of (sriovNetServices st) ?n")
    case None
    have "apply_message msg d = d"
      using op followsD(3) [OF f None] by (auto simp: apply_message_def Let_def fun_eq_iff)
    then show ?thesis using f a p by (simp add: sriov_inv_def settled_def processExisting_def None)
  next
    case (Some i)
    note i = followsD(4,5) [OF f Some]
    let ?r = "run_message msg (instances st ! i)" and ?g = "(d ?n)(?k := None)"
    have "settled (apply_message msg d) (hand_over msg i (processExisting msg st))"
    proof (cases "m_op msg = operationUpdate")
      case True
      then show ?thesis
        using f i by (simp add: settled_def hand_over_def processExisting_def Some set_instance_def run_message_def apply_message_def Let_def)
    next
      case False
      then have del: "m_op msg = operationDeleteEntry" using op by simp
      let ?s = "?r\<lparr>si_vfs := AList.delete ?k (si_vfs ?r)\<rparr>"
      have d': "apply_message msg d = d(?n := ?g)" by (simp add: apply_message_def del Let_def)
      have v: "map_of (AList.delete ?k (si_vfs (instances st ! i))) = ?g" "si_vfs ?r = si_vfs (instances st ! i)"
        using i(2) by (simp_all add: serves_def run_message_def del processDeleteVF_def)
      have h: "instances (hand_over msg i (processExisting msg st)) = (instances st)[i := ?s]"
        "phase (hand_over msg i (processExisting msg st)) = (if AList.delete ?k (si_vfs ?r) = [] then
           ScStop [i] (AList.delete ?n (sriovNetServices st)) else ScIdle)"
        "sriovNetServices (hand_over msg i (processExisting msg st)) = sriovNetServices st"
        using i(1) by (simp_all add: hand_over_def afterDelete_def del processExisting_def Some set_instance_def Let_def)
      show ?thesis
      proof (cases "?g = Map.empty")
        case True
        then have "AList.delete ?k (si_vfs ?r) = []" using v by (metis map_of_eq_empty_iff)
        then show ?thesis using follows_drop(1) [OF f Some, of ?s] follows_drop(2) [OF f Some] i True
          by (simp add: settled_def h d' stoppable_def serves_def run_message_def del processDeleteVF_def)
      next
        case False
        then have "AList.delete ?k (si_vfs ?r) \<noteq> []" using v by (metis map_of_eq_empty_iff)
        moreover have "serves ?g ?s"
          using i(2) False v by (simp add: serves_def run_message_def del processDeleteVF_def)
        ultimately show ?thesis using follows_set [OF f Some] by (simp add: settled_def h d')
      qed
    qed
    then show ?thesis using a i by (simp add: sriov_inv_def processExisting_def Some serves_def)
  qed
qed

lemma take_stop:
  assumes f: "follows d (sriovNetServices st) (instances st)" and a: "\<forall>s \<in> set (instances st). instance_inv s"
    and op: "m_op msg = operationDeleteAll" and o: "is_order ord"
  shows "sriov_inv (apply_message msg d) (service_Stop ord st)"
proof -
  have e: "apply_message msg d = (\<lambda>_. Map.empty)" by (simp add: apply_message_def op Let_def)
  have "follows (\<lambda>_. Map.empty) [] (instances st)" by (rule followsI) (simp_all add: gomap_ok_def)
  moreover have "distinct (map snd (ord (sriovNetServices st)))"
    using followsD(2) [OF f] by (metis is_order_mset [OF o] mset_map mset_eq_imp_distinct_iff)
  moreover have "i < length (instances st) \<and> serves (d n) (instances st ! i)"
    if "(n, i) \<in> set (ord (sriovNetServices st))" for n i
  proof -
    have "map_of (sriovNetServices st) n = Some i"
      using that followsD(1) [OF f] by (simp add: gomap_map_of_iff is_order_set [OF o])
    then show ?thesis using followsD(4,5) [OF f] by blast
  qed
  ultimately show ?thesis using a
    by (auto simp: sriov_inv_def settled_def service_Stop_def e stoppable_def serves_def)
qed

lemma step_take:
  assumes inv: "sriov_inv d st" and p: "phase st = ScIdle" and o: "is_order ord"
  shows "sriov_inv (apply_message msg d) (service_message ord msg (st\<lparr>inbox := ms\<rparr>))"
proof -
  let ?st = "st\<lparr>inbox := ms\<rparr>"
  from inv p have f: "follows d (sriovNetServices ?st) (instances ?st)" and a: "\<forall>s \<in> set (instances ?st). instance_inv s"
    and p': "phase ?st = ScIdle" by (simp_all add: sriov_inv_def settled_def)
  show ?thesis
    by (cases "m_op msg")
      (simp_all only: service_message_def operationType.case take_add [OF f a] take_existing [OF f a _ p'] take_stop [OF f a _ o] simp_thms)
qed

lemma service_message_inbox: "inbox (service_message ord msg st) = inbox st"
  by (simp add: service_message_def processAdd_def processExisting_def service_Stop_def set_instance_def Let_def
      split: operationType.split option.split)

lemma hand_over_inbox: "inbox (hand_over msg i st) = inbox st"
  by (simp add: hand_over_def afterDelete_def set_instance_def Let_def)

lemma sriov_run_inv:
  assumes "sriov_step\<^sup>*\<^sup>* (service_start ms) st"
  shows "\<exists>taken. ms = taken @ inbox st \<and> sriov_inv (described_by taken) st"
  using assms
proof (induction rule: rtranclp_induct)
  case base
  have "follows (\<lambda>_ _. None) [] []" by (rule followsI) (simp_all add: gomap_ok_def)
  then show ?case by (intro exI [of _ "[]"]) (simp add: service_start_def sriov_inv_def settled_def described_by_def)
next
  case (step st st')
  then obtain taken where t: "ms = taken @ inbox st" "sriov_inv (described_by taken) st" by blast
  from step.hyps(2) show ?case
  proof cases
    case (sc_take msg ms' ord)
    from step_take [OF t(2) sc_take(2,4), of msg ms'] t(1) sc_take(1,3) show ?thesis
      by (intro exI [of _ "taken @ [msg]"]) (simp add: described_by_def service_message_inbox)
  next
    case (sc_hand msg i)
    with step_hand [OF t(2)] t(1) show ?thesis by (auto simp: hand_over_inbox)
  next
    case (sc_stop i todo after)
    with step_stop [OF t(2)] t(1) show ?thesis by (auto simp: set_instance_def)
  next
    case (sc_done i todo after)
    with step_done [OF t(2)] t(1) show ?thesis by auto
  next
    case (sc_stopped after)
    with step_stopped [OF t(2)] t(1) show ?thesis by auto
  next
    case (sc_instance i s')
    with step_instance [OF t(2)] t(1) show ?thesis by (auto simp: set_instance_def)
  qed
qed

subsection \<open>Properties\<close>

text \<open>Nothing is left to do for the messages that were sent.\<close>

definition quiescent :: "sriov \<Rightarrow> bool" where
  "quiescent st \<longleftrightarrow> inbox st = [] \<and> phase st = ScIdle \<and>
     (\<forall>(n, i) \<in> set (sriovNetServices st). run (instances st ! i) = RunIdle \<and> regUpdateCh (instances st ! i) = 0 \<and>
        watch (instances st ! i) = WatchIdle)"

lemma mset_gomap:
  assumes "gomap_ok m" "gomap_ok m'" "map_of m = map_of m'"
  shows "mset m = mset m'"
proof -
  have "set m = set m'" using assms by (metis gomap_map_of_iff subrelI subset_antisym)
  moreover have "distinct m" "distinct m'" using assms(1,2) by (simp_all add: gomap_ok_def distinct_map)
  ultimately show ?thesis by (simp add: set_eq_iff_mset_eq_distinct)
qed

lemma by_service_map:
  assumes "gomap_ok vfs"
  shows "by_service vfs n = map_of (filter (\<lambda>(_, vf). VF_NetworkService vf = n) vfs)"
proof
  fix k
  have ok: "gomap_ok (filter (\<lambda>(_, vf). VF_NetworkService vf = n) vfs)"
    using assms by (simp add: gomap_ok_def distinct_map_filter)
  have "by_service vfs n k = Some v \<longleftrightarrow> map_of (filter (\<lambda>(_, vf). VF_NetworkService vf = n) vfs) k = Some v" for v
    using gomap_map_of_iff [OF assms, of k v] gomap_map_of_iff [OF ok, of k v]
    by (cases "map_of vfs k") (auto simp: by_service_def)
  then show "by_service vfs n k = map_of (filter (\<lambda>(_, vf). VF_NetworkService vf = n) vfs) k"
    by (metis option.exhaust)
qed


text \<open>An instance whose deletion waits for room in the channel of updates, with the lock that the reader of that channel waits for.\<close>

definition deadlocked :: "serviceInstance \<Rightarrow> bool" where
  "deadlocked s \<longleftrightarrow> run s = DeleteNotify \<and> watch s = WatchBuild \<and> regUpdateCh s = updateChannelBufferSize"

lemma stuck_instance:
  assumes inv: "instance_inv s" and r: "regState s \<noteq> notRegistered" "watch s \<noteq> WatchDone" and n: "\<nexists>s'. instance_step s s'"
  shows "deadlocked s \<or> run s = RunIdle \<and> regUpdateCh s = 0 \<and> watch s = WatchIdle"
proof -
  from n have "regState s \<noteq> registrationInProgress" using register by blast
  then have reg: "regState s = registered" using r(1) by (cases "regState s") auto
  then have "watch s \<noteq> WatchOff" using n kubelet by blast
  moreover have "watch s = WatchBuild \<Longrightarrow> run s = DeleteNotify" using n build [of s "\<lambda>x. x"] by auto
  moreover have "watch s = WatchIdle \<Longrightarrow> regUpdateCh s = 0" using n update [of s] by (metis not0_implies_Suc)
  moreover have "run s \<noteq> RunIdle \<Longrightarrow> regUpdateCh s = updateChannelBufferSize"
    using n notify [of s] inv by (metis instance_inv_def le_neq_implies_less)
  ultimately show ?thesis using r(2) by (cases "watch s") (auto simp: deadlocked_def updateChannelBufferSize_def)
qed

text \<open>
  C36: The controllers stop only when they are done, or in one deadlock. In every state the controllers
  reach, if nothing can happen any more although the kubelet registers and watches
  every instance, then either nothing is left to do, or some instance is deadlocked: it holds its
  lock while it waits for room in the full channel of updates, and the reader of
  that channel waits for the lock.
\<close>

theorem sriov_stops_only:
  assumes "sriov_step\<^sup>*\<^sup>* (service_start ms) st" "\<nexists>st'. sriov_step st st'"
  shows "quiescent st \<or> (\<exists>s \<in> set (instances st). deadlocked s)"
proof (rule disjCI)
  assume nd: "\<not> (\<exists>s \<in> set (instances st). deadlocked s)"
  obtain d where inv: "sriov_inv d st" using sriov_run_inv [OF assms(1)] by blast
  have idle: "run (instances st ! i) = RunIdle \<and> regUpdateCh (instances st ! i) = 0 \<and> watch (instances st ! i) = WatchIdle"
    if "i < length (instances st)" "regState (instances st ! i) \<noteq> notRegistered" "watch (instances st ! i) \<noteq> WatchDone" for i
  proof -
    have "\<nexists>s'. instance_step (instances st ! i) s'" using assms(2) sc_instance [OF that(1)] by blast
    from stuck_instance [OF inv_instances [OF inv that(1)] that(2,3) this] nd that(1) show ?thesis by auto
  qed
  show "quiescent st"
  proof (cases "phase st")
    case ScIdle
    then have f: "follows d (sriovNetServices st) (instances st)" using inv by (simp add: sriov_inv_def settled_def)
    have "inbox st = []" using assms(2) sc_take [OF ScIdle _ is_order_id] by (cases "inbox st") auto
    moreover have "run (instances st ! i) = RunIdle \<and> regUpdateCh (instances st ! i) = 0 \<and> watch (instances st ! i) = WatchIdle"
      if "(n, i) \<in> set (sriovNetServices st)" for n i
    proof -
      have "map_of (sriovNetServices st) n = Some i" using that followsD(1) [OF f] by (simp add: gomap_map_of_iff)
      from followsD(4,5) [OF f this] idle show ?thesis by (simp add: serves_def)
    qed
    ultimately show ?thesis using ScIdle by (auto simp: quiescent_def)
  next
    case (ScSend msg i)
    then have i: "i < length (instances st)" "watch (instances st ! i) \<noteq> WatchDone" using inv by (simp_all add: sriov_inv_def)
    have "run (instances st ! i) = RunIdle"
    proof (cases "regState (instances st ! i) = notRegistered")
      case True
      then show ?thesis using inv_instances [OF inv i(1)] by (simp add: instance_inv_def)
    qed (use idle i in blast)
    then show ?thesis using assms(2) sc_hand [OF ScSend] by blast
  next
    case (ScStop todo after)
    show ?thesis
    proof (cases todo)
      case Nil
      then show ?thesis using assms(2) sc_stopped ScStop by blast
    next
      case (Cons i todo')
      then have "watch (instances st ! i) = WatchIdle"
        using inv ScStop idle by (simp add: sriov_inv_def settled_def stoppable_def)
      then show ?thesis using assms(2) sc_stop ScStop Cons by blast
    qed
  next
    case (ScWait i todo after)
    then have "i < length (instances st)" "watch (instances st ! i) = WatchDone" using inv by (simp_all add: sriov_inv_def settled_def)
    then have "doneCh (instances st ! i)" using inv_instances [OF inv] by (simp add: instance_inv_def)
    then show ?thesis using assms(2) sc_done [OF ScWait] by blast
  qed
qed

subsection \<open>An example run, and the deadlock\<close>

text \<open>
  One network service with more and more virtual functions: \<open>ex_state n ms u r w\<close> has \<open>n\<close> of
  them, \<open>ms\<close> still to come and \<open>u\<close> signals in the channel.
\<close>

definition ex_svc :: string where "ex_svc = ''acme.io/net''"

definition ex_vf :: "nat \<Rightarrow> VF" where
  "ex_vf n = empty_VF\<lparr>VF_NetworkService := ex_svc, VFIODevice := ''/dev/vfio/'' @ replicate n CHR ''1''\<rparr>"

definition ex_key :: "nat \<Rightarrow> string" where "ex_key n = replicate n CHR ''1''"

definition ex_vfs :: "nat \<Rightarrow> (string, VF) gomap" where "ex_vfs n = map (\<lambda>k. (ex_key k, ex_vf k)) [0..<n]"

definition ex_msg :: "operationType \<Rightarrow> nat \<Rightarrow> configMessage" where
  "ex_msg op n = \<lparr>m_op = op, m_pciAddr = ex_key n, m_vf = ex_vf n\<rparr>"

definition ex_inst :: "(string, VF) gomap \<Rightarrow> (string, VF) gomap \<Rightarrow> nat \<Rightarrow> run_phase \<Rightarrow> watch_phase \<Rightarrow> registrationState \<Rightarrow> string list list \<Rightarrow>
    serviceInstance" where
  "ex_inst si vs u r w reg sl = \<lparr>si_vfs = si, sic_vfs = vs, regState = reg, networkServiceName = ex_svc, regUpdateCh = u,
     run = r, watch = w, sent_lists = sl, doneCh = False\<rparr>"

definition ex_state :: "configMessage list \<Rightarrow> service_phase \<Rightarrow> serviceInstance \<Rightarrow> sriov" where
  "ex_state ms ph s = \<lparr>inbox = ms, phase = ph, sriovNetServices = [(ex_svc, 0)], instances = [s]\<rparr>"

lemmas ex_defs = ex_state_def ex_inst_def ex_msg_def set_instance_def hand_over_def run_message_def Let_def

lemma ex_vfs_Suc: "AList.update (ex_key n) (ex_vf n) (ex_vfs n) = ex_vfs (Suc n)"
  by (subst update_fresh) (auto simp: ex_vfs_def ex_key_def map_of_eq_None_iff)

lemma ex_service: "VF_NetworkService (ex_vf n) = ex_svc"
  by (simp add: ex_vf_def)

lemma ex_instance_step: "instance_step s s' \<Longrightarrow> sriov_step (ex_state ms ph s) (ex_state ms ph s')"
  using sc_instance [of 0 "ex_state ms ph s" s'] by (simp add: ex_state_def set_instance_def)

lemma three_steps: "R a b \<Longrightarrow> R b c \<Longrightarrow> R c d \<Longrightarrow> R\<^sup>*\<^sup>* a d"
  by (meson converse_rtranclp_into_rtranclp rtranclp.rtrancl_refl)

lemma ex_add:
  assumes "u < updateChannelBufferSize"
  shows "sriov_step\<^sup>*\<^sup>* (ex_state (ex_msg operationAdd n # ms) ScIdle (ex_inst (ex_vfs n) (ex_vfs n) u RunIdle WatchBuild registered []))
    (ex_state ms ScIdle (ex_inst (ex_vfs (Suc n)) (ex_vfs (Suc n)) (Suc u) RunIdle WatchBuild registered []))"
proof -
  let ?a = "ex_inst (ex_vfs (Suc n)) (ex_vfs n) u RunIdle WatchBuild registered []"
  let ?b = "ex_inst (ex_vfs (Suc n)) (ex_vfs (Suc n)) u Notify WatchBuild registered []"
  have 1: "sriov_step (ex_state (ex_msg operationAdd n # ms) ScIdle (ex_inst (ex_vfs n) (ex_vfs n) u RunIdle WatchBuild registered []))
      (ex_state ms (ScSend (ex_msg operationAdd n) 0) ?a)"
    using sc_take [of "ex_state (ex_msg operationAdd n # ms) ScIdle (ex_inst (ex_vfs n) (ex_vfs n) u RunIdle WatchBuild registered [])"
        "ex_msg operationAdd n" ms "\<lambda>x. x"]
    by (simp add: ex_defs service_message_def processAdd_def ex_service ex_vfs_Suc)
  have 2: "sriov_step (ex_state ms (ScSend (ex_msg operationAdd n) 0) ?a) (ex_state ms ScIdle ?b)"
    using sc_hand [of "ex_state ms (ScSend (ex_msg operationAdd n) 0) ?a" "ex_msg operationAdd n" 0]
    by (simp add: ex_defs processAddVF_def ex_vfs_Suc)
  have 3: "sriov_step (ex_state ms ScIdle ?b)
      (ex_state ms ScIdle (ex_inst (ex_vfs (Suc n)) (ex_vfs (Suc n)) (Suc u) RunIdle WatchBuild registered []))"
    by (rule ex_instance_step) (use notify [of ?b] assms in \<open>simp add: ex_inst_def\<close>)
  from 1 2 3 show ?thesis by (rule three_steps)
qed

lemma ex_adds:
  "u + k \<le> updateChannelBufferSize \<Longrightarrow>
   sriov_step\<^sup>*\<^sup>* (ex_state (map (ex_msg operationAdd) [n..<n + k] @ ms) ScIdle (ex_inst (ex_vfs n) (ex_vfs n) u RunIdle WatchBuild registered []))
    (ex_state ms ScIdle (ex_inst (ex_vfs (n + k)) (ex_vfs (n + k)) (u + k) RunIdle WatchBuild registered []))"
proof (induction k arbitrary: n u)
  case (Suc k)
  have "map (ex_msg operationAdd) [n..<n + Suc k] @ ms = ex_msg operationAdd n # map (ex_msg operationAdd) [Suc n..<Suc n + k] @ ms"
    by (simp add: upt_conv_Cons del: upt_Suc)
  moreover have "u < updateChannelBufferSize" using Suc.prems by simp
  ultimately show ?case
    using rtranclp_trans [OF ex_add [of u n "map (ex_msg operationAdd) [Suc n..<Suc n + k] @ ms"] Suc.IH [of "Suc u" "Suc n"]] Suc.prems
    by simp
qed simp

lemma ex_first:
  "sriov_step\<^sup>*\<^sup>* (service_start (ex_msg operationAdd 0 # ms))
    (ex_state ms ScIdle (ex_inst (ex_vfs 1) (ex_vfs 1) 1 RunIdle WatchBuild registered []))"
proof -
  let ?s = "newServiceInstance (ex_vfs 1)"
  let ?i = "\<lambda>u r w reg. ex_inst (ex_vfs 1) (ex_vfs 1) u r w reg []"
  have v: "ex_vfs (Suc 0) = [(ex_key 0, ex_vf 0)]" by (simp add: ex_vfs_def)
  have "sriov_step (service_start (ex_msg operationAdd 0 # ms)) (ex_state ms (ScSend (ex_msg operationAdd 0) 0) ?s)"
    using sc_take [of "service_start (ex_msg operationAdd 0 # ms)" "ex_msg operationAdd 0" ms "\<lambda>x. x"]
    by (simp add: service_start_def ex_state_def ex_msg_def service_message_def processAdd_def ex_service v Let_def)
  moreover have "sriov_step (ex_state ms (ScSend (ex_msg operationAdd 0) 0) ?s)
      (ex_state ms ScIdle (?i 0 Notify WatchOff registrationInProgress))"
    using sc_hand [of "ex_state ms (ScSend (ex_msg operationAdd 0) 0) ?s" "ex_msg operationAdd 0" 0]
    by (simp add: ex_defs newServiceInstance_def processAddVF_def startDevicePlugin_def ex_service v)
  moreover have "sriov_step (ex_state ms ScIdle (?i 0 Notify WatchOff registrationInProgress))
      (ex_state ms ScIdle (?i 1 RunIdle WatchOff registrationInProgress))"
    by (rule ex_instance_step) (use notify [of "?i 0 Notify WatchOff registrationInProgress"] in
      \<open>simp add: ex_inst_def updateChannelBufferSize_def\<close>)
  ultimately have a: "sriov_step\<^sup>*\<^sup>* (service_start (ex_msg operationAdd 0 # ms))
      (ex_state ms ScIdle (?i 1 RunIdle WatchOff registrationInProgress))" by (rule three_steps)
  have "sriov_step (ex_state ms ScIdle (?i 1 RunIdle WatchOff registrationInProgress)) (ex_state ms ScIdle (?i 1 RunIdle WatchOff registered))"
    by (rule ex_instance_step) (use register [of "?i 1 RunIdle WatchOff registrationInProgress"] in \<open>simp add: ex_inst_def\<close>)
  moreover have "sriov_step (ex_state ms ScIdle (?i 1 RunIdle WatchOff registered)) (ex_state ms ScIdle (?i 1 RunIdle WatchBuild registered))"
    by (rule ex_instance_step) (use kubelet [of "?i 1 RunIdle WatchOff registered"] in \<open>simp add: ex_inst_def\<close>)
  ultimately show ?thesis by (meson a rtranclp.rtrancl_into_rtrancl)
qed

lemma deadlock_reached:
  "\<exists>st. sriov_step\<^sup>*\<^sup>* (service_start (map (ex_msg operationAdd) [0..<10] @ [ex_msg operationDeleteEntry 0])) st \<and>
     deadlocked (instances st ! 0) \<and> length (instances st) = 1 \<and> inbox st = [] \<and> (\<nexists>st'. sriov_step st st')"
proof -
  let ?m = "ex_msg operationDeleteEntry 0" and ?v = "ex_vfs 10"
  let ?d = "AList.delete (ex_key 0) ?v"
  let ?s = "ex_inst ?v ?v 10 RunIdle WatchBuild registered []" and ?t = "ex_inst ?d ?d 10 DeleteNotify WatchBuild registered []"
  have d: "?d \<noteq> []" by (simp add: ex_vfs_def ex_key_def upt_rec)
  have "map (ex_msg operationAdd) [0..<10] @ [?m] = ex_msg operationAdd 0 # map (ex_msg operationAdd) [1..<1 + 9] @ [?m]"
    by (simp add: upt_rec)
  with ex_first [of "map (ex_msg operationAdd) [1..<1 + 9] @ [?m]"] ex_adds [of 1 9 1 "[?m]"]
  have "sriov_step\<^sup>*\<^sup>* (service_start (map (ex_msg operationAdd) [0..<10] @ [?m])) (ex_state [?m] ScIdle ?s)"
    by (simp add: updateChannelBufferSize_def rtranclp_trans)
  moreover have "sriov_step (ex_state [?m] ScIdle ?s) (ex_state [] (ScSend ?m 0) ?s)"
    using sc_take [of "ex_state [?m] ScIdle ?s" ?m "[]" "\<lambda>x. x"]
    by (simp add: ex_state_def ex_msg_def service_message_def processExisting_def ex_service)
  moreover have "sriov_step (ex_state [] (ScSend ?m 0) ?s) (ex_state [] ScIdle ?t)"
    using sc_hand [of "ex_state [] (ScSend ?m 0) ?s" ?m 0] d
    by (simp add: ex_defs processDeleteVF_def afterDelete_def)
  ultimately have r: "sriov_step\<^sup>*\<^sup>* (service_start (map (ex_msg operationAdd) [0..<10] @ [?m])) (ex_state [] ScIdle ?t)"
    by (meson rtranclp.rtrancl_into_rtrancl)
  have "\<nexists>s'. instance_step ?t s'"
    by (auto elim!: instance_step.cases simp: ex_inst_def updateChannelBufferSize_def)
  then have "\<nexists>st'. sriov_step (ex_state [] ScIdle ?t) st'"
    by (auto elim!: sriov_step.cases simp: ex_state_def)
  then show ?thesis
    by (intro exI [of _ "ex_state [] ScIdle ?t"]) (use r in \<open>simp add: ex_state_def deadlocked_def ex_inst_def updateChannelBufferSize_def\<close>)
qed

definition ex_config_env :: config_env where
  "ex_config_env = \<lparr>c_unmarshal = (\<lambda>_. Inr (ex_vf 0)), c_range_data = (\<lambda>x. x), c_range_add = (\<lambda>x. x), c_range_delete = (\<lambda>x. x)\<rparr>"

definition ex_config :: "(config_env \<times> operationType \<times> ConfigMap) list" where
  "ex_config = [(ex_config_env, operationAdd, \<lparr>cm_ResourceVersion = ''1'', cm_Data = [(ex_key 0, ''vfioDevice: /dev/vfio/'')]\<rparr>)]"

lemma ex_config_messages: "workforever ex_config [] = (ex_vfs 1, [ex_msg operationAdd 0])"
  by (simp add: ex_config_def ex_config_env_def work_def processConfigMapAdd_def processConfigMap_def messages_def ex_msg_def ex_vfs_def)

lemma ex_settles:
  "\<exists>st sl. sriov_step\<^sup>*\<^sup>* (service_start [ex_msg operationAdd 0]) st \<and>
     st = ex_state [] ScIdle (ex_inst (ex_vfs 1) (ex_vfs 1) 0 RunIdle WatchIdle registered sl)"
proof -
  let ?i = "\<lambda>u w sl. ex_inst (ex_vfs 1) (ex_vfs 1) u RunIdle w registered sl"
  let ?l = "buildDeviceList (\<lambda>x. x)"
  let ?b = "?i 1 WatchBuild []"
  let ?c = "?i 1 WatchIdle [?l ?b]" and ?d = "?i 0 WatchBuild [?l ?b]"
  let ?e = "?i 0 WatchIdle [?l ?b, ?l ?d]"
  have "sriov_step (ex_state [] ScIdle ?b) (ex_state [] ScIdle ?c)"
    by (rule ex_instance_step) (use build [of ?b "\<lambda>x. x"] in \<open>simp add: ex_inst_def\<close>)
  moreover have "sriov_step (ex_state [] ScIdle ?c) (ex_state [] ScIdle ?d)"
    by (rule ex_instance_step) (use update [of ?c 0] in \<open>simp add: ex_inst_def\<close>)
  moreover have "sriov_step (ex_state [] ScIdle ?d) (ex_state [] ScIdle ?e)"
    by (rule ex_instance_step) (use build [of ?d "\<lambda>x. x"] in \<open>simp add: ex_inst_def\<close>)
  ultimately have "sriov_step\<^sup>*\<^sup>* (ex_state [] ScIdle ?b) (ex_state [] ScIdle ?e)" by (rule three_steps)
  with ex_first [of "[]"] show ?thesis by (blast intro: rtranclp_trans)
qed


theorem sriov_stops_only_witness:
  "\<exists>st. sriov_step\<^sup>*\<^sup>* (service_start (map (ex_msg operationAdd) [0..<10] @ [ex_msg operationDeleteEntry 0])) st \<and>
     (quiescent st \<or> (\<exists>s \<in> set (instances st). deadlocked s))"
proof -
  obtain st where "sriov_step\<^sup>*\<^sup>* (service_start (map (ex_msg operationAdd) [0..<10] @ [ex_msg operationDeleteEntry 0])) st"
    "\<nexists>st'. sriov_step st st'" using deadlock_reached by blast
  with sriov_stops_only [OF this] show ?thesis by blast
qed

text \<open>An entry that changes under its address is not passed on: only the keys are compared.\<close>

lemma changed_entry_ignored:
  assumes "processConfigMap env cm = Inr [(k, vf')]" "is_order (c_range_add env)" "is_order (c_range_delete env)"
  shows "processConfigMapUpdate env cm [(k, vf)] = (None, [(k, vf')], [])"
  using assms by (simp add: processConfigMapUpdate_def diffMap_def messages_def is_order_Nil)

subsection \<open>Allocation\<close>

text \<open>What the kubelet may ask for is what it was told of: every advertised device can be allocated.\<close>

lemma allocate_devices_ok:
  assumes "is_order ord" "set devs \<subseteq> set_mset (devices (sic_vfs s))"
  shows "\<exists>specs. allocate_devices ord s devs = Inr (devs @ [''/dev/vfio/vfio''], specs) \<and> map vc_VFIODevice specs = devs"
  using assms(2)
proof (induction devs)
  case (Cons dev devs)
  then have dev: "\<exists>(k, vf) \<in> set (sic_vfs s). VFIODevice vf = dev" by (auto simp: devices_def)
  then have "\<exists>kv. find (\<lambda>(_, vf). VFIODevice vf = dev) (ord (sic_vfs s)) = Some kv"
    using is_order_set [OF assms(1)] by (metis (mono_tags, lifting) find_None_iff option.exhaust)
  then obtain spec where "getVFIODevSpecs ord dev s = Inr spec" "vc_VFIODevice spec = dev"
    by (auto simp: getVFIODevSpecs_def)
  moreover have "checkVF dev s" using dev by (auto simp: checkVF_def list_ex_iff)
  ultimately show ?case using Cons by auto
qed simp

end
