(* ===== verification/DevicePlugin.thy ===== *)
theory DevicePlugin
  imports NsmdProps Acl
begin

text \<open>
  The device plugin for the sockets of nsmd (\<open>k8s/cmd/nsmdp\<close>): which devices it lists for the
  kubelet, and what it answers when the kubelet allocates them. It calls nsmd
  for the workspaces.
\<close>

subsection \<open>Listing devices\<close>

fun index_of :: "int \<Rightarrow> string list \<Rightarrow> string \<Rightarrow> int" where
  "index_of i [] v = -1"
| "index_of i (x # xs) v = (if x = v then i else index_of (i + 1) xs v)"

definition indexOf :: "string list \<Rightarrow> string \<Rightarrow> int" where
  "indexOf xs v = index_of 0 xs v"

definition workspace_name :: "nat \<Rightarrow> string" where
  "workspace_name k = ''nsm-'' @ FormatUint 10 k"

lemma index_of_iff: "0 \<le> i \<Longrightarrow> index_of i xs v \<noteq> -1 \<longleftrightarrow> v \<in> set xs"
  by (induction xs arbitrary: i) auto

lemma indexOf_iff: "indexOf xs v \<noteq> -1 \<longleftrightarrow> v \<in> set xs"
  by (simp add: indexOf_def index_of_iff)

lemma workspace_name_inj: "inj workspace_name"
  by (rule injI) (metis workspace_name_def append_same_eq same_append_eq foldl_FormatUint)

lemma finite_taken: "finite {k. i \<le> k \<and> workspace_name k \<in> set ws}"
  by (rule finite_subset [OF _ finite_vimageI [OF finite_set workspace_name_inj, of ws]]) auto

text \<open>The loop that looks for ten names that are not in use.\<close>

function free_devices :: "string list \<Rightarrow> nat \<Rightarrow> nat \<Rightarrow> string list" where
  "free_devices ws i pool =
     (if pool < 10 then
        (if indexOf ws (workspace_name i) \<noteq> -1 then free_devices ws (Suc i) pool
         else workspace_name i # free_devices ws (Suc i) (Suc pool))
      else [])"
  by pat_completeness auto
termination
proof (relation "measure (\<lambda>(ws, i, pool). (10 - pool) + card {k. i \<le> k \<and> workspace_name k \<in> set ws})", goal_cases)
  case (2 ws i pool)
  then have "{k. Suc i \<le> k \<and> workspace_name k \<in> set ws} \<subset> {k. i \<le> k \<and> workspace_name k \<in> set ws}"
    unfolding psubset_eq by (auto simp: indexOf_iff set_eq_iff intro: exI [of _ i])
  then show ?case using psubset_card_mono [OF finite_taken] by simp
next
  case (3 ws i pool)
  have "card {k. Suc i \<le> k \<and> workspace_name k \<in> set ws} \<le> card {k. i \<le> k \<and> workspace_name k \<in> set ws}"
    by (rule card_mono [OF finite_taken]) auto
  then show ?case using 3 by simp
qed simp

declare free_devices.simps [simp del]

text \<open>
  One turn of \<open>ListAndWatch\<close>, from what nsmd answers. An error is logged, and then the nil answer is
  dereferenced.
\<close>

definition device_list :: "string list \<Rightarrow> string list" where
  "device_list ws = free_devices ws 1 0 @ ws"

definition watch_turn :: "string list result \<Rightarrow> string list result" where
  "watch_turn enumWS =
     (case enumWS of
        Inl _ \<Rightarrow> Inl (Panic ''invalid memory address or nil pointer dereference'')
      | Inr ws \<Rightarrow> Inr (device_list ws))"

subsection \<open>Allocating devices\<close>

record Mount =
  mt_ContainerPath :: string
  mt_HostPath :: string

record ContainerResponse =
  resp_Mounts :: "Mount list"
  resp_Envs :: "(string, string) gomap"

definition container_response :: "ClientConnectionReply \<Rightarrow> ContainerResponse" where
  "container_response r =
     \<lparr>resp_Mounts = [\<lparr>mt_ContainerPath = reply_ClientBaseDir r, mt_HostPath = reply_HostBasedir r @ reply_Workspace r\<rparr>],
      resp_Envs =
        [(''NSM_DEVICE_PLUGIN'', ''true''),
         (''NSM_SERVER_SOCKET'', reply_ClientBaseDir r @ reply_NsmServerSocket r),
         (''NSM_CLIENT_SOCKET'', reply_ClientBaseDir r @ reply_NsmClientSocket r),
         (''WORKSPACE'', reply_ClientBaseDir r)]\<rparr>"

text \<open>
  \<open>RequestWorkspace\<close> over the API of nsmd; if nsmd cannot be reached the process ends. A request that
  fails is logged, and its container has no answer.
\<close>

definition RequestWorkspace :: "error option \<Rightarrow> ws_env \<Rightarrow> string \<Rightarrow> nsmServer \<Rightarrow> ClientConnectionReply result \<times> nsmServer" where
  "RequestWorkspace apiClient env name n =
     (case apiClient of
        Some _ \<Rightarrow> (Inl (Panic ''exit status 1''), n)
      | None \<Rightarrow> RequestClientConnection env name n)"

fun plugin_Allocate :: "(error option \<times> ws_env) list \<Rightarrow> string list list \<Rightarrow> nsmServer \<Rightarrow> ContainerResponse list result \<times> nsmServer" where
  "plugin_Allocate envs [] n = (Inr [], n)"
| "plugin_Allocate envs ([] # reqs) n = (Inl (Panic ''index out of range''), n)"
| "plugin_Allocate envs ((dev # _) # reqs) n =
     (case RequestWorkspace (fst (hd envs)) (snd (hd envs)) dev n of
        (Inl (Panic p), n1) \<Rightarrow> (Inl (Panic p), n1)
      | (Inl (Errorf _), n1) \<Rightarrow> plugin_Allocate (tl envs) reqs n1
      | (Inr reply, n1) \<Rightarrow>
          (case plugin_Allocate (tl envs) reqs n1 of
             (Inl e, n2) \<Rightarrow> (Inl e, n2)
           | (Inr rs, n2) \<Rightarrow> (Inr (container_response reply # rs), n2)))"

subsection \<open>Properties\<close>

lemma free_devices_first:
  "pool \<le> 10 \<Longrightarrow> \<exists>ks. free_devices ws i pool = map workspace_name ks \<and> length ks = 10 - pool \<and> distinct ks \<and>
     (\<forall>k \<in> set ks. i \<le> k \<and> workspace_name k \<notin> set ws) \<and>
     (\<forall>k. i \<le> k \<and> workspace_name k \<notin> set ws \<longrightarrow> k \<in> set ks \<or> (\<forall>j \<in> set ks. j < k))"
proof (induction ws i pool rule: free_devices.induct)
  case (1 ws i pool)
  consider (full) "pool = 10" | (taken) "pool < 10" "workspace_name i \<in> set ws" | (free) "pool < 10" "workspace_name i \<notin> set ws"
    using 1(3) by linarith
  then show ?case
  proof cases
    case full
    then show ?thesis by (simp add: free_devices.simps [of ws i 10])
  next
    case taken
    then have "indexOf ws (workspace_name i) \<noteq> -1" by (simp add: indexOf_iff)
    from 1(1) [OF taken(1) this] 1(3) obtain ks where
      ks: "free_devices ws (Suc i) pool = map workspace_name ks" "length ks = 10 - pool" "distinct ks"
        "\<forall>k \<in> set ks. Suc i \<le> k \<and> workspace_name k \<notin> set ws"
        "\<forall>k. Suc i \<le> k \<and> workspace_name k \<notin> set ws \<longrightarrow> k \<in> set ks \<or> (\<forall>j \<in> set ks. j < k)" by blast
    have "free_devices ws i pool = map workspace_name ks"
      using taken ks(1) by (simp add: free_devices.simps [of ws i pool] indexOf_iff)
    moreover have "\<forall>k. i \<le> k \<and> workspace_name k \<notin> set ws \<longrightarrow> k \<in> set ks \<or> (\<forall>j \<in> set ks. j < k)"
      using ks(5) taken(2) by (metis le_antisym not_less_eq_eq)
    ultimately show ?thesis using ks by (intro exI [of _ ks]) auto
  next
    case free
    then have "\<not> indexOf ws (workspace_name i) \<noteq> -1" by (simp only: indexOf_iff not_False_eq_True)
    from 1(2) [OF free(1) this] free(1) obtain ks where
      ks: "free_devices ws (Suc i) (Suc pool) = map workspace_name ks" "length ks = 10 - Suc pool" "distinct ks"
        "\<forall>k \<in> set ks. Suc i \<le> k \<and> workspace_name k \<notin> set ws"
        "\<forall>k. Suc i \<le> k \<and> workspace_name k \<notin> set ws \<longrightarrow> k \<in> set ks \<or> (\<forall>j \<in> set ks. j < k)" by auto
    have "free_devices ws i pool = map workspace_name (i # ks)"
      using free ks(1) by (simp add: free_devices.simps [of ws i pool] indexOf_iff)
    moreover have "\<forall>k. i \<le> k \<and> workspace_name k \<notin> set ws \<longrightarrow> k \<in> set (i # ks) \<or> (\<forall>j \<in> set (i # ks). j < k)"
      using ks(5) by (metis insert_iff le_neq_implies_less list.simps(15) not_less_eq_eq not_less)
    ultimately show ?thesis using ks free by (intro exI [of _ "i # ks"]) auto
  qed
qed

text \<open>
  C37: The kubelet is always offered ten free devices. Whatever workspaces nsmd reports, the
  loop of \<open>ListAndWatch\<close> ends; it lists, before the workspaces in use, exactly the first ten
  names \<open>nsm-1\<close>, \<open>nsm-2\<close>, and so on, that are not in use, each once.
\<close>

theorem ten_devices_free:
  "\<exists>ks. watch_turn (Inr ws) = Inr (map workspace_name ks @ ws) \<and> length ks = 10 \<and> distinct (map workspace_name ks) \<and>
     (\<forall>k. k \<in> set ks \<longrightarrow> 1 \<le> k \<and> workspace_name k \<notin> set ws) \<and>
     (\<forall>k. 1 \<le> k \<and> workspace_name k \<notin> set ws \<longrightarrow> k \<in> set ks \<or> (\<forall>j. j \<in> set ks \<longrightarrow> j < k))"
proof -
  obtain ks where "free_devices ws 1 0 = map workspace_name ks" "length ks = 10" "distinct ks"
    "\<forall>k \<in> set ks. 1 \<le> k \<and> workspace_name k \<notin> set ws"
    "\<forall>k. 1 \<le> k \<and> workspace_name k \<notin> set ws \<longrightarrow> k \<in> set ks \<or> (\<forall>j \<in> set ks. j < k)"
    using free_devices_first [of 0 ws 1] by auto
  moreover from this have "distinct (map workspace_name ks)"
    using inj_on_subset [OF workspace_name_inj subset_UNIV] by (simp add: distinct_map)
  ultimately show ?thesis by (intro exI [of _ ks]) (auto simp: watch_turn_def device_list_def)
qed

theorem ten_devices_free_witness:
  "\<exists>ks. watch_turn (Inr [''nsm-1'', ''nsm-3'']) = Inr (map workspace_name ks @ [''nsm-1'', ''nsm-3'']) \<and> length ks = 10 \<and> 2 \<in> set ks"
proof -
  obtain ks where ks: "watch_turn (Inr [''nsm-1'', ''nsm-3'']) = Inr (map workspace_name ks @ [''nsm-1'', ''nsm-3''])" "length ks = 10"
    "distinct (map workspace_name ks)" "\<forall>k. k \<in> set ks \<longrightarrow> 1 \<le> k \<and> workspace_name k \<notin> set [''nsm-1'', ''nsm-3'']"
    "\<forall>k. 1 \<le> k \<and> workspace_name k \<notin> set [''nsm-1'', ''nsm-3''] \<longrightarrow> k \<in> set ks \<or> (\<forall>j. j \<in> set ks \<longrightarrow> j < k)"
    using ten_devices_free by blast
  have n: "workspace_name 1 = ''nsm-1''" "workspace_name 2 = ''nsm-2''"
    by (simp_all add: workspace_name_def FormatUint_small digit_chars)
  then have "2 \<in> set ks \<or> (\<forall>j. j \<in> set ks \<longrightarrow> j < 2)" using ks(5) by simp
  moreover have "\<not> (\<forall>j. j \<in> set ks \<longrightarrow> j < 2)"
  proof
    assume "\<forall>j. j \<in> set ks \<longrightarrow> j < 2"
    with ks(4) n(1) have "set ks = {}" by (metis One_nat_def Suc_1 le_antisym less_Suc_eq_le list.set_intros(1) equals0I)
    with ks(2) show False by simp
  qed
  ultimately show ?thesis using ks(1,2) by blast
qed

text \<open>nsmd lists an empty name for every workspace, and so the kubelet is offered devices without a name.\<close>

lemma nameless_devices:
  "workspaces n = [(''nsm-1'', w)] \<Longrightarrow> \<exists>ds. watch_turn (Inr (EnumConnection (\<lambda>x. x) n)) = Inr (ds @ ['''', ''nsm-1''])"
  by (simp add: watch_turn_def device_list_def EnumConnection_def)

text \<open>A container whose workspace is refused is left out of the answer.\<close>

lemma refused_container_left_out:
  assumes "RequestClientConnection env dev n = (Inl (Errorf e), n1)"
  shows "plugin_Allocate [(None, env)] [[dev]] n = (Inr [], n1)"
  using assms by (simp add: RequestWorkspace_def)

end
