(* ===== verification/Lifecycle.thy ===== *)
theory Lifecycle
  imports Prelude
begin

text \<open>
  Small life cycles: the registration of a dataplane with the manager
  (\<open>dataplane/impl/dataplaneregistrarclient\<close>), with its goroutines as steps, the helper that makes
  initialisation and closing idempotent (\<open>utils/idempotent\<close>), and the connection of nsmd to the registry.
\<close>

subsection \<open>Registration of a dataplane\<close>

text \<open>
  Its goroutines: waiting for the socket, the loop that tries to register, opening the stream of
  liveness messages, and the loop that receives them. The environment says how
  the calls of a turn end.
\<close>

datatype goroutine = RegisterWait | RegisterLoop | LivenessStart | LivenessLoop

datatype callback = OnConnect | OnDisconnect

record reg_env =
  e_Stat :: "error option"
  e_SocketCheck :: "error option"
  e_Registration :: "error option"
  e_Liveness :: "error option"
  e_RecvMsg :: "error option"

record dataplaneRegistration =
  onConnect :: bool
  onDisconnect :: bool
  cancelled :: bool
  callbacks :: "callback list"
  goroutines :: "goroutine list"
  crashed :: bool

definition spawn :: "goroutine \<Rightarrow> dataplaneRegistration \<Rightarrow> dataplaneRegistration" where
  "spawn g dr = dr\<lparr>goroutines := goroutines dr @ [g]\<rparr>"

definition tryRegistration :: "reg_env \<Rightarrow> dataplaneRegistration \<Rightarrow> error option \<times> dataplaneRegistration" where
  "tryRegistration env dr =
     (case e_Stat env of
        Some e \<Rightarrow> (Some e, dr)
      | None \<Rightarrow>
          (case e_SocketCheck env of
             Some e \<Rightarrow> (Some e, dr)
           | None \<Rightarrow>
               (case e_Registration env of
                  Some e \<Rightarrow> (Some e, dr)
                | None \<Rightarrow>
                    (None, spawn LivenessStart
                       (if onConnect dr then dr\<lparr>callbacks := callbacks dr @ [OnConnect]\<rparr> else dr)))))"

text \<open>A turn of the loop of \<open>register\<close>, and of \<open>livenessMonitor\<close>: how the goroutine goes on, if it does.\<close>

definition register_turn :: "reg_env \<Rightarrow> dataplaneRegistration \<Rightarrow> goroutine option \<times> dataplaneRegistration" where
  "register_turn env dr =
     (if cancelled dr then (None, dr)
      else case tryRegistration env dr of
        (None, dr') \<Rightarrow> (None, dr')
      | (Some _, dr') \<Rightarrow> (Some RegisterLoop, dr'))"

definition liveness_turn :: "reg_env \<Rightarrow> dataplaneRegistration \<Rightarrow> goroutine option \<times> dataplaneRegistration" where
  "liveness_turn env dr =
     (if cancelled dr then
        (None, if onDisconnect dr then dr\<lparr>callbacks := callbacks dr @ [OnDisconnect]\<rparr> else dr)
      else case e_RecvMsg env of
        None \<Rightarrow> (Some LivenessLoop, dr)
      | Some _ \<Rightarrow>
          if onConnect dr then
            (if onDisconnect dr then (None, spawn RegisterWait (dr\<lparr>callbacks := callbacks dr @ [OnDisconnect]\<rparr>))
             else (None, dr\<lparr>crashed := True\<rparr>))
          else (None, spawn RegisterWait dr))"

fun go_turn :: "reg_env \<Rightarrow> goroutine \<Rightarrow> dataplaneRegistration \<Rightarrow> goroutine option \<times> dataplaneRegistration" where
  "go_turn env RegisterWait dr = (Some RegisterLoop, dr)"
| "go_turn env RegisterLoop dr = register_turn env dr"
| "go_turn env LivenessStart dr = (case e_Liveness env of Some _ \<Rightarrow> (None, dr) | None \<Rightarrow> (Some LivenessLoop, dr))"
| "go_turn env LivenessLoop dr = liveness_turn env dr"

definition Register :: "bool \<Rightarrow> bool \<Rightarrow> dataplaneRegistration" where
  "Register con dis = \<lparr>onConnect = con, onDisconnect = dis, cancelled = False, callbacks = [], goroutines = [RegisterWait], crashed = False\<rparr>"

definition registration_Close :: "dataplaneRegistration \<Rightarrow> dataplaneRegistration" where
  "registration_Close dr = dr\<lparr>cancelled := True\<rparr>"

inductive registration_run :: "dataplaneRegistration \<Rightarrow> bool" where
  reg_start: "registration_run (Register con dis)"
| reg_turn: "registration_run dr \<Longrightarrow> goroutines dr = gs @ g # hs \<Longrightarrow>
    go_turn env g (dr\<lparr>goroutines := gs @ hs\<rparr>) = (g', dr') \<Longrightarrow>
    registration_run (case g' of None \<Rightarrow> dr' | Some x \<Rightarrow> spawn x dr')"
| reg_close: "registration_run dr \<Longrightarrow> registration_run (registration_Close dr)"

text \<open>The callbacks of a registration that has connected so and so often.\<close>

definition connected :: "dataplaneRegistration \<Rightarrow> bool" where
  "connected dr \<longleftrightarrow> callbacks dr \<noteq> [] \<and> last (callbacks dr) = OnConnect"

fun alternates_back :: "callback list \<Rightarrow> bool" where
  "alternates_back [] \<longleftrightarrow> True"
| "alternates_back (c # cs) \<longleftrightarrow> alternates_back cs \<and> (c = OnDisconnect \<longleftrightarrow> cs \<noteq> [] \<and> hd cs = OnConnect)"

definition alternates :: "callback list \<Rightarrow> bool" where
  "alternates cs \<longleftrightarrow> alternates_back (rev cs)"

lemma alternates_append:
  "alternates (cs @ [c]) \<longleftrightarrow> alternates cs \<and> (c = OnDisconnect \<longleftrightarrow> cs \<noteq> [] \<and> last cs = OnConnect)"
  by (simp add: alternates_def hd_rev)

lemma alternates_Nil: "alternates []"
  by (simp add: alternates_def)

definition registration_inv :: "dataplaneRegistration \<Rightarrow> bool" where
  "registration_inv dr \<longleftrightarrow> length (goroutines dr) \<le> 1 \<and>
     (onConnect dr \<and> onDisconnect dr \<longrightarrow> \<not> crashed dr \<and> alternates (callbacks dr) \<and>
        (set (goroutines dr) \<subseteq> {RegisterWait, RegisterLoop} \<and> goroutines dr \<noteq> [] \<longrightarrow> \<not> connected dr) \<and>
        (set (goroutines dr) \<subseteq> {LivenessStart, LivenessLoop} \<and> goroutines dr \<noteq> [] \<longrightarrow> connected dr))"

lemma turn_keeps:
  assumes inv: "registration_inv dr" and g: "goroutines dr = [g]" and t: "go_turn env g (dr\<lparr>goroutines := []\<rparr>) = (g', dr')"
  shows "registration_inv (case g' of None \<Rightarrow> dr' | Some x \<Rightarrow> spawn x dr')"
proof (cases g)
  case RegisterWait
  with inv g t show ?thesis by (auto simp: registration_inv_def spawn_def connected_def)
next
  case RegisterLoop
  then consider (same) "dr' = dr\<lparr>goroutines := []\<rparr>" "g' = None \<or> g' = Some RegisterLoop"
    | (con) "onConnect dr" "g' = None" "dr' = dr\<lparr>callbacks := callbacks dr @ [OnConnect], goroutines := [LivenessStart]\<rparr>"
    | (nocon) "\<not> onConnect dr" "g' = None" "dr' = dr\<lparr>goroutines := [LivenessStart]\<rparr>"
    using t by (auto simp: register_turn_def tryRegistration_def spawn_def split: if_splits option.splits)
  then show ?thesis
  proof cases
    case same
    with inv show ?thesis by (auto simp: registration_inv_def g RegisterLoop connected_def spawn_def)
  next
    case con
    with inv show ?thesis by (simp add: registration_inv_def g RegisterLoop connected_def alternates_append)
  next
    case nocon
    with inv show ?thesis by (simp add: registration_inv_def)
  qed
next
  case LivenessStart
  then have "dr' = dr\<lparr>goroutines := []\<rparr>" "g' = None \<or> g' = Some LivenessLoop" using t by (auto split: option.splits)
  with inv show ?thesis by (auto simp: registration_inv_def g LivenessStart connected_def spawn_def)
next
  case LivenessLoop
  then consider (same) "dr' = dr\<lparr>goroutines := []\<rparr>" "g' = None \<or> g' = Some LivenessLoop"
    | (dis) "goroutines dr' = [] \<or> goroutines dr' = [RegisterWait]" "g' = None" "callbacks dr' = callbacks dr @ [OnDisconnect]"
        "onConnect dr' = onConnect dr" "onDisconnect dr' = onDisconnect dr" "crashed dr' = crashed dr"
    | (nocon) "\<not> onConnect dr" "g' = None" "dr' = dr\<lparr>goroutines := [RegisterWait]\<rparr>"
    | (nodis) "\<not> onDisconnect dr" "g' = None" "dr' = dr\<lparr>goroutines := [], crashed := True\<rparr>"
    using t by (auto simp: liveness_turn_def spawn_def split: if_splits option.splits)
  then show ?thesis
  proof cases
    case same
    with inv show ?thesis by (auto simp: registration_inv_def g LivenessLoop connected_def spawn_def)
  next
    case dis
    with inv show ?thesis by (auto simp: registration_inv_def g LivenessLoop connected_def alternates_append)
  next
    case nocon
    with inv show ?thesis by (simp add: registration_inv_def)
  next
    case nodis
    with inv show ?thesis by (simp add: registration_inv_def)
  qed
qed

text \<open>
  Whatever happens, at most one goroutine works for a registration, and if both callbacks are given they
  alternate, beginning with \<open>onConnect\<close>.
\<close>

lemma registration_keeps: "registration_run dr \<Longrightarrow> registration_inv dr"
proof (induction rule: registration_run.induct)
  case (reg_start con dis)
  then show ?case by (simp add: registration_inv_def Register_def connected_def alternates_Nil)
next
  case (reg_turn dr gs g hs env g' dr')
  then have "gs = []" "hs = []" by (auto simp: registration_inv_def)
  with reg_turn.hyps(2,3) have g: "goroutines dr = [g]" and t: "go_turn env g (dr\<lparr>goroutines := []\<rparr>) = (g', dr')" by simp_all
  from turn_keeps [OF reg_turn.IH g t] show ?case .
next
  case (reg_close dr)
  then show ?case by (simp add: registration_inv_def registration_Close_def connected_def)
qed

text \<open>
  Two flaws: when the stream of liveness messages cannot be opened, nobody watches the manager any more and the
  dataplane never registers again; and the check before \<open>onDisconnect\<close> looks at the other callback.
\<close>

lemma liveness_gives_up:
  assumes "e_Liveness env = Some e" "goroutines dr = []"
  shows "go_turn env LivenessStart dr = (None, dr)"
  using assms by simp

lemma missing_callback_crashes:
  assumes "onConnect dr" "\<not> onDisconnect dr" "\<not> cancelled dr" "e_RecvMsg env = Some e"
  shows "go_turn env LivenessLoop dr = (None, dr\<lparr>crashed := True\<rparr>)"
  using assms by (simp add: liveness_turn_def)

subsection \<open>Idempotent initialisation\<close>

datatype PluginState = NEW | RUNNING | CLOSED

record Impl =
  refCount :: int
  initErr :: "error option"
  closeErr :: "error option"
  pstate :: PluginState

definition new_Impl :: Impl where
  "new_Impl = \<lparr>refCount = 0, initErr = None, closeErr = None, pstate = NEW\<rparr>"

definition ReinitErrorStr :: string where
  "ReinitErrorStr = ''true Close() has already occurred, plugin can no longer be Init() ed''"

text \<open>The result, whether the wrapped function was called, and the new state; \<open>result\<close> is what that function returns.\<close>

definition IdempotentInit :: "error option \<Rightarrow> Impl \<Rightarrow> error option \<times> bool \<times> Impl" where
  "IdempotentInit result i =
     (if pstate i = CLOSED then (Some (Errorf ReinitErrorStr), False, i)
      else let i1 = i\<lparr>refCount := refCount i + 1\<rparr> in
        if refCount i1 = 1 then
          (let i2 = i1\<lparr>initErr := result, pstate := if result = None then RUNNING else pstate i1\<rparr> in (initErr i2, True, i2))
        else (initErr i1, False, i1))"

definition IdempotentClose :: "error option \<Rightarrow> Impl \<Rightarrow> error option \<times> bool \<times> Impl" where
  "IdempotentClose result i =
     (if pstate i = CLOSED then (closeErr i, False, i)
      else let i1 = i\<lparr>refCount := refCount i - 1\<rparr> in
        if refCount i1 = 0 then (result, True, i1\<lparr>closeErr := result, pstate := CLOSED\<rparr>)
        else (closeErr i1, False, i1))"

fun plugin_run :: "(bool \<times> error option) list \<Rightarrow> Impl \<Rightarrow> bool list \<times> bool list \<times> Impl" where
  "plugin_run [] i = ([], [], i)"
| "plugin_run ((True, r) # cs) i =
     (case IdempotentInit r i of (_, b, i1) \<Rightarrow> (case plugin_run cs i1 of (ini, cl, i2) \<Rightarrow> (b # ini, cl, i2)))"
| "plugin_run ((False, r) # cs) i =
     (case IdempotentClose r i of (_, b, i1) \<Rightarrow> (case plugin_run cs i1 of (ini, cl, i2) \<Rightarrow> (ini, b # cl, i2)))"

definition calls :: "bool list \<Rightarrow> nat" where
  "calls bs = length (filter (\<lambda>b. b) bs)"

lemma calls_simps [simp]: "calls [] = 0" "calls (True # bs) = Suc (calls bs)" "calls (False # bs) = calls bs"
  by (simp_all add: calls_def)

text \<open>
  However often a plugin is initialised and closed, its own initialisation is called at most once, its own closing
  at most once, and never without the former.
\<close>

lemma plugin_run_calls:
  assumes "plugin_run cs i = (ini, cl, i')"
  shows "(pstate i = CLOSED \<longrightarrow> calls ini = 0 \<and> calls cl = 0) \<and>
    (pstate i \<noteq> CLOSED \<and> refCount i \<ge> 1 \<longrightarrow> calls ini = 0 \<and> calls cl \<le> 1) \<and>
    (pstate i \<noteq> CLOSED \<and> refCount i \<le> 0 \<longrightarrow> calls ini \<le> 1 \<and> calls cl \<le> calls ini)"
  using assms
proof (induction cs i arbitrary: ini cl rule: plugin_run.induct)
  case (2 r cs i)
  obtain e b i1 where n: "IdempotentInit r i = (e, b, i1)" by (rule prod_cases3)
  obtain ini1 cl1 where r: "plugin_run cs i1 = (ini1, cl1, i')" "ini = b # ini1" "cl = cl1"
    using 2(2) by (auto simp: n split: prod.splits)
  note ih = 2(1) [OF n [symmetric] refl r(1)]
  show ?case using n ih r(2,3) by (cases b) (auto simp: IdempotentInit_def Let_def split: if_splits)
next
  case (3 r cs i)
  obtain e b i1 where n: "IdempotentClose r i = (e, b, i1)" by (rule prod_cases3)
  obtain ini1 cl1 where r: "plugin_run cs i1 = (ini1, cl1, i')" "ini = ini1" "cl = b # cl1"
    using 3(2) by (auto simp: n split: prod.splits)
  note ih = 3(1) [OF n [symmetric] refl r(1)]
  show ?case using n ih r(2,3) by (cases b) (auto simp: IdempotentClose_def Let_def split: if_splits)
qed simp

lemma plugin_called_once:
  assumes "plugin_run cs new_Impl = (ini, cl, i')"
  shows "calls ini \<le> 1 \<and> calls cl \<le> calls ini"
  using plugin_run_calls [OF assms] by (simp add: new_Impl_def)

text \<open>A plugin that is closed before it is initialised reports success without being initialised.\<close>

lemma closed_first_not_initialised:
  "fst (IdempotentInit r (snd (snd (IdempotentClose q new_Impl)))) = None"
  "fst (snd (IdempotentInit r (snd (snd (IdempotentClose q new_Impl))))) = False"
  by (simp_all add: IdempotentInit_def IdempotentClose_def new_Impl_def Let_def)

subsection \<open>The connection to the registry\<close>

text \<open>
  The connection of nsmd to the registry (\<open>controlplane/pkg/nsmd/serviceregistry.go\<close>). Connections are numbered in the order they
  are dialled; \<open>rc_open\<close> are those that are not closed. Each round of dialling is given whether \<open>Stop\<close>
  has come before it and what dialling gives.
\<close>

record registry_client =
  registryClientConnection :: "nat option"
  stopRedial :: bool
  rc_open :: "nat list"
  rc_dialled :: nat

definition NewServiceRegistryAt :: registry_client where
  "NewServiceRegistryAt = \<lparr>registryClientConnection = None, stopRedial = True, rc_open = [], rc_dialled = 0\<rparr>"

fun redial :: "(bool \<times> error option) list \<Rightarrow> registry_client \<Rightarrow> registry_client" where
  "redial [] r = r"
| "redial ((stopped, dial) # rounds) r =
     (let r1 = (if stopped then r\<lparr>stopRedial := False\<rparr> else r) in
      if \<not> stopRedial r1 then r1
      else case dial of
        Some _ \<Rightarrow> redial rounds r1
      | None \<Rightarrow> r1\<lparr>registryClientConnection := Some (rc_dialled r1), rc_open := rc_dialled r1 # rc_open r1, rc_dialled := Suc (rc_dialled r1)\<rparr>)"

definition initRegistryClient :: "bool \<Rightarrow> (bool \<times> error option) list \<Rightarrow> registry_client \<Rightarrow> registry_client" where
  "initRegistryClient ready rounds r = (if registryClientConnection r \<noteq> None \<and> ready then r else redial rounds r)"

definition registry_Stop :: "registry_client \<Rightarrow> registry_client" where
  "registry_Stop r =
     (case registryClientConnection r of
        None \<Rightarrow> r\<lparr>stopRedial := False\<rparr>
      | Some c \<Rightarrow> r\<lparr>stopRedial := False, rc_open := remove1 c (rc_open r)\<rparr>)"

text \<open>Connections are not closed by dialling, and one call opens at most one.\<close>

lemma redial_inv:
  assumes "distinct (rc_open r)" "\<forall>c \<in> set (rc_open r). c < rc_dialled r"
  shows "distinct (rc_open (redial rounds r)) \<and> (\<forall>c \<in> set (rc_open (redial rounds r)). c < rc_dialled (redial rounds r)) \<and>
    length (rc_open r) \<le> length (rc_open (redial rounds r)) \<and> length (rc_open (redial rounds r)) \<le> Suc (length (rc_open r))"
  using assms
proof (induction rounds arbitrary: r)
  case (Cons x rounds)
  obtain stopped dial where x: "x = (stopped, dial)" by force
  show ?case using Cons by (cases stopped; cases dial) (auto simp: x Let_def less_Suc_eq)
qed simp

text \<open>
  A connection that is no longer ready is replaced without being closed: after it was lost and dialled again, two are
  open, and \<open>Stop\<close> closes the newer one only.
\<close>

lemma lost_connection_stays_open:
  "rc_open (registry_Stop (initRegistryClient False [(False, None)] (initRegistryClient False [(False, None)] NewServiceRegistryAt))) = [0]"
  by (simp add: initRegistryClient_def NewServiceRegistryAt_def registry_Stop_def)

text \<open>After \<open>Stop\<close> no connection is dialled any more.\<close>

lemma stopped_never_dials: "\<not> stopRedial r \<Longrightarrow> initRegistryClient ready rounds r = r"
  by (cases rounds) (auto simp: initRegistryClient_def)

end
