(* ===== verification/Firewall.thy ===== *)
theory Firewall
  imports SdkProps VppAgent
begin

text \<open>
  The examples that configure an agent of their own: the firewall
  (\<open>examples/cmd/vppagent-firewall-nse\<close>), whose endpoint joins the connection of its client to one of its own
  and filters what comes in, and the two ends with a memory interface
  (\<open>examples/cmd/vppagent-icmp-responder-nse\<close>, \<open>examples/cmd/vppagent-nsc\<close>). The composites of the SDK are those of
  theory \<open>Sdk\<close>; the answers of the agent during one call and what the converters
  read of the host are arguments. Cross connects are kept as pointers to their two connections.
\<close>

subsection \<open>The agent\<close>

record agent_env =
  a_host :: host_env
  a_Dial :: "error option"
  a_Put :: "DataRequest \<Rightarrow> error option"
  a_Del :: "DataRequest \<Rightarrow> error option"
  a_actions :: "(string, int) gomap"
  a_range :: "(string \<times> string) list \<Rightarrow> (string \<times> string) list"

record agent =
  la_calls :: "agent_call list"
  la_dirs :: "string list"

definition called :: "agent_call list \<Rightarrow> string list \<Rightarrow> agent \<Rightarrow> agent" where
  "called cs dirs a = a\<lparr>la_calls := la_calls a @ cs, la_dirs := la_dirs a @ dirs\<rparr>"

text \<open>What the functions do with a configuration that must not stay behind half done: \<open>Put\<close> and, if it fails, \<open>Del\<close>.\<close>

definition put_or_del :: "agent_env \<Rightarrow> DataRequest \<Rightarrow> string list \<Rightarrow> agent \<Rightarrow> error option \<times> agent" where
  "put_or_del env dataChange made a =
     (case a_Put env dataChange of
        None \<Rightarrow> (None, called [Put dataChange] made a)
      | Some e \<Rightarrow> (Some e, called [Put dataChange, Del dataChange] made a))"

definition agent_reset :: "agent_env \<Rightarrow> agent \<Rightarrow> error option \<times> agent" where
  "agent_reset env a =
     (case a_Dial env of
        Some e \<Rightarrow> (Some e, a)
      | None \<Rightarrow> (None, called [Resync empty_request] [] a))"

subsection \<open>Joining two connections\<close>

record crossConnectStruct =
  cs_Id :: string
  cs_source :: nat
  cs_destination :: nat
  ingressIfName :: string

record vppAgentXConnComposite =
  crossConnects :: "(string, crossConnectStruct) gomap"
  xc_workspace :: string

definition local_cross_connect :: "sdk_world \<Rightarrow> string \<Rightarrow> nat \<Rightarrow> nat \<Rightarrow> CrossConnect" where
  "local_cross_connect w i p q = \<lparr>X_Id = i, X_Payload = ''IP'',
     X_Source = Some (Local (w_heap w ! p)), X_Destination = Some (Local (w_heap w ! q))\<rparr>"

definition crossConnecVppInterfaces :: "agent_env \<Rightarrow> CrossConnect \<Rightarrow> bool \<Rightarrow> string \<Rightarrow> agent \<Rightarrow> DataRequest result \<times> agent" where
  "crossConnecVppInterfaces env x connect baseDir a =
     (case a_Dial env of
        Some e \<Rightarrow> (Inl e, a)
      | None \<Rightarrow>
          (case CrossConnect_ToDataRequest (a_host env) baseDir (Some x) None connect of
             (Inl e, made) \<Rightarrow> (Inl e, called [] made a)
           | (Inr dataChange, made) \<Rightarrow>
               (let a1 = called [if connect then Put dataChange else Del dataChange] made a in
                case (if connect then a_Put env dataChange else a_Del env dataChange) of
                  Some e \<Rightarrow> (Inl e, a1)
                | None \<Rightarrow> (Inr dataChange, a1))))"

text \<open>\<open>GetOpaque\<close> of a composite of the SDK; only that of the client returns something.\<close>

definition composite_GetOpaque :: "composite \<Rightarrow> LocalConnection option \<Rightarrow> nat option" where
  "composite_GetOpaque c incoming =
     (case c of
        ClientCompositeEndpoint nc mt m \<Rightarrow> map_of m (case incoming of None \<Rightarrow> '''' | Some i \<Rightarrow> L_Id i)
      | _ \<Rightarrow> None)"

type_synonym 's vpp_handler = "sdk_world \<Rightarrow> agent \<Rightarrow> nat option result \<times> 's \<times> composite list \<times> sdk_world \<times> agent"

definition xconn_join :: "agent_env \<Rightarrow> nat \<Rightarrow> nat \<Rightarrow> vppAgentXConnComposite \<Rightarrow> composite list \<Rightarrow> vppAgentXConnComposite vpp_handler" where
  "xconn_join env p q x cs w a =
     (let w1 = w\<lparr>w_heap := (w_heap w)[p := (w_heap w ! p)\<lparr>L_Context := L_Context (w_heap w ! q)\<rparr>]\<rparr>;
          i = L_Id (w_heap w1 ! p)
      in case crossConnecVppInterfaces env (local_cross_connect w1 i p q) True (xc_workspace x) a of
           (Inl e, a1) \<Rightarrow> (Inl e, x, cs, w1, a1)
         | (Inr dataChange, a1) \<Rightarrow>
             (case XCons dataChange of
                [] \<Rightarrow> (Inl (Panic ''index out of range''), x, cs, w1, a1)
              | xc # _ \<Rightarrow>
                  (Inr (Some p),
                   x\<lparr>crossConnects := AList.update i \<lparr>cs_Id = i, cs_source = p, cs_destination = q,
                       ingressIfName = ReceiveInterface xc\<rparr> (crossConnects x)\<rparr>, cs, w1, a1)))"

definition xconn_Request :: "sdk_env \<Rightarrow> agent_env \<Rightarrow> LocalRequest \<Rightarrow> vppAgentXConnComposite \<Rightarrow> composite list \<Rightarrow>
    vppAgentXConnComposite vpp_handler" where
  "xconn_Request senv env rq x cs w a =
     (if cs = [] then (Inl fatal, x, cs, w, a)
      else case composite_Request senv rq cs w of
        (Inl e, cs', w1) \<Rightarrow> (Inl e, x, cs', w1, a)
      | (Inr incoming, cs', w1) \<Rightarrow>
          (case composite_GetOpaque (hd cs') (deref w1 incoming) of
             None \<Rightarrow> (Inl (Errorf ''Backend: Unable to find the outgoing connection''), x, cs', w1, a)
           | Some q \<Rightarrow>
               (case incoming of
                  None \<Rightarrow> (Inl nil_deref, x, cs', w1, a)
                | Some p \<Rightarrow> xconn_join env p q x cs' w1 a)))"

text \<open>The error of the composites behind is dropped; a panic is not.\<close>

definition xconn_Close :: "sdk_env \<Rightarrow> agent_env \<Rightarrow> LocalConnection \<Rightarrow> vppAgentXConnComposite \<Rightarrow> composite list \<Rightarrow> sdk_world \<Rightarrow>
    agent \<Rightarrow> (error option \<times> composite list \<times> sdk_world \<times> agent) option" where
  "xconn_Close senv env conn x cs w a =
     (case (case map_of (crossConnects x) (L_Id conn) of
              None \<Rightarrow> (None, a)
            | Some s \<Rightarrow>
                (case crossConnecVppInterfaces env (local_cross_connect w (cs_Id s) (cs_source s) (cs_destination s)) False
                        (xc_workspace x) a of
                   (Inl e, a1) \<Rightarrow> (Some e, a1)
                 | (Inr _, a1) \<Rightarrow> (None, a1))) of
        (Some e, a1) \<Rightarrow> Some (Some e, cs, w, a1)
      | (None, a1) \<Rightarrow>
          if cs = [] then Some (None, cs, w, a1)
          else (case composite_Close senv conn cs w of
                  None \<Rightarrow> None
                | Some (err, cs', w') \<Rightarrow> Some (if is_panic err then err else None, cs', w', a1)))"

definition xconn_GetOpaque :: "vppAgentXConnComposite \<Rightarrow> LocalConnection option \<Rightarrow> string option" where
  "xconn_GetOpaque x incoming =
     map_option ingressIfName (map_of (crossConnects x) (case incoming of None \<Rightarrow> '''' | Some i \<Rightarrow> L_Id i))"

subsection \<open>Filtering\<close>

definition aclRules :: "(string, string) gomap" where
  "aclRules = [(''Allow ICMP'', ''action=reflect,icmptype=8''),
     (''Allow TCP 80'', ''action=reflect,tcplowport=80,tcpupport=80'')]"

definition applyAclOnVppInterface :: "agent_env \<Rightarrow> string \<Rightarrow> string \<Rightarrow> (string, string) gomap \<Rightarrow> agent \<Rightarrow> error option \<times> agent" where
  "applyAclOnVppInterface env aclname ifname rules a =
     (case a_Dial env of
        Some e \<Rightarrow> (Some e, a)
      | None \<Rightarrow>
          (case Acl_ToDataRequest (a_actions env) (a_range env)
                  \<lparr>acl_Name = aclname, Rules = rules, IngressInterface = ifname\<rparr> None of
             Inl e \<Rightarrow> (Some e, a)
           | Inr dataChange \<Rightarrow> put_or_del env dataChange [] a))"

definition acl_Request :: "sdk_env \<Rightarrow> agent_env \<Rightarrow> LocalRequest \<Rightarrow> vppAgentXConnComposite \<Rightarrow> composite list \<Rightarrow>
    vppAgentXConnComposite vpp_handler" where
  "acl_Request senv env rq x cs w a =
     (case xconn_Request senv env rq x cs w a of
        (Inl e, r) \<Rightarrow> (Inl e, r)
      | (Inr incoming, x1, cs', w1, a1) \<Rightarrow>
          (case xconn_GetOpaque x1 (deref w1 incoming) of
             None \<Rightarrow> (Inl (Errorf ''Backend: Unable to find the ingressIfName''), x1, cs', w1, a1)
           | Some ifname \<Rightarrow>
               (case applyAclOnVppInterface env ''IngressACL'' ifname aclRules a1 of
                  (Some e, a2) \<Rightarrow> (Inl e, x1, cs', w1, a2)
                | (None, a2) \<Rightarrow> (Inr incoming, x1, cs', w1, a2))))"

text \<open>Closing passes through; the composite behind is never nil.\<close>

definition acl_Close :: "sdk_env \<Rightarrow> agent_env \<Rightarrow> LocalConnection \<Rightarrow> vppAgentXConnComposite \<Rightarrow> composite list \<Rightarrow> sdk_world \<Rightarrow>
    agent \<Rightarrow> (error option \<times> composite list \<times> sdk_world \<times> agent) option" where
  "acl_Close senv env conn x cs w a = xconn_Close senv env conn x cs w a"

subsection \<open>The firewall\<close>

text \<open>The chain of \<open>main\<close>: monitor, access list, cross connect and the composites of the SDK behind them.\<close>

record firewall =
  fw_monitor :: "monitor_call list"
  fw_xconn :: vppAgentXConnComposite
  fw_next :: "composite list"

definition firewall_Request :: "sdk_env \<Rightarrow> agent_env \<Rightarrow> LocalRequest \<Rightarrow> firewall \<Rightarrow> sdk_world \<Rightarrow> agent \<Rightarrow>
    nat option result \<times> firewall \<times> sdk_world \<times> agent" where
  "firewall_Request senv env rq fw w a =
     (case acl_Request senv env rq (fw_xconn fw) (fw_next fw) w a of
        (r, x, cs, w1, a1) \<Rightarrow>
          (r, fw\<lparr>fw_xconn := x, fw_next := cs,
             fw_monitor := (case r of Inl _ \<Rightarrow> fw_monitor fw | Inr p \<Rightarrow> fw_monitor fw @ [Monitor_Update p])\<rparr>, w1, a1))"

definition firewall_Close :: "sdk_env \<Rightarrow> agent_env \<Rightarrow> LocalConnection \<Rightarrow> firewall \<Rightarrow> sdk_world \<Rightarrow> agent \<Rightarrow>
    (error option \<times> firewall \<times> sdk_world \<times> agent) option" where
  "firewall_Close senv env conn fw w a =
     (case acl_Close senv env conn (fw_xconn fw) (fw_next fw) w a of
        None \<Rightarrow> None
      | Some (err, cs, w1, a1) \<Rightarrow>
          Some (err, fw\<lparr>fw_next := cs, fw_monitor := fw_monitor fw @ [Monitor_Delete conn]\<rparr>, w1, a1))"

definition newVppAgentXConnComposite :: "agent_env \<Rightarrow> NSConfiguration \<Rightarrow> agent \<Rightarrow> vppAgentXConnComposite \<times> agent" where
  "newVppAgentXConnComposite env c a = (\<lparr>crossConnects = [], xc_workspace = cfg_Workspace c\<rparr>, snd (agent_reset env a))"

text \<open>
  What \<open>main\<close> builds. The configuration is one object that every constructor completes; once
  complete it does not change.
\<close>

definition firewall_main :: "(string \<Rightarrow> string option) \<Rightarrow> (nat \<Rightarrow> string \<Rightarrow> error option) \<Rightarrow> agent_env \<Rightarrow> agent \<Rightarrow> firewall result \<times> agent" where
  "firewall_main LookupEnv access env a =
     (case NewMonitorCompositeEndpoint LookupEnv None of Inl e \<Rightarrow> (Inl e, a) | Inr _ \<Rightarrow>
     (case completed LookupEnv (Some (empty_configuration\<lparr>MechanismType := ''mem''\<rparr>)) of Inl e \<Rightarrow> (Inl e, a) | Inr c \<Rightarrow>
     (case newVppAgentXConnComposite env c a of (x, a1) \<Rightarrow>
     (case NewClientCompositeEndpoint LookupEnv access (Some c) of Inl e \<Rightarrow> (Inl e, a1) | Inr client \<Rightarrow>
     (case NewConnectionCompositeEndpoint LookupEnv (Some c) of Inl e \<Rightarrow> (Inl e, a1) | Inr conn \<Rightarrow>
        (Inr \<lparr>fw_monitor = [], fw_xconn = x, fw_next = [client, conn]\<rparr>, a1))))))"

subsection \<open>Ends with a memory interface\<close>

definition memif_end :: "ConnectionContextSide \<Rightarrow> string \<Rightarrow> LocalConnection option \<Rightarrow> string \<Rightarrow> ConnectionConversionParameters" where
  "memif_end side prefix c baseDir = \<lparr>Terminate = True, Side = side,
     P_Name = prefix @ (case c of None \<Rightarrow> '''' | Some c \<Rightarrow> L_Id c), BaseDir = baseDir\<rparr>"

definition create_interface :: "agent_env \<Rightarrow> LocalConnection option \<Rightarrow> ConnectionConversionParameters \<Rightarrow> agent \<Rightarrow> error option \<times> agent" where
  "create_interface env c p a =
     (case a_Dial env of
        Some e \<Rightarrow> (Some e, a)
      | None \<Rightarrow>
          (case Memif_ToDataRequest (a_host env) c p None of
             (Inl e, made) \<Rightarrow> (Some e, called [] made a)
           | (Inr dataChange, made) \<Rightarrow> put_or_del env dataChange made a))"

definition responder_CreateVppInterface :: "agent_env \<Rightarrow> LocalConnection option \<Rightarrow> string \<Rightarrow> agent \<Rightarrow> error option \<times> agent" where
  "responder_CreateVppInterface env c baseDir = create_interface env c (memif_end DESTINATION ''DST-'' c baseDir)"

definition nsc_CreateVppInterface :: "agent_env \<Rightarrow> LocalConnection option \<Rightarrow> string \<Rightarrow> agent \<Rightarrow> error option \<times> agent" where
  "nsc_CreateVppInterface env c baseDir = create_interface env c (memif_end SOURCE ''SRC-'' c baseDir)"

definition responder_Request :: "sdk_env \<Rightarrow> agent_env \<Rightarrow> LocalRequest \<Rightarrow> string \<Rightarrow> composite list \<Rightarrow> sdk_world \<Rightarrow> agent \<Rightarrow>
    nat option result \<times> composite list \<times> sdk_world \<times> agent" where
  "responder_Request senv env rq workspace cs w a =
     (if cs = [] then (Inl fatal, cs, w, a)
      else case composite_Request senv rq cs w of
        (Inl e, cs', w1) \<Rightarrow> (Inl e, cs', w1, a)
      | (Inr incoming, cs', w1) \<Rightarrow>
          (case responder_CreateVppInterface env (deref w1 incoming) workspace a of
             (Some e, a1) \<Rightarrow> (Inl e, cs', w1, a1)
           | (None, a1) \<Rightarrow> (Inr None, cs', w1, a1)))"

text \<open>Closing does nothing, not even for the composites behind.\<close>

definition responder_Close :: "LocalConnection \<Rightarrow> composite list \<Rightarrow> sdk_world \<Rightarrow> agent \<Rightarrow> error option \<times> composite list \<times> sdk_world \<times> agent" where
  "responder_Close conn cs w a = (None, cs, w, a)"

definition newVppAgentComposite :: "(string \<Rightarrow> string option) \<Rightarrow> agent_env \<Rightarrow> NSConfiguration \<Rightarrow> agent \<Rightarrow> string result \<times> agent" where
  "newVppAgentComposite LookupEnv env configuration a =
     (case completed LookupEnv (Some configuration) of
        Inl e \<Rightarrow> (Inl e, a)
      | Inr c \<Rightarrow> (Inr (cfg_Workspace c), snd (agent_reset env a)))"

definition nsc_New :: "agent_env \<Rightarrow> agent \<Rightarrow> error option \<times> agent" where
  "nsc_New env a = (case agent_reset env a of (Some _, a1) \<Rightarrow> (Some fatal, a1) | (None, a1) \<Rightarrow> (None, a1))"

definition nsc_backend_Connect :: "agent_env \<Rightarrow> LocalConnection option \<Rightarrow> string \<Rightarrow> agent \<Rightarrow> error option \<times> agent" where
  "nsc_backend_Connect env c workspace a = nsc_CreateVppInterface env c workspace a"

text \<open>The client of \<open>vppagent-nsc\<close>: it resets the agent, asks for one connection and creates its end. Every failure is fatal.\<close>

definition nsc_main :: "(string \<Rightarrow> string option) \<Rightarrow> (nat \<Rightarrow> string \<Rightarrow> error option) \<Rightarrow> sdk_env \<Rightarrow> agent_env \<Rightarrow> sdk_world \<Rightarrow> agent \<Rightarrow>
    nat result \<times> sdk_world \<times> agent" where
  "nsc_main LookupEnv access senv env w a =
     (case LookupEnv ''WORKSPACE'' of None \<Rightarrow> (Inl fatal, w, a) | Some workspace \<Rightarrow>
     (case NewNSMClient LookupEnv access None of Inl _ \<Rightarrow> (Inl fatal, w, a) | Inr nc \<Rightarrow>
     (case nsc_New env a of (Some e, a1) \<Rightarrow> (Inl e, w, a1) | (None, a1) \<Rightarrow>
     (case client_Connect senv ''if1'' ''mem'' ''Primary interface'' nc w of
        (Inl _, _, w1) \<Rightarrow> (Inl fatal, w1, a1)
      | (Inr p, _, w1) \<Rightarrow>
          (case nsc_backend_Connect env (Some (w_heap w1 ! p)) workspace a1 of
             (Some _, a2) \<Rightarrow> (Inl fatal, w1, a2)
           | (None, a2) \<Rightarrow> (Inr p, w1, a2))))))"

subsection \<open>Every client is filtered\<close>

lemma la_calls_called [simp]: "la_calls (called cs dirs a) = la_calls a @ cs"
  by (simp add: called_def)

lemma conversion_wired:
  assumes "\<forall>side. 16 \<le> length (e_xid env side)" "CrossConnect_ToDataRequest env dir (Some x) None connect = (Inr d, made)"
  shows "wired (X_Id x) empty_request d"
proof -
  have "complete_xcon x" using assms(2) by (auto simp: complete_xcon_def CrossConnect_ToDataRequest_def split: option.splits)
  moreover have "both_convertible env dir connect x"
    using not_converts [OF assms(1) calculation, of dir connect None] assms(2) by fastforce
  ultimately show ?thesis
    using converts [OF assms(1), of x dir connect None] assms(2) by (metis Inr_inject option.simps(4) prod.inject request_or_new_def)
qed

lemma cross_connected:
  assumes "\<forall>side. 16 \<le> length (e_xid (a_host env) side)" "crossConnecVppInterfaces env x connect dir a = (Inr d, a')"
  shows "wired (X_Id x) empty_request d" "la_calls a' = la_calls a @ [if connect then Put d else Del d]"
  using assms(2) conversion_wired [OF assms(1)]
  by (auto simp: crossConnecVppInterfaces_def Let_def split: option.splits prod.splits sum.splits if_splits)

lemma wired_ingress: "wired i empty_request d \<Longrightarrow> \<exists>xc xcs. XCons d = xc # xcs \<and> ReceiveInterface xc = ''SRC-'' @ i"
  by (auto simp: wired_def empty_request_def)

lemma joined:
  assumes "\<forall>side. 16 \<le> length (e_xid (a_host env) side)" "xconn_join env p q x cs w a = (Inr r, x', cs', w', a')"
  shows "r = Some p" "\<exists>d. la_calls a' = la_calls a @ [Put d] \<and> wired (L_Id (w_heap w' ! p)) empty_request d"
    "crossConnects x' = AList.update (L_Id (w_heap w' ! p)) \<lparr>cs_Id = L_Id (w_heap w' ! p), cs_source = p, cs_destination = q,
       ingressIfName = ''SRC-'' @ L_Id (w_heap w' ! p)\<rparr> (crossConnects x)"
proof -
  let ?w = "w\<lparr>w_heap := (w_heap w)[p := (w_heap w ! p)\<lparr>L_Context := L_Context (w_heap w ! q)\<rparr>]\<rparr>"
  let ?x = "local_cross_connect ?w (L_Id (w_heap ?w ! p)) p q"
  obtain d a1 where d: "crossConnecVppInterfaces env ?x True (xc_workspace x) a = (Inr d, a1)"
    using assms(2) by (auto simp: xconn_join_def Let_def split: prod.splits sum.splits)
  from cross_connected [OF assms(1) d] have w: "wired (L_Id (w_heap ?w ! p)) empty_request d" "la_calls a1 = la_calls a @ [Put d]"
    by (simp_all add: local_cross_connect_def)
  from wired_ingress [OF w(1)] show "r = Some p" "\<exists>d. la_calls a' = la_calls a @ [Put d] \<and> wired (L_Id (w_heap w' ! p)) empty_request d"
    "crossConnects x' = AList.update (L_Id (w_heap w' ! p)) \<lparr>cs_Id = L_Id (w_heap w' ! p), cs_source = p, cs_destination = q,
       ingressIfName = ''SRC-'' @ L_Id (w_heap w' ! p)\<rparr> (crossConnects x)"
    using assms(2) d w by (auto simp: xconn_join_def Let_def)
qed

lemma xconn_joined:
  assumes "xconn_Request senv env rq x cs w a = (Inr r, x', cs', w', a')"
  obtains p q cs1 w1 where "composite_Request senv rq cs w = (Inr (Some p), cs1, w1)"
    "composite_GetOpaque (hd cs1) (Some (w_heap w1 ! p)) = Some q" "xconn_join env p q x cs1 w1 a = (Inr r, x', cs', w', a')"
  using assms by (auto simp: xconn_Request_def deref_def split: if_splits prod.splits sum.splits option.splits)

text \<open>The two rules, as they are meant.\<close>

definition fw_rules :: "(string \<times> rule_spec) list" where
  "fw_rules =
     [(''Allow ICMP'', \<lparr>rs_action = ''reflect'', rs_dst = None, rs_src = None, rs_icmp = Some 8, rs_tcp = None, rs_udp = None\<rparr>),
      (''Allow TCP 80'', \<lparr>rs_action = ''reflect'', rs_dst = None, rs_src = None, rs_icmp = None, rs_tcp = Some (80, 80), rs_udp = None\<rparr>)]"

lemma reflect_upper: "map to_upper ''reflect'' = ''REFLECT''"
  by code_simp

lemma fw_rules_text: "aclRules = map (\<lambda>(n, r). (n, rule_text r)) fw_rules"
proof -
  have "FormatUint 10 8 = ''8''" "FormatUint 10 80 = ''80''" by (simp_all add: go_simps)
  then show ?thesis
    by (simp add: aclRules_def fw_rules_def rule_text_def rule_kv_def opt_kv_def ports_kv_def format_kv_def)
qed

lemma fw_rules_ok: "map_of actions ''REFLECT'' = Some n \<Longrightarrow> \<forall>(n, r) \<in> set fw_rules. rule_ok actions r"
  by (simp add: fw_rules_def rule_ok_def net_ok_def ports_ok_def plain_def reflect_upper [simplified])

definition filters :: "(string, int) gomap \<Rightarrow> string \<Rightarrow> DataRequest \<Rightarrow> bool" where
  "filters actions ifname d \<longleftrightarrow>
     (\<exists>rules. mset rules = mset (map (\<lambda>(n, r). meant actions n r) fw_rules) \<and>
        last (AccessLists d) = \<lparr>AclName = ''IngressACL'', AclRules = rules, Egress = [], Ingress = [ifname]\<rparr>)"

lemma acl_filters:
  assumes "is_order (a_range env)" "map_of (a_actions env) ''REFLECT'' = Some n"
    "applyAclOnVppInterface env ''IngressACL'' ifname aclRules a = (None, a')"
  shows "\<exists>d. la_calls a' = la_calls a @ [Put d] \<and> filters (a_actions env) ifname d"
proof -
  let ?c = "\<lparr>acl_Name = ''IngressACL'', Rules = aclRules, IngressInterface = ifname\<rparr>"
  have r: "Rules ?c = map (\<lambda>(n, r). (n, rule_text r)) fw_rules" by (simp add: fw_rules_text)
  obtain d rules where d: "Acl_ToDataRequest (a_actions env) (a_range env) ?c None = Inr d"
      "mset rules = mset (map (\<lambda>(n, r). meant (a_actions env) n r) fw_rules)"
      "AccessLists d = AccessLists (request_or_new None) @ map (\<lambda>k. acl_of ?c (take (Suc k) rules)) [0..<length rules]"
    using acl_rules_lists [OF assms(1) r fw_rules_ok [OF assms(2)], of None] by blast
  have "length rules = 2" using mset_eq_length [OF d(2)] by (simp add: fw_rules_def)
  then have "last (AccessLists d) = acl_of ?c rules" using d(3) by (simp add: numeral_2_eq_2)
  then have "filters (a_actions env) ifname d" using d(2) by (auto simp: filters_def acl_of_def)
  then show ?thesis
    using assms(3) d(1) by (auto simp: applyAclOnVppInterface_def put_or_del_def split: option.splits)
qed


subsection \<open>An example\<close>

definition fw_sdk_env :: sdk_env where
  "fw_sdk_env = ex_sdk_env\<lparr>e_NSM := \<lambda>_ _. Inr \<lparr>L_Id = ''2'', L_NetworkService = ''web'',
     L_Mechanism = Some \<lparr>LM_Type = MEM_INTERFACE, LM_Parameters = Some [(InterfaceNameKey, ''nsm2''), (SocketFilename, ''2/memif.sock'')]\<rparr>,
     L_Context = Some empty_context, L_Labels = [], L_State = UP\<rparr>\<rparr>"

definition fw_agent_env :: agent_env where
  "fw_agent_env = \<lparr>a_host = ex_host, a_Dial = None, a_Put = \<lambda>_. None, a_Del = \<lambda>_. None, a_actions = ex_actions, a_range = rev\<rparr>"

definition fw_client :: NsmClient where
  "fw_client = \<lparr>Configuration = empty_configuration, OutgoingNscName = ''web'', OutgoingNscLabels = [], OutgoingConnections = []\<rparr>"

definition ex_firewall :: firewall where
  "ex_firewall = \<lparr>fw_monitor = [], fw_xconn = \<lparr>crossConnects = [], xc_workspace = ''/ws''\<rparr>,
     fw_next = [ClientCompositeEndpoint fw_client ''mem'' [], ConnectionCompositeEndpoint MEM_INTERFACE]\<rparr>"

definition no_agent :: agent where
  "no_agent = \<lparr>la_calls = [], la_dirs = []\<rparr>"

lemma mem_upper: "map to_upper ''mem'' = ''MEM''"
  by code_simp

lemma mem_mechanism:
  "MechanismFromString ''mem'' = MEM_INTERFACE"
  "NewMechanism (Inr ns) MEM_INTERFACE name description = Inr \<lparr>LM_Type = MEM_INTERFACE, LM_Parameters = Some
     [(InterfaceNameKey, name), (InterfaceDescriptionKey, description), (SocketFilename, path_Join [name, MemifSocket]),
      (NetNsInodeKey, ns)]\<rparr>"
  by (simp_all add: MechanismFromString_def MechanismType_value_def mem_upper [simplified] NewMechanism_def LocalMechanism_IsValid_def)

lemma fw_composites:
  "\<exists>cs nc m w1. composite_Request fw_sdk_env (ex_sdk_request ''c1'') (fw_next ex_firewall) ex_world =
     (Inr (Some 0), ClientCompositeEndpoint nc m [(''c1'', 1)] # cs, w1) \<and>
     (\<exists>ps qs. map_of ps InterfaceNameKey \<noteq> None \<and> map_of qs InterfaceNameKey \<noteq> None \<and> w_heap w1 = [connection_new (ex_sdk_request ''c1'') \<lparr>LM_Type = MEM_INTERFACE, LM_Parameters = Some ps\<rparr>,
        \<lparr>L_Id = ''2'', L_NetworkService = ''web'', L_Mechanism = Some \<lparr>LM_Type = MEM_INTERFACE, LM_Parameters = Some qs\<rparr>,
         L_Context = Some empty_context, L_Labels = [], L_State = UP\<rparr>])"
  by (simp add: ex_firewall_def client_Request_def connection_Request_def fw_sdk_env_def ex_sdk_env_def ex_sdk_request_def
      mem_mechanism client_Connect_def connect_loop.simps [of connectRetries] new_conn_def ex_world_def clear_workspace_def
      ptr_Id_def deref_def Workspace_def InterfaceNameKey_def SocketFilename_def LocalConnection_IsValid_def connection_new_def Let_def)

text \<open>Two complete connections over memory interfaces can be joined.\<close>

definition memif_ready :: "LocalConnection \<Rightarrow> bool" where
  "memif_ready c \<longleftrightarrow> L_Id c \<noteq> '''' \<and> L_NetworkService c \<noteq> '''' \<and> L_Context c = Some empty_context \<and>
     (\<exists>ps. L_Mechanism c = Some \<lparr>LM_Type = MEM_INTERFACE, LM_Parameters = Some ps\<rparr> \<and> map_of ps InterfaceNameKey \<noteq> None)"

lemma memif_ready_complete: "memif_ready c \<Longrightarrow> LocalConnection_IsComplete (Some c) = None \<and> LocalConnection_IsValid (Some c) = None"
  by (auto simp: memif_ready_def LocalConnection_IsComplete_def LocalConnection_IsValid_def LocalMechanism_IsValid_def
      Context_IsComplete_def empty_context_def)

lemma memif_ready_joins:
  assumes "\<forall>side. 16 \<le> length (e_xid env side)" "\<And>d. e_MkdirAll env d = None" "memif_ready c" "memif_ready c'" "i \<noteq> ''''"
  shows "\<exists>d made. CrossConnect_ToDataRequest env dir (Some \<lparr>X_Id = i, X_Payload = ''IP'', X_Source = Some (Local c),
    X_Destination = Some (Local c')\<rparr>) None connect = (Inr d, made)"
proof -
  let ?x = "\<lparr>X_Id = i, X_Payload = ''IP'', X_Source = Some (Local c), X_Destination = Some (Local c')\<rparr>"
  have "complete_xcon ?x"
    using assms(5) memif_ready_complete [OF assms(3)] memif_ready_complete [OF assms(4)]
    by (simp add: complete_xcon_def CrossConnect_IsComplete_def CrossConnect_IsValid_def GetLocalSource_def GetRemoteSource_def
        GetLocalDestination_def GetRemoteDestination_def GetSource_def GetDestination_def)
  moreover have "both_convertible env dir connect ?x"
    using assms(2-4) by (auto simp: both_convertible_def convertible_def memif_ready_def IsKernelInterface_def IsMemif_def)
  ultimately show ?thesis using converts [OF assms(1)] by metis
qed

lemma fw_request: "\<exists>fw w a. firewall_Request fw_sdk_env fw_agent_env (ex_sdk_request ''c1'') ex_firewall ex_world no_agent = (Inr (Some 0), fw, w, a)"
proof -
  obtain cs nc m w1 ps qs where c: "composite_Request fw_sdk_env (ex_sdk_request ''c1'') (fw_next ex_firewall) ex_world =
      (Inr (Some 0), ClientCompositeEndpoint nc m [(''c1'', 1)] # cs, w1)"
    and k: "map_of ps InterfaceNameKey \<noteq> None" "map_of qs InterfaceNameKey \<noteq> None"
    and h: "w_heap w1 = [connection_new (ex_sdk_request ''c1'') \<lparr>LM_Type = MEM_INTERFACE, LM_Parameters = Some ps\<rparr>,
        \<lparr>L_Id = ''2'', L_NetworkService = ''web'', L_Mechanism = Some \<lparr>LM_Type = MEM_INTERFACE, LM_Parameters = Some qs\<rparr>,
         L_Context = Some empty_context, L_Labels = [], L_State = UP\<rparr>]"
    using fw_composites by blast
  let ?c = "(w_heap w1 ! 0)\<lparr>L_Context := Some empty_context\<rparr>"
  have xid: "\<forall>side. 16 \<le> length (e_xid ex_host side)" "\<And>d. e_MkdirAll ex_host d = None" by (simp_all add: ex_host_def)
  have r: "memif_ready ?c" "memif_ready (w_heap w1 ! 1)" "L_Id ?c = ''c1''"
    using h k by (simp_all add: memif_ready_def connection_new_def ex_sdk_request_def)
  obtain d made where d: "CrossConnect_ToDataRequest ex_host ''/ws'' (Some \<lparr>X_Id = ''c1'', X_Payload = ''IP'',
      X_Source = Some (Local ?c), X_Destination = Some (Local (w_heap w1 ! 1))\<rparr>) None True = (Inr d, made)"
    using memif_ready_joins [OF xid r(1,2), of "''c1''" "''/ws''" True] by auto
  obtain xc xcs where xc: "XCons d = xc # xcs" using wired_ingress [OF conversion_wired [OF xid(1) d]] by auto
  have rev: "is_order (rev :: (string \<times> string) list \<Rightarrow> _)" by (simp add: is_order_def)
  let ?acl = "\<lambda>i. \<lparr>acl_Name = ''IngressACL'', Rules = aclRules, IngressInterface = i\<rparr>"
  have "\<exists>d2. Acl_ToDataRequest ex_actions rev (?acl i) None = Inr d2" for i
    using acl_rules_lists [OF rev _ fw_rules_ok, of "?acl i" ex_actions 2 None] by (auto simp: fw_rules_text ex_actions_def)
  then obtain d2 where d2: "Acl_ToDataRequest ex_actions rev (?acl (ReceiveInterface xc)) None = Inr d2" by blast
  show ?thesis
    using c d xc d2 r(3) h
    by (simp add: firewall_Request_def acl_Request_def xconn_Request_def ex_firewall_def composite_GetOpaque_def deref_def
        xconn_join_def crossConnecVppInterfaces_def local_cross_connect_def fw_agent_env_def applyAclOnVppInterface_def
        put_or_del_def xconn_GetOpaque_def connection_new_def ex_sdk_request_def Let_def)
qed


subsection \<open>Closing and flaws\<close>

text \<open>
  Closing a connection that was joined removes its two interfaces and what connects them. The access list is not
  removed, and the entry stays, so that a second close removes the interfaces again.
\<close>

lemma firewall_close_disconnects:
  assumes "\<forall>side. 16 \<le> length (e_xid (a_host env) side)" "map_of (crossConnects (fw_xconn fw)) (L_Id conn) = Some s"
    "firewall_Close senv env conn fw w a = Some (None, fw', w', a')"
  shows "\<exists>d. la_calls a' = la_calls a @ [Del d] \<and> wired (cs_Id s) empty_request d" "fw_xconn fw' = fw_xconn fw"
proof -
  let ?x = "local_cross_connect w (cs_Id s) (cs_source s) (cs_destination s)"
  obtain d a1 where d: "crossConnecVppInterfaces env ?x False (xc_workspace (fw_xconn fw)) a = (Inr d, a1)" "la_calls a' = la_calls a1"
      and x: "fw_xconn fw' = fw_xconn fw"
    using assms(2,3) by (auto simp: firewall_Close_def acl_Close_def xconn_Close_def split: option.splits prod.splits sum.splits if_splits)
  show "\<exists>d. la_calls a' = la_calls a @ [Del d] \<and> wired (cs_Id s) empty_request d"
    using cross_connected [OF assms(1) d(1)] d(2) by (auto simp: local_cross_connect_def)
  show "fw_xconn fw' = fw_xconn fw" by (rule x)
qed

text \<open>When the access list cannot be installed the request fails, but the interfaces stay connected, without a filter.\<close>

lemma unfiltered_connection_stays:
  assumes "\<forall>side. 16 \<le> length (e_xid (a_host env) side)"
    "xconn_Request senv env rq (fw_xconn fw) (fw_next fw) w a = (Inr r, x', cs', w', a1)"
    "xconn_GetOpaque x' (deref w' r) = Some ifname" "applyAclOnVppInterface env ''IngressACL'' ifname aclRules a1 = (Some e, a')"
    "a_Dial env = None" "Acl_ToDataRequest (a_actions env) (a_range env)
       \<lparr>acl_Name = ''IngressACL'', Rules = aclRules, IngressInterface = ifname\<rparr> None = Inr d2"
  shows "\<exists>d1 i. wired i empty_request d1 \<and>
    firewall_Request senv env rq fw w a = (Inl e, fw\<lparr>fw_xconn := x', fw_next := cs'\<rparr>, w', a') \<and>
    la_calls a' = la_calls a @ [Put d1, Put d2, Del d2]"
proof -
  from assms(2) obtain p q cs1 w1 where j: "xconn_join env p q (fw_xconn fw) cs1 w1 a = (Inr r, x', cs', w', a1)" by (rule xconn_joined)
  from joined(2) [OF assms(1) j] obtain d1 where "la_calls a1 = la_calls a @ [Put d1]" "wired (L_Id (w_heap w' ! p)) empty_request d1" by blast
  moreover have "la_calls a' = la_calls a1 @ [Put d2, Del d2]"
    using assms(4-6) by (auto simp: applyAclOnVppInterface_def put_or_del_def split: option.splits)
  moreover have "firewall_Request senv env rq fw w a = (Inl e, fw\<lparr>fw_xconn := x', fw_next := cs'\<rparr>, w', a')"
    using assms(2-4) by (simp add: firewall_Request_def acl_Request_def)
  ultimately show ?thesis by auto
qed

text \<open>The responder drops the connection it has made: a request that succeeds answers with nil.\<close>

lemma responder_answers_nil:
  "responder_Request senv env rq workspace cs w a = (Inr r, cs', w', a') \<Longrightarrow> r = None"
  by (auto simp: responder_Request_def split: if_splits prod.splits sum.splits option.splits)

text \<open>The ends of a link have opposite roles: an end that terminates and the end of the dataplane on the same side.\<close>

lemma memif_roles: "side \<noteq> NEITHER \<Longrightarrow>
    isMaster (memif_end side prefix c dir) \<noteq> isMaster \<lparr>Terminate = False, Side = side, P_Name = name, BaseDir = dir'\<rparr>"
  by (cases side) (simp_all add: isMaster_def memif_end_def)

text \<open>A client that starts has reset the agent and then created one interface, that of its connection.\<close>

lemma nsc_configures:
  assumes "nsc_main LookupEnv access senv env w a = (Inr p, w', a')"
  shows "\<exists>d i. la_calls a' = la_calls a @ [Resync empty_request, Put d] \<and> Interfaces d = [i] \<and> IF_Name i = ''SRC-'' @ L_Id (w_heap w' ! p)"
proof -
  obtain workspace a1 where c: "nsc_CreateVppInterface env (Some (w_heap w' ! p)) workspace a1 = (None, a')"
      "la_calls a1 = la_calls a @ [Resync empty_request]"
    using assms by (auto simp: nsc_main_def nsc_New_def nsc_backend_Connect_def agent_reset_def split: option.splits sum.splits prod.splits)
  then show ?thesis
    by (auto simp: nsc_CreateVppInterface_def create_interface_def put_or_del_def memif_end_def Memif_ToDataRequest_def
        isMaster_def request_or_new_def empty_request_def add_static_routes_def Let_def
        split: option.splits sum.splits prod.splits if_splits)
qed

end
