(* ===== verification/SriovGen.thy ===== *)
theory SriovGen
  imports Sriov
begin

text \<open>
  The generator of config maps for the SR-IOV controller
  (\<open>examples/cmd/nsm-generate-sriov-configmap\<close>): it finds the virtual functions of the host below \<open>/sys\<close>, binds them to
  the vfio driver and writes them as a config map. What the host answers is an argument, and the generator
  returns what it has written to the files of the host. The YAML encoder is a third-party package and an argument too.
\<close>

subsection \<open>The host\<close>

datatype lstat = NotExist | LstatError | Regular | Symlink | OtherFile

record sysfs =
  fs_ReadDir :: "string list result"
  fs_Lstat :: "string \<Rightarrow> lstat"
  fs_Readlink :: "string \<Rightarrow> string result"
  fs_ReadFile :: "string \<Rightarrow> string result"
  fs_OpenFile :: "string \<Rightarrow> error option"
  fs_Run :: "string \<Rightarrow> error option"
  fs_Stat :: "string \<Rightarrow> nat \<Rightarrow> bool"
  fs_lsmod :: "string result"
  fs_modprobe :: "error option"

definition netDirectory :: string where "netDirectory = ''/sys/class/net/''"

definition pciDirectory :: string where "pciDirectory = ''/sys/bus/pci/devices''"

definition nsmSRIOVDefaultNetworkServiceName :: string where
  "nsmSRIOVDefaultNetworkServiceName = ''networkservicemesh.io/sriov-nsm-default''"

definition nsmSRIOVNodeName :: string where
  "nsmSRIOVNodeName = ''networkservicemesh.io/sriov-node-name''"

definition nsmConfigmapNamePrefix :: string where
  "nsmConfigmapNamePrefix = ''nsm-sriov-configmap-''"

text \<open>\<open>strings.Contains\<close>, \<open>strings.Replace\<close> of one byte, \<open>strconv.Atoi\<close> and the format of an integer.\<close>

definition Contains :: "string \<Rightarrow> string \<Rightarrow> bool" where
  "Contains s sub \<longleftrightarrow> list_ex (\<lambda>i. HasPrefix (drop i s) sub) [0..<Suc (length s)]"

definition replace_char :: "char \<Rightarrow> char \<Rightarrow> string \<Rightarrow> string" where
  "replace_char a b s = map (\<lambda>c. if c = a then b else c) s"

definition Atoi :: "string \<Rightarrow> int result" where
  "Atoi s =
     (let neg = HasPrefix s ''-''; digits = (if neg \<or> HasPrefix s ''+'' then tl s else s) in
      case ParseUint digits 64 of
        Inl e \<Rightarrow> Inl e
      | Inr n \<Rightarrow>
          if neg then (if n \<le> 2 ^ 63 then Inr (- int n) else Inl (Errorf ''value out of range''))
          else if n < 2 ^ 63 then Inr (int n) else Inl (Errorf ''value out of range''))"

definition format_int :: "int \<Rightarrow> string" where
  "format_int i = (if i < 0 then CHR ''-'' # FormatUint 10 (nat (- i)) else FormatUint 10 (nat i))"

subsection \<open>Discovery\<close>

record discoveredVF = VF +
  pciVendor :: string
  pciType :: string
  iommuGroup :: string

definition getSriovPfList :: "sysfs \<Rightarrow> string \<Rightarrow> string list result" where
  "getSriovPfList fs excludedPF =
     (case fs_ReadDir fs of
        Inl e \<Rightarrow> Inl e
      | Inr netDevices \<Rightarrow>
          Inr (filter (\<lambda>dev. fs_Lstat fs (path_Join [netDirectory, dev, ''device'', ''sriov_numvfs'']) = Regular \<and>
                 \<not> Contains excludedPF dev) netDevices))"

definition readLinkData :: "sysfs \<Rightarrow> string \<Rightarrow> string result" where
  "readLinkData fs link =
     (case fs_Lstat fs link of
        NotExist \<Rightarrow> Inl (Errorf ''could not get directory information %s with error: %v'')
      | LstatError \<Rightarrow> Inl (Errorf ''could not get directory information %s with error: %v'')
      | Symlink \<Rightarrow>
          (case fs_Readlink fs link of
             Inl _ \<Rightarrow> Inl (Errorf ''cannot read symbolic %s with error: %+v'')
           | Inr info \<Rightarrow> Inr info)
      | _ \<Rightarrow> Inl (Errorf ''no symbolic link %s''))"

definition strip_0x :: "string \<Rightarrow> string" where
  "strip_0x text =
     (let data = Trim text [CHR 0x0A] in if HasPrefix data ''0x'' then Split data ''0x'' ! 1 else data)"

definition discover_vf :: "sysfs \<Rightarrow> string \<Rightarrow> nat \<Rightarrow> (string, discoveredVF) gomap \<Rightarrow> (string, discoveredVF) gomap result" where
  "discover_vf fs dev vf vfs =
     (case readLinkData fs (''/sys/class/net/'' @ dev @ ''/device/virtfn'' @ FormatUint 10 vf) of
        Inl _ \<Rightarrow> Inr vfs
      | Inr pciInfo \<Rightarrow>
          if length pciInfo < 3 then Inl (Panic ''slice bounds out of range'')
          else
            (let pciAddr = drop 3 pciInfo; vfPCIPath = path_Join [pciDirectory, pciAddr] in
             case fs_ReadFile fs (path_Join [vfPCIPath, ''vendor'']) of Inl _ \<Rightarrow> Inr vfs | Inr vendor \<Rightarrow>
            (case fs_ReadFile fs (path_Join [vfPCIPath, ''device'']) of Inl _ \<Rightarrow> Inr vfs | Inr type \<Rightarrow>
            (case readLinkData fs (path_Join [vfPCIPath, ''iommu_group'']) of Inl _ \<Rightarrow> Inr vfs | Inr iommu \<Rightarrow>
               (let key = replace_char CHR '':'' CHR ''-'' pciAddr in
                Inr (AList.update key
                  \<lparr>VF_NetworkService = nsmSRIOVDefaultNetworkServiceName, VF_PCIAddr = key, VF_ParentDevice = dev,
                   VFLocalID = of_nat vf, VFIODevice = '''', pciVendor = strip_0x vendor, pciType = strip_0x type,
                   iommuGroup = last (Split iommu ''/'')\<rparr> vfs))))))"

fun discover_vfs :: "sysfs \<Rightarrow> string \<Rightarrow> nat list \<Rightarrow> (string, discoveredVF) gomap \<Rightarrow> (string, discoveredVF) gomap result" where
  "discover_vfs fs dev [] vfs = Inr vfs"
| "discover_vfs fs dev (vf # is) vfs =
     (case discover_vf fs dev vf vfs of Inl e \<Rightarrow> Inl e | Inr vfs' \<Rightarrow> discover_vfs fs dev is vfs')"

definition read_count :: "sysfs \<Rightarrow> string \<Rightarrow> int result" where
  "read_count fs file = (case fs_ReadFile fs file of Inl e \<Rightarrow> Inl e | Inr text \<Rightarrow> Atoi (TrimSpace text))"

definition discover_pf :: "sysfs \<Rightarrow> string \<Rightarrow> (string, discoveredVF) gomap \<Rightarrow> (string, discoveredVF) gomap result" where
  "discover_pf fs dev vfs =
     (case read_count fs (path_Join [netDirectory, dev, ''device'', ''/sriov_totalvfs'']) of
        Inl e \<Rightarrow> Inl e
      | Inr numvfs \<Rightarrow>
          if numvfs > 0 then
            (case read_count fs (netDirectory @ dev @ ''/device'' @ ''/sriov_numvfs'') of
               Inl e \<Rightarrow> Inl e
             | Inr numconfiguredvfs \<Rightarrow> discover_vfs fs dev [0..<nat numconfiguredvfs] vfs)
          else Inr vfs)"

fun discover_pfs :: "sysfs \<Rightarrow> string list \<Rightarrow> (string, discoveredVF) gomap \<Rightarrow> (string, discoveredVF) gomap result" where
  "discover_pfs fs [] vfs = Inr vfs"
| "discover_pfs fs (dev # devs) vfs =
     (case discover_pf fs dev vfs of Inl e \<Rightarrow> Inl e | Inr vfs' \<Rightarrow> discover_pfs fs devs vfs')"

definition discoverNetworks :: "sysfs \<Rightarrow> string \<Rightarrow> (string, discoveredVF) gomap result" where
  "discoverNetworks fs excludedPF =
     (case getSriovPfList fs excludedPF of
        Inl e \<Rightarrow> Inl e
      | Inr pfList \<Rightarrow>
          if pfList = [] then Inl (Errorf ''no SRIOV network device found'') else discover_pfs fs pfList [])"

subsection \<open>Binding\<close>

type_synonym file_writes = "(string \<times> string) list"

definition checkVFIOModule :: "sysfs \<Rightarrow> error option" where
  "checkVFIOModule fs =
     (case fs_lsmod fs of
        Inl _ \<Rightarrow> Some (Errorf ''lsmod failed with error: %+v, generated output: %s'')
      | Inr out \<Rightarrow>
          if Contains out ''vfio_pci'' then None
          else map_option (\<lambda>_. Errorf ''modprobe failed with error: %+v, generated output: %s'') (fs_modprobe fs))"

definition waitAndRetry :: "nat \<Rightarrow> (nat \<Rightarrow> bool) \<Rightarrow> error option" where
  "waitAndRetry retries check = (if list_ex check [0..<retries] then None else Some (Errorf ''timeout has expired''))"

text \<open>\<open>echo\<close> into a file: the file is opened and the command is run.\<close>

definition echo_into :: "sysfs \<Rightarrow> string \<Rightarrow> string \<Rightarrow> string \<Rightarrow> error option \<times> file_writes" where
  "echo_into fs what path text =
     (case fs_OpenFile fs path of
        Some e \<Rightarrow> (Some (Errorf (''fail to open '' @ what @ '' path %s with error: %+v'')), [])
      | None \<Rightarrow>
          (case fs_Run fs path of
             Some e \<Rightarrow> (Some (Errorf (what @ '' failed with error: %+v'')), [])
           | None \<Rightarrow> (None, [(path, text @ [CHR 0x0A])])))"

definition bindVF :: "sysfs \<Rightarrow> discoveredVF \<Rightarrow> error option \<times> file_writes" where
  "bindVF fs vf =
     (let pciAddr = replace_char CHR ''-'' CHR '':'' (VF_PCIAddr vf) in
      case echo_into fs ''unbind'' (''/sys/bus/pci/devices/'' @ pciAddr @ ''/driver/unbind'') pciAddr of
        (Some e, out) \<Rightarrow> (Some e, out)
      | (None, out) \<Rightarrow>
          (case echo_into fs ''bind'' ''/sys/bus/pci/drivers/vfio-pci/new_id'' ('' '' @ pciVendor vf @ '' '' @ pciType vf @ '' '') of
             (Some e, out') \<Rightarrow> (Some e, out @ out')
           | (None, out') \<Rightarrow> (waitAndRetry 5 (fs_Stat fs (VFIODevice vf)), out @ out')))"

text \<open>
  One round of \<open>buildVFIODevices\<close>, for the entry under a key. The map is changed during the iteration: entries that are
  gone are not visited.
\<close>

definition build_device :: "sysfs \<Rightarrow> string \<Rightarrow> (string, discoveredVF) gomap \<Rightarrow> (string, discoveredVF) gomap result \<times> file_writes" where
  "build_device fs i vfs =
     (case map_of vfs i of
        None \<Rightarrow> (Inr vfs, [])
      | Some vf \<Rightarrow>
          (let rest = AList.delete (VF_PCIAddr vf) vfs in
           case Atoi (iommuGroup vf) of
             Inl _ \<Rightarrow> (Inr rest, [])
           | Inr grp \<Rightarrow>
               (let vfioDevice = ''/dev/vfio/'' @ format_int grp in
                if fs_Lstat fs vfioDevice = LstatError then (Inr rest, [])
                else
                  (case map_of vfs (VF_PCIAddr vf) of
                     None \<Rightarrow> (Inl (Panic ''nil dereference''), [])
                   | Some target \<Rightarrow>
                       (let vfs1 = AList.update (VF_PCIAddr vf) (target\<lparr>VFIODevice := vfioDevice\<rparr>) vfs in
                        case bindVF fs (the (map_of vfs1 i)) of
                          (Some _, out) \<Rightarrow> (Inr rest, out)
                        | (None, out) \<Rightarrow> (Inr vfs1, out))))))"

fun build_devices :: "sysfs \<Rightarrow> string list \<Rightarrow> (string, discoveredVF) gomap \<Rightarrow> (string, discoveredVF) gomap result \<times> file_writes" where
  "build_devices fs [] vfs = (Inr vfs, [])"
| "build_devices fs (i # is) vfs =
     (case build_device fs i vfs of
        (Inl e, out) \<Rightarrow> (Inl e, out)
      | (Inr vfs', out) \<Rightarrow> (case build_devices fs is vfs' of (r, out') \<Rightarrow> (r, out @ out')))"

definition buildVFIODevices :: "sysfs \<Rightarrow> (string list \<Rightarrow> string list) \<Rightarrow> (string, discoveredVF) gomap \<Rightarrow>
    (string, discoveredVF) gomap result \<times> file_writes" where
  "buildVFIODevices fs ord vfs =
     (case checkVFIOModule fs of Some e \<Rightarrow> (Inl e, []) | None \<Rightarrow> build_devices fs (ord (map fst vfs)) vfs)"

subsection \<open>The config map\<close>

record v1_ConfigMap =
  gc_Name :: string
  gc_Namespace :: string
  gc_Labels :: "(string, string) gomap"
  gc_Data :: "(string, string) gomap"

definition exported :: "discoveredVF \<Rightarrow> VF" where
  "exported vf = \<lparr>VF_NetworkService = VF_NetworkService vf, VF_PCIAddr = VF_PCIAddr vf, VF_ParentDevice = VF_ParentDevice vf,
     VFLocalID = VFLocalID vf, VFIODevice = VFIODevice vf\<rparr>"

text \<open>The loop of \<open>buildSRIOVConfigMap\<close>; the encoder sees the exported fields.\<close>

fun marshal_vfs :: "(VF \<Rightarrow> string result) \<Rightarrow> discoveredVF list \<Rightarrow> (string, string) gomap \<Rightarrow> (string, string) gomap result" where
  "marshal_vfs marshal [] m = Inr m"
| "marshal_vfs marshal (vf # vfs) m =
     (case marshal (exported (vf\<lparr>VF_PCIAddr := replace_char CHR ''-'' CHR '':'' (VF_PCIAddr vf)\<rparr>)) of
        Inl e \<Rightarrow> Inl e
      | Inr text \<Rightarrow> marshal_vfs marshal vfs (AList.update (VF_PCIAddr vf) text m))"

definition buildSRIOVConfigMap :: "(VF \<Rightarrow> string result) \<Rightarrow> ((string \<times> discoveredVF) list \<Rightarrow> (string \<times> discoveredVF) list) \<Rightarrow> string \<Rightarrow>
    (string, discoveredVF) gomap \<Rightarrow> string \<Rightarrow> v1_ConfigMap result" where
  "buildSRIOVConfigMap marshal ord nameSpace vfs hostName =
     (case marshal_vfs marshal (map snd (ord vfs)) [] of
        Inl e \<Rightarrow> Inl e
      | Inr dataString \<Rightarrow> Inr \<lparr>gc_Name = ''nsm-sriov-vf-list-'' @ hostName, gc_Namespace = nameSpace,
          gc_Labels = [(''networkservicemesh.io/sriov'', ''config'')], gc_Data = dataString\<rparr>)"

record gen_env =
  g_fs :: sysfs
  g_client :: "error option"
  g_hostname :: "string result"
  g_node :: "string \<Rightarrow> error option"
  g_marshal_vf :: "VF \<Rightarrow> string result"
  g_marshal :: "v1_ConfigMap \<Rightarrow> string result"
  g_WriteFile :: "string \<Rightarrow> error option"
  g_range_keys :: "string list \<Rightarrow> string list"
  g_range :: "(string \<times> discoveredVF) list \<Rightarrow> (string \<times> discoveredVF) list"

definition generateConfigMap :: "gen_env \<Rightarrow> string \<Rightarrow> (string, discoveredVF) gomap \<Rightarrow> (string \<times> v1_ConfigMap) result" where
  "generateConfigMap env nameSpace vfs =
     (if g_client env \<noteq> None then Inl (Errorf ''failed to build kubernetes client with error: %+v'')
      else case g_hostname env of
        Inl _ \<Rightarrow> Inl (Errorf ''failed to get hostname of a node with error: %+v'')
      | Inr hostName \<Rightarrow>
          if g_node env hostName \<noteq> None then
            Inl (Errorf ''hostname %s does not appear to be a valid node name in kuebrnetes cluster, error: %+v'')
          else
            (case buildSRIOVConfigMap (g_marshal_vf env) (g_range env) nameSpace vfs hostName of
               Inl _ \<Rightarrow> Inl (Errorf ''failed to build SRIOV config map with error: %+v'')
             | Inr cf \<Rightarrow>
                 (let cf' = cf\<lparr>gc_Labels := AList.update nsmSRIOVNodeName hostName (gc_Labels cf)\<rparr>;
                      configmapFileName = nsmConfigmapNamePrefix @ hostName @ ''.yaml''
                  in case g_marshal env cf' of
                       Inl _ \<Rightarrow> Inl (Errorf ''failed to marshal SRIOV config map with error: %+v'')
                     | Inr _ \<Rightarrow>
                         if g_WriteFile env configmapFileName \<noteq> None then Inl (Errorf ''failed to save SRIOV config map with error: %+v'')
                         else Inr (configmapFileName, cf'))))"

text \<open>\<open>main\<close>: the config map it saves, if it gets that far, or the error it exits with, and what it has written to bind devices.\<close>

definition gen_main :: "gen_env \<Rightarrow> string \<Rightarrow> bool \<Rightarrow> bool \<Rightarrow> string \<Rightarrow> (string \<times> v1_ConfigMap) option result \<times> file_writes" where
  "gen_main env excludedPF noRebind noConfigMap nameSpace =
     (case discoverNetworks (g_fs env) excludedPF of
        Inl e \<Rightarrow> (Inl e, [])
      | Inr vfs \<Rightarrow>
          if vfs = [] then (Inr None, [])
          else
            (case (if noRebind then (Inr vfs, []) else buildVFIODevices (g_fs env) (g_range_keys env) vfs) of
               (Inl e, out) \<Rightarrow> (Inl e, out)
             | (Inr vfs', out) \<Rightarrow>
                 if noConfigMap then (Inr None, out)
                 else (case generateConfigMap env nameSpace vfs' of
                         Inl e \<Rightarrow> (Inl e, out)
                       | Inr cm \<Rightarrow> (Inr (Some cm), out))))"

subsection \<open>What is discovered and bound\<close>

text \<open>Entries are stored under their own address, without colons; nothing is bound yet.\<close>

definition found_ok :: "(string, discoveredVF) gomap \<Rightarrow> bool" where
  "found_ok vfs \<longleftrightarrow> gomap_ok vfs \<and> (\<forall>k v. map_of vfs k = Some v \<longrightarrow> VF_PCIAddr v = k)"

definition unbound :: "(string, discoveredVF) gomap \<Rightarrow> bool" where
  "unbound vfs \<longleftrightarrow> (\<forall>k v. map_of vfs k = Some v \<longrightarrow> VFIODevice v = '''' \<and> VF_NetworkService v = nsmSRIOVDefaultNetworkServiceName)"

lemma found_ok_update:
  "found_ok vfs \<Longrightarrow> VF_PCIAddr v = k \<Longrightarrow> found_ok (AList.update k v vfs)"
  by (simp add: found_ok_def gomap_ok_def distinct_update update_conv')

lemma found_ok_delete: "found_ok vfs \<Longrightarrow> found_ok (AList.delete k vfs)"
  by (auto simp: found_ok_def gomap_ok_def distinct_delete delete_conv')

lemma discover_vf_ok:
  assumes "discover_vf fs dev n vfs = Inr vfs'" "found_ok vfs" "unbound vfs"
  shows "found_ok vfs' \<and> unbound vfs'"
proof (cases "vfs' = vfs")
  case False
  then obtain k v where "vfs' = AList.update k v vfs" "VF_PCIAddr v = k" "VFIODevice v = ''''"
      "VF_NetworkService v = nsmSRIOVDefaultNetworkServiceName"
    using assms(1) by (auto simp: discover_vf_def Let_def split: sum.splits if_splits)
  then show ?thesis using assms(2,3) by (simp add: found_ok_update unbound_def update_conv')
qed (use assms in simp)

lemma discover_vfs_ok:
  "discover_vfs fs dev is vfs = Inr vfs' \<Longrightarrow> found_ok vfs \<Longrightarrow> unbound vfs \<Longrightarrow> found_ok vfs' \<and> unbound vfs'"
proof (induction "is" arbitrary: vfs)
  case (Cons i "is")
  then obtain vfs1 where "discover_vf fs dev i vfs = Inr vfs1" "discover_vfs fs dev is vfs1 = Inr vfs'"
    by (auto split: sum.splits)
  with Cons discover_vf_ok show ?case by blast
qed simp

lemma discover_pfs_ok:
  "discover_pfs fs devs vfs = Inr vfs' \<Longrightarrow> found_ok vfs \<Longrightarrow> unbound vfs \<Longrightarrow> found_ok vfs' \<and> unbound vfs'"
proof (induction devs arbitrary: vfs)
  case (Cons dev devs)
  then obtain vfs1 where v: "discover_pf fs dev vfs = Inr vfs1" "discover_pfs fs devs vfs1 = Inr vfs'"
    by (auto split: sum.splits)
  have "found_ok vfs1 \<and> unbound vfs1"
    using v(1) Cons.prems(2,3) discover_vfs_ok by (auto simp: discover_pf_def split: sum.splits if_splits)
  with v(2) Cons.IH show ?case by blast
qed simp

lemma discoverNetworks_ok: "discoverNetworks fs excludedPF = Inr vfs \<Longrightarrow> found_ok vfs \<and> unbound vfs"
  using discover_pfs_ok [of fs _ "[]" vfs]
  by (auto simp: discoverNetworks_def found_ok_def unbound_def gomap_ok_def split: sum.splits if_splits)

text \<open>The device of a virtual function, when it can be bound.\<close>

definition usable_device :: "sysfs \<Rightarrow> discoveredVF \<Rightarrow> string option" where
  "usable_device fs v =
     (case Atoi (iommuGroup v) of
        Inl _ \<Rightarrow> None
      | Inr grp \<Rightarrow>
          (let dev = ''/dev/vfio/'' @ format_int grp in
           if fs_Lstat fs dev \<noteq> LstatError \<and> fst (bindVF fs (v\<lparr>VFIODevice := dev\<rparr>)) = None then Some dev else None))"

definition bind_device :: "sysfs \<Rightarrow> discoveredVF \<Rightarrow> discoveredVF option" where
  "bind_device fs v = map_option (\<lambda>dev. v\<lparr>VFIODevice := dev\<rparr>) (usable_device fs v)"

lemma build_device_ok:
  assumes "found_ok vfs"
  shows "\<exists>vfs' out. build_device fs i vfs = (Inr vfs', out) \<and> found_ok vfs' \<and>
    map_of vfs' = (map_of vfs)(i := Option.bind (map_of vfs i) (bind_device fs))"
proof (cases "map_of vfs i")
  case None
  then show ?thesis using assms by (auto simp: build_device_def)
next
  case (Some v)
  then have k: "VF_PCIAddr v = i" using assms by (simp add: found_ok_def)
  have d: "found_ok (AList.delete i vfs)" "map_of (AList.delete i vfs) = (map_of vfs)(i := None)"
    using assms by (simp_all add: found_ok_delete delete_conv')
  have u: "found_ok (AList.update i (v\<lparr>VFIODevice := dev\<rparr>) vfs)" for dev using assms k by (simp add: found_ok_update)
  show ?thesis
    using Some k d u
    by (cases "Atoi (iommuGroup v)")
      (auto simp: build_device_def bind_device_def usable_device_def update_conv' Let_def split: prod.splits option.splits)
qed

lemma build_devices_ok:
  assumes "found_ok vfs" "distinct is"
  shows "\<exists>vfs' out. build_devices fs is vfs = (Inr vfs', out) \<and> found_ok vfs' \<and>
    (\<forall>k. map_of vfs' k = (if k \<in> set is then Option.bind (map_of vfs k) (bind_device fs) else map_of vfs k))"
  using assms
proof (induction "is" arbitrary: vfs)
  case (Cons i "is")
  obtain vfs1 out1 where 1: "build_device fs i vfs = (Inr vfs1, out1)" "found_ok vfs1"
      "map_of vfs1 = (map_of vfs)(i := Option.bind (map_of vfs i) (bind_device fs))"
    using build_device_ok [OF Cons.prems(1)] by blast
  obtain vfs' out where "build_devices fs is vfs1 = (Inr vfs', out)" "found_ok vfs'"
      "\<forall>k. map_of vfs' k = (if k \<in> set is then Option.bind (map_of vfs1 k) (bind_device fs) else map_of vfs1 k)"
    using Cons.IH [OF 1(2)] Cons.prems(2) by auto
  with 1 Cons.prems(2) show ?case by auto
qed auto

subsection \<open>From the generator to the controller\<close>

text \<open>What is written for a virtual function: its exported fields, with the colons of the address restored.\<close>

definition written :: "discoveredVF \<Rightarrow> VF" where
  "written vf = exported (vf\<lparr>VF_PCIAddr := replace_char CHR ''-'' CHR '':'' (VF_PCIAddr vf)\<rparr>)"

lemma marshal_vfs_lists:
  assumes "marshal_vfs marshal vs m = Inr m'" "distinct (map fst m @ map VF_PCIAddr vs)"
  shows "m' = m @ map (\<lambda>v. (VF_PCIAddr v, projr (marshal (written v)))) vs \<and> (\<forall>v \<in> set vs. \<exists>t. marshal (written v) = Inr t)"
  using assms
proof (induction vs arbitrary: m)
  case (Cons v vs)
  then obtain t where t: "marshal (written v) = Inr t" "marshal_vfs marshal vs (AList.update (VF_PCIAddr v) t m) = Inr m'"
    by (auto simp: written_def split: sum.splits)
  have u: "AList.update (VF_PCIAddr v) t m = m @ [(VF_PCIAddr v, t)]"
    using Cons.prems(2) by (intro update_fresh) (auto simp: map_of_eq_None_iff)
  from Cons.IH [OF t(2)] Cons.prems(2) show ?case by (auto simp: u t(1))
qed simp

lemma parse_entries_lists:
  assumes "\<forall>(k, t) \<in> set kvs. unmarshal t = Inr (f t)" "distinct (map fst acc @ map fst kvs)"
  shows "parse_entries unmarshal kvs acc = Inr (acc @ map (\<lambda>(k, t). (k, f t)) kvs)"
  using assms
proof (induction kvs arbitrary: acc)
  case (Cons kt kvs)
  obtain k t where kt: "kt = (k, t)" by force
  have "AList.update k (f t) acc = acc @ [(k, f t)]"
    using Cons.prems(2) kt by (intro update_fresh) (auto simp: map_of_eq_None_iff)
  with Cons kt show ?case by auto
qed simp

lemma map_of_order: "gomap_ok m \<Longrightarrow> is_order f \<Longrightarrow> map_of (f m) = map_of m \<and> gomap_ok (f m)"
proof -
  assume m: "gomap_ok m" "is_order f"
  then have "mset (map fst (f m)) = mset (map fst m)" by (simp add: is_order_mset)
  then have "distinct (map fst (f m))" using m(1) by (metis gomap_ok_def mset_eq_imp_distinct_iff)
  with m show ?thesis by (simp add: gomap_ok_def map_of_inject_set is_order_set)
qed

lemma config_map_loads:
  assumes "found_ok vfs" "is_order ord" "is_order (c_range_data cenv)"
    "\<forall>v t. marshal v = Inr t \<longrightarrow> c_unmarshal cenv t = Inr v"
    "marshal_vfs marshal (map snd (ord vfs)) [] = Inr data"
  shows "\<exists>loaded. processConfigMap cenv \<lparr>cm_ResourceVersion = rv, cm_Data = data\<rparr> = Inr loaded \<and>
    (\<forall>k. map_of loaded k = map_option written (map_of vfs k))"
proof -
  have o: "map_of (ord vfs) = map_of vfs" "gomap_ok (ord vfs)" using map_of_order assms(1,2) by (auto simp: found_ok_def)
  have key: "VF_PCIAddr v = k" if "(k, v) \<in> set (ord vfs)" for k v
    using that o assms(1) by (metis found_ok_def gomap_map_of_iff)
  then have keys: "map VF_PCIAddr (map snd (ord vfs)) = map fst (ord vfs)" by (auto simp: o_def)
  then have "distinct (map fst [] @ map VF_PCIAddr (map snd (ord vfs)))" using o(2) by (simp add: gomap_ok_def del: map_map)
  from marshal_vfs_lists [OF assms(5) this]
  have d: "data = map (\<lambda>v. (VF_PCIAddr v, projr (marshal (written v)))) (map snd (ord vfs))"
      and m: "\<forall>v \<in> set (map snd (ord vfs)). \<exists>t. marshal (written v) = Inr t"
    by simp_all
  have d': "data = map (\<lambda>(k, v). (k, projr (marshal (written v)))) (ord vfs)" unfolding d using key by (auto simp: case_prod_beta)
  then have ok: "gomap_ok data" using o(2) by (simp add: gomap_ok_def case_prod_beta o_def)
  let ?data = "c_range_data cenv data" and ?f = "\<lambda>t. projr (c_unmarshal cenv t)"
  have ord: "map_of ?data = map_of data" "gomap_ok ?data" using map_of_order [OF ok assms(3)] by auto
  have u: "c_unmarshal cenv (projr (marshal (written v))) = Inr (written v)" if "(k, v) \<in> set (ord vfs)" for k v
    using m assms(4) that by force
  have all: "\<forall>(k, t) \<in> set ?data. c_unmarshal cenv t = Inr (?f t)"
    using u by (auto simp: is_order_set [OF assms(3)] d')
  have "map_of (map (\<lambda>(k, t). (k, ?f t)) ?data) k = map_option written (map_of vfs k)" for k
  proof -
    have "map_of (map (\<lambda>(k, t). (k, ?f t)) ?data) k = map_option ?f (map_of data k)" by (simp add: map_of_map ord(1))
    also have "\<dots> = map_option (\<lambda>v. ?f (projr (marshal (written v)))) (map_of (ord vfs) k)"
      by (simp add: d' map_of_map option.map_comp o_def)
    also have "\<dots> = map_option written (map_of vfs k)"
      using u map_of_SomeD [of "ord vfs" k] by (cases "map_of (ord vfs) k") (auto simp flip: o(1))
    finally show ?thesis .
  qed
  with parse_entries_lists [OF all, of "[]"] ord(2) show ?thesis by (simp add: processConfigMap_def gomap_ok_def)
qed

text \<open>What the controller is to know of a virtual function.\<close>

definition advertised :: "sysfs \<Rightarrow> bool \<Rightarrow> discoveredVF \<Rightarrow> VF option" where
  "advertised fs noRebind v = map_option written (if noRebind then Some v else bind_device fs v)"


subsection \<open>An example\<close>

definition ex_sysfs :: sysfs where
  "ex_sysfs = \<lparr>fs_ReadDir = Inr [''eth0''],
     fs_Lstat = (\<lambda>f. if f = ''/sys/class/net/eth0/device/sriov_numvfs'' then Regular else Symlink),
     fs_Readlink = (\<lambda>f. Inr (if f = ''/sys/class/net/eth0/device/virtfn0'' then ''../0000:81:10.6'' else ''../groups/95'')),
     fs_ReadFile = (\<lambda>f. Inr (if f = ''/sys/bus/pci/devices/0000:81:10.6/vendor'' then ''0x8086'' else ''1'')),
     fs_OpenFile = (\<lambda>_. None), fs_Run = (\<lambda>_. None), fs_Stat = (\<lambda>_ r. 2 \<le> r), fs_lsmod = Inr ''vfio_pci'', fs_modprobe = None\<rparr>"

lemma ex_paths:
  "path_Join [netDirectory, ''eth0'', ''device'', ''sriov_numvfs''] = ''/sys/class/net/eth0/device/sriov_numvfs''"
  "path_Join [pciDirectory, ''0000:81:10.6''] = ''/sys/bus/pci/devices/0000:81:10.6''"
  "path_Join [''/sys/bus/pci/devices/0000:81:10.6'', ''vendor''] = ''/sys/bus/pci/devices/0000:81:10.6/vendor''"
  "path_Join [''/sys/bus/pci/devices/0000:81:10.6'', ''device''] = ''/sys/bus/pci/devices/0000:81:10.6/device''"
  "path_Join [''/sys/bus/pci/devices/0000:81:10.6'', ''iommu_group''] = ''/sys/bus/pci/devices/0000:81:10.6/iommu_group''"
  by code_simp+

definition ex_found :: discoveredVF where
  "ex_found = \<lparr>VF_NetworkService = nsmSRIOVDefaultNetworkServiceName, VF_PCIAddr = ''0000-81-10.6'', VF_ParentDevice = ''eth0'',
     VFLocalID = 0, VFIODevice = '''', pciVendor = ''8086'', pciType = ''1'', iommuGroup = ''95''\<rparr>"

definition ex_written :: VF where
  "ex_written = \<lparr>VF_NetworkService = nsmSRIOVDefaultNetworkServiceName, VF_PCIAddr = ''0000:81:10.6'', VF_ParentDevice = ''eth0'',
     VFLocalID = 0, VFIODevice = ''/dev/vfio/95''\<rparr>"

definition ex_gen_env :: gen_env where
  "ex_gen_env = \<lparr>g_fs = ex_sysfs, g_client = None, g_hostname = Inr ''node1'', g_node = (\<lambda>_. None),
     g_marshal_vf = (\<lambda>v. if v = ex_written then Inr ''vf'' else Inl (Errorf ''marshal'')), g_marshal = (\<lambda>_. Inr ''map''),
     g_WriteFile = (\<lambda>_. None), g_range_keys = rev, g_range = rev\<rparr>"

definition ex_reader :: config_env where
  "ex_reader = \<lparr>c_unmarshal = (\<lambda>_. Inr ex_written), c_range_data = rev, c_range_add = rev, c_range_delete = rev\<rparr>"

lemma ex_texts:
  "strip_0x ''0x8086'' = ''8086''" "strip_0x ''1'' = ''1''" "TrimSpace ''1'' = ''1''" "Split ''../groups/95'' ''/'' = [''..'', ''groups'', ''95'']"
  "replace_char CHR '':'' CHR ''-'' ''0000:81:10.6'' = ''0000-81-10.6''" "replace_char CHR ''-'' CHR '':'' ''0000-81-10.6'' = ''0000:81:10.6''"
  "Contains '''' ''eth0'' = False" "Contains ''vfio_pci'' ''vfio_pci''"
  by code_simp+

lemma ex_numbers: "Atoi ''1'' = Inr 1" "Atoi ''95'' = Inr 95" "format_int 95 = ''95''" "FormatUint 10 0 = ''0''"
  by (simp_all add: Atoi_def HasPrefix_def ParseUint_def is_dec_def dec_val_def of_char_def format_int_def go_simps)

lemma ex_discovers: "discoverNetworks ex_sysfs '''' = Inr [(''0000-81-10.6'', ex_found)]"
proof -
  have d: "discover_vf ex_sysfs ''eth0'' 0 [] = Inr [(''0000-81-10.6'', ex_found)]"
    by (simp add: discover_vf_def readLinkData_def ex_sysfs_def ex_paths ex_texts ex_numbers ex_found_def Let_def)
  have "read_count ex_sysfs f = Inr 1" if "f \<noteq> ''/sys/bus/pci/devices/0000:81:10.6/vendor''" for f
    using that by (simp add: read_count_def ex_sysfs_def ex_texts ex_numbers)
  moreover have "path_Join [netDirectory, ''eth0'', ''device'', ''/sriov_totalvfs''] \<noteq> ''/sys/bus/pci/devices/0000:81:10.6/vendor''"
    by code_simp
  ultimately have "discover_pf ex_sysfs ''eth0'' [] = Inr [(''0000-81-10.6'', ex_found)]"
    using d by (simp add: discover_pf_def netDirectory_def)
  moreover have "getSriovPfList ex_sysfs '''' = Inr [''eth0'']" by (simp add: getSriovPfList_def ex_texts ex_paths ex_sysfs_def)
  ultimately show ?thesis by (simp add: discoverNetworks_def)
qed

lemma ex_binds: "fst (bindVF ex_sysfs v) = None"
  by (simp add: bindVF_def echo_into_def waitAndRetry_def ex_sysfs_def upt_conv_Cons Let_def)

lemma ex_bound: "bind_device ex_sysfs ex_found = Some (ex_found\<lparr>VFIODevice := ''/dev/vfio/95''\<rparr>)"
proof -
  have "fs_Lstat ex_sysfs ''/dev/vfio/95'' = Symlink" by (simp add: ex_sysfs_def)
  then show ?thesis by (simp add: bind_device_def usable_device_def ex_found_def ex_numbers ex_binds)
qed

lemma ex_builds: "\<exists>out. build_devices ex_sysfs [''0000-81-10.6''] [(''0000-81-10.6'', ex_found)] =
    (Inr [(''0000-81-10.6'', ex_found\<lparr>VFIODevice := ''/dev/vfio/95''\<rparr>)], out)"
proof -
  obtain out where "bindVF ex_sysfs (ex_found\<lparr>VFIODevice := ''/dev/vfio/95''\<rparr>) = (None, out)"
    using ex_binds by (metis prod.collapse)
  moreover have "fs_Lstat ex_sysfs ''/dev/vfio/95'' = Symlink" by (simp add: ex_sysfs_def)
  ultimately show ?thesis by (simp add: build_device_def ex_found_def ex_numbers)
qed

lemma ex_generates: "\<exists>file cm out. gen_main ex_gen_env '''' False False ''default'' = (Inr (Some (file, cm)), out)"
proof -
  have "checkVFIOModule ex_sysfs = None" by (simp add: checkVFIOModule_def ex_sysfs_def ex_texts)
  moreover have "exported (ex_found\<lparr>VFIODevice := ''/dev/vfio/95'', VF_PCIAddr := replace_char CHR ''-'' CHR '':'' (VF_PCIAddr ex_found)\<rparr>) = ex_written"
    by (simp add: exported_def ex_found_def ex_written_def ex_texts)
  ultimately show ?thesis
    using ex_builds ex_discovers
    by (auto simp: gen_main_def buildVFIODevices_def ex_gen_env_def generateConfigMap_def buildSRIOVConfigMap_def Let_def)
qed


subsection \<open>Flaws\<close>

text \<open>The list of excluded devices is searched as text: a device whose name is part of another excluded name is excluded as well.\<close>

lemma excluded_by_accident:
  assumes "fs_ReadDir fs = Inr [''eth1'']"
  shows "getSriovPfList fs ''eth10,eth11'' = Inr []"
proof -
  have "Contains ''eth10,eth11'' ''eth1''" by code_simp
  with assms show ?thesis by (simp add: getSriovPfList_def)
qed

end
