(* ===== verification/GoUrl.thy ===== *)
theory GoUrl
  imports Tools
begin

text \<open>
  The parser of URLs of Go's library (\<open>net/url\<close>, Go 1.11), as far as the program reads its result: the path and the
  query. User and host are parsed for their errors, and schemes keep their case. Strings are lists of bytes.
\<close>

subsection \<open>Escapes\<close>

datatype url_mode = encodePath | encodeUserPassword | encodeHost | encodeZone | encodeQueryComponent | encodeFragment

definition code :: "char \<Rightarrow> nat" where
  "code c = of_char c"

definition is_alpha :: "char \<Rightarrow> bool" where
  "is_alpha c \<longleftrightarrow> code CHR ''a'' \<le> code c \<and> code c \<le> code CHR ''z'' \<or> code CHR ''A'' \<le> code c \<and> code c \<le> code CHR ''Z''"

definition is_digit :: "char \<Rightarrow> bool" where
  "is_digit c \<longleftrightarrow> code CHR ''0'' \<le> code c \<and> code c \<le> code CHR ''9''"

definition ishex :: "char \<Rightarrow> bool" where
  "ishex c \<longleftrightarrow> is_digit c \<or> code CHR ''a'' \<le> code c \<and> code c \<le> code CHR ''f'' \<or> code CHR ''A'' \<le> code c \<and> code c \<le> code CHR ''F''"

definition unhex :: "char \<Rightarrow> nat" where
  "unhex c =
     (if is_digit c then code c - code CHR ''0''
      else if code CHR ''a'' \<le> code c \<and> code c \<le> code CHR ''f'' then code c - code CHR ''a'' + 10
      else if code CHR ''A'' \<le> code c \<and> code c \<le> code CHR ''F'' then code c - code CHR ''A'' + 10
      else 0)"

text \<open>\<open>shouldEscape\<close> of a host or a zone, the modes in which the parser asks for it.\<close>

definition host_escape :: "char \<Rightarrow> bool" where
  "host_escape c \<longleftrightarrow> \<not> (is_alpha c \<or> is_digit c \<or> c \<in> set ''!$&()*+,;=:[]<>-_.~'' \<or> c = CHR 0x27 \<or> c = CHR 0x22)"

definition escape_ok :: "url_mode \<Rightarrow> char \<Rightarrow> char \<Rightarrow> bool" where
  "escape_ok mode a b \<longleftrightarrow> ishex a \<and> ishex b \<and>
     (mode = encodeHost \<longrightarrow> 8 \<le> unhex a \<or> [a, b] = ''25'') \<and>
     (mode = encodeZone \<longrightarrow> [a, b] = ''25'' \<or> unhex a * 16 + unhex b = 32 \<or> \<not> host_escape (char_of (unhex a * 16 + unhex b)))"

fun unescape :: "url_mode \<Rightarrow> string \<Rightarrow> string result" where
  "unescape mode [] = Inr []"
| "unescape mode (c # cs) =
     (if c = CHR ''%'' then
        (case cs of
           a # b # rest \<Rightarrow>
             if escape_ok mode a b then
               (case unescape mode rest of
                  Inl e \<Rightarrow> Inl e
                | Inr s \<Rightarrow> Inr (char_of (unhex a * 16 + unhex b) # s))
             else Inl (Errorf ''invalid URL escape %q'')
         | _ \<Rightarrow> Inl (Errorf ''invalid URL escape %q''))
      else if (mode = encodeHost \<or> mode = encodeZone) \<and> code c < 128 \<and> host_escape c then
        Inl (Errorf ''invalid character %q in host name'')
      else
        (case unescape mode cs of
           Inl e \<Rightarrow> Inl e
         | Inr s \<Rightarrow> Inr ((if c = CHR ''+'' \<and> mode = encodeQueryComponent then CHR '' '' else c) # s)))"

subsection \<open>Parts of a URL\<close>

definition before :: "char \<Rightarrow> string \<Rightarrow> string" where
  "before c s = takeWhile (\<lambda>x. x \<noteq> c) s"

definition after :: "char \<Rightarrow> string \<Rightarrow> string" where
  "after c s = drop 1 (dropWhile (\<lambda>x. x \<noteq> c) s)"

definition before_last :: "char \<Rightarrow> string \<Rightarrow> string" where
  "before_last c s = rev (after c (rev s))"

definition after_last :: "char \<Rightarrow> string \<Rightarrow> string" where
  "after_last c s = rev (before c (rev s))"

text \<open>\<open>getscheme\<close>: the scheme and the rest; \<open>seen\<close> are the bytes before, in reverse.\<close>

fun scheme_loop :: "string \<Rightarrow> string \<Rightarrow> string \<Rightarrow> (string \<times> string) result" where
  "scheme_loop rawurl seen [] = Inr ('''', rawurl)"
| "scheme_loop rawurl seen (c # cs) =
     (if is_alpha c then scheme_loop rawurl (c # seen) cs
      else if is_digit c \<or> c \<in> set ''+-.'' then
        (if seen = [] then Inr ('''', rawurl) else scheme_loop rawurl (c # seen) cs)
      else if c = CHR '':'' then
        (if seen = [] then Inl (Errorf ''missing protocol scheme'') else Inr (rev seen, cs))
      else Inr ('''', rawurl))"

definition getscheme :: "string \<Rightarrow> (string \<times> string) result" where
  "getscheme rawurl = scheme_loop rawurl [] rawurl"

definition validOptionalPort :: "string \<Rightarrow> bool" where
  "validOptionalPort port \<longleftrightarrow> port = '''' \<or> hd port = CHR '':'' \<and> list_all is_digit (tl port)"

definition index_of_zone :: "string \<Rightarrow> nat option" where
  "index_of_zone s = find (\<lambda>i. HasPrefix (drop i s) ''%25'') [0..<length s]"

definition parseHost :: "string \<Rightarrow> string result" where
  "parseHost host =
     (if HasPrefix host ''['' then
        (if CHR '']'' \<notin> set host then Inl (Errorf ''missing ']' in host'')
         else if \<not> validOptionalPort (after_last CHR '']'' host) then Inl (Errorf ''invalid port %q after host'')
         else
           (let inside = before_last CHR '']'' host in
            case index_of_zone inside of
              None \<Rightarrow> unescape encodeHost host
            | Some zone \<Rightarrow>
                (case unescape encodeHost (take zone host) of Inl e \<Rightarrow> Inl e | Inr host1 \<Rightarrow>
                (case unescape encodeZone (drop zone inside) of Inl e \<Rightarrow> Inl e | Inr host2 \<Rightarrow>
                (case unescape encodeHost (drop (length inside) host) of Inl e \<Rightarrow> Inl e | Inr host3 \<Rightarrow>
                   Inr (host1 @ host2 @ host3))))))
      else unescape encodeHost host)"

definition validUserinfo :: "string \<Rightarrow> bool" where
  "validUserinfo s \<longleftrightarrow> list_all (\<lambda>c. is_alpha c \<or> is_digit c \<or> c \<in> set ''-._:~!$&()*+,;=%@'' \<or> c = CHR 0x27) s"

definition parseAuthority :: "string \<Rightarrow> string result" where
  "parseAuthority authority =
     (if CHR ''@'' \<notin> set authority then parseHost authority
      else
        (case parseHost (after_last CHR ''@'' authority) of
           Inl e \<Rightarrow> Inl e
         | Inr host \<Rightarrow>
             (let userinfo = before_last CHR ''@'' authority in
              if \<not> validUserinfo userinfo then Inl (Errorf ''net/url: invalid userinfo'')
              else
                (case unescape encodeUserPassword (before CHR '':'' userinfo) of Inl e \<Rightarrow> Inl e | Inr _ \<Rightarrow>
                (case unescape encodeUserPassword (after CHR '':'' userinfo) of Inl e \<Rightarrow> Inl e | Inr _ \<Rightarrow> Inr host)))))"

record URL =
  u_Scheme :: string
  u_Opaque :: string
  u_Host :: string
  u_Path :: string
  u_RawQuery :: string

definition empty_URL :: URL where
  "empty_URL = \<lparr>u_Scheme = '''', u_Opaque = '''', u_Host = '''', u_Path = '''', u_RawQuery = ''''\<rparr>"

text \<open>A single question mark at the end is dropped and leaves an empty query.\<close>

definition split_query :: "string \<Rightarrow> string \<times> string" where
  "split_query rest = (before CHR ''?'' rest, after CHR ''?'' rest)"

definition parse_rest :: "URL \<Rightarrow> string \<Rightarrow> URL result" where
  "parse_rest u rest =
     (if \<not> HasPrefix rest ''/'' \<and> u_Scheme u \<noteq> '''' then Inr (u\<lparr>u_Opaque := rest\<rparr>)
      else if \<not> HasPrefix rest ''/'' \<and> CHR '':'' \<in> set (before CHR ''/'' rest) then
        Inl (Errorf ''first path segment in URL cannot contain colon'')
      else
        (let authority = (u_Scheme u \<noteq> '''' \<or> \<not> HasPrefix rest ''///'') \<and> HasPrefix rest ''//'' in
         case (if authority then parseAuthority (before CHR ''/'' (drop 2 rest)) else Inr '''') of
           Inl e \<Rightarrow> Inl e
         | Inr host \<Rightarrow>
             (case unescape encodePath (if authority then dropWhile (\<lambda>c. c \<noteq> CHR ''/'') (drop 2 rest) else rest) of
                Inl e \<Rightarrow> Inl e
              | Inr path \<Rightarrow> Inr (u\<lparr>u_Host := host, u_Path := path\<rparr>))))"

definition url_parse :: "string \<Rightarrow> URL result" where
  "url_parse rawurl =
     (if rawurl = ''*'' then Inr (empty_URL\<lparr>u_Path := ''*''\<rparr>)
      else
        (case getscheme rawurl of
           Inl e \<Rightarrow> Inl e
         | Inr (scheme, rest0) \<Rightarrow>
             (case split_query rest0 of (rest, query) \<Rightarrow>
                parse_rest (empty_URL\<lparr>u_Scheme := scheme, u_RawQuery := query\<rparr>) rest)))"

definition url_Parse :: "string \<Rightarrow> URL result" where
  "url_Parse rawurl =
     (case url_parse (before CHR ''#'' rawurl) of
        Inl e \<Rightarrow> Inl e
      | Inr url \<Rightarrow>
          (case unescape encodeFragment (after CHR ''#'' rawurl) of Inl e \<Rightarrow> Inl e | Inr _ \<Rightarrow> Inr url))"

subsection \<open>Queries\<close>

type_synonym url_Values = "(string, string list) gomap"

definition add_value :: "string \<Rightarrow> string \<Rightarrow> url_Values \<Rightarrow> url_Values" where
  "add_value k v m = AList.update k ((case map_of m k of None \<Rightarrow> [] | Some vs \<Rightarrow> vs) @ [v]) m"

text \<open>The parts between ampersands and semicolons.\<close>

fun query_parts :: "string \<Rightarrow> string \<Rightarrow> string list" where
  "query_parts acc [] = [rev acc]"
| "query_parts acc (c # cs) =
     (if c = CHR ''&'' \<or> c = CHR '';'' then rev acc # query_parts [] cs else query_parts (c # acc) cs)"

text \<open>Parts that are empty or cannot be unescaped are left out; \<open>Query\<close> drops the error.\<close>

definition add_part :: "string \<Rightarrow> url_Values \<Rightarrow> url_Values" where
  "add_part part m =
     (if part = '''' then m
      else
        (case unescape encodeQueryComponent (before CHR ''='' part) of Inl _ \<Rightarrow> m | Inr k \<Rightarrow>
        (case unescape encodeQueryComponent (after CHR ''='' part) of Inl _ \<Rightarrow> m | Inr v \<Rightarrow> add_value k v m)))"

definition url_Query :: "string \<Rightarrow> url_Values" where
  "url_Query query = fold add_part (query_parts [] query) []"

subsection \<open>URLs without escapes\<close>

lemma unescape_id:
  assumes "CHR ''%'' \<notin> set s" "mode \<noteq> encodeHost" "mode \<noteq> encodeZone" "mode = encodeQueryComponent \<longrightarrow> CHR ''+'' \<notin> set s"
  shows "unescape mode s = Inr s"
  using assms by (induction s) auto

lemma no_scheme: "CHR '':'' \<notin> set cs \<Longrightarrow> scheme_loop rawurl seen cs = Inr ('''', rawurl)"
  by (induction cs arbitrary: seen) auto

lemma before_id [simp]: "c \<notin> set s \<Longrightarrow> before c s = s"
  by (induction s) (auto simp: before_def)

lemma after_none [simp]: "c \<notin> set s \<Longrightarrow> after c s = ''''"
  by (induction s) (auto simp: after_def)

lemma before_sep [simp]: "c \<notin> set s \<Longrightarrow> before c (s @ c # t) = s"
  by (induction s) (auto simp: before_def)

lemma after_sep [simp]: "c \<notin> set s \<Longrightarrow> after c (s @ c # t) = t"
  by (induction s) (auto simp: after_def)

definition with_query :: "string \<Rightarrow> string \<Rightarrow> string" where
  "with_query path query = path @ (if query = '''' then '''' else CHR ''?'' # query)"

lemma parse_with_query:
  assumes "set path \<inter> set '':?#%*'' = {}" "\<not> HasPrefix path ''/''" "set query \<inter> set '':#*'' = {}"
  shows "url_Parse (with_query path query) = Inr (empty_URL\<lparr>u_Path := path, u_RawQuery := query\<rparr>)"
proof -
  let ?u = "with_query path query"
  have chars: "CHR ''#'' \<notin> set ?u" "CHR '':'' \<notin> set ?u" "CHR ''*'' \<notin> set ?u" using assms(1,3) by (auto simp: with_query_def)
  then have "?u \<noteq> ''*''" by force
  moreover have "split_query ?u = (path, query)" using assms(1) by (simp add: split_query_def with_query_def)
  moreover have "getscheme ?u = Inr ('''', ?u)" using chars(2) by (simp add: getscheme_def no_scheme)
  moreover have "\<not> HasPrefix path ''//''" using assms(2) by (cases path) (auto simp: HasPrefix_def)
  moreover have "CHR '':'' \<notin> set (before CHR ''/'' path)" using assms(1) by (auto simp: before_def dest: set_takeWhileD)
  moreover have "unescape encodePath path = Inr path" using assms(1) by (intro unescape_id) auto
  ultimately show ?thesis using chars(1) assms(2) by (simp add: url_Parse_def url_parse_def parse_rest_def empty_URL_def)
qed

lemma query_parts_join:
  assumes "ws \<noteq> []" "\<And>w. w \<in> set ws \<Longrightarrow> set w \<inter> set ''&;'' = {}"
  shows "query_parts [] (join ''&'' ws) = ws"
proof -
  have word: "query_parts acc w = [rev acc @ w]" if "set w \<inter> set ''&;'' = {}" for acc w
    using that by (induction w arbitrary: acc) auto
  have sep: "query_parts acc (w @ CHR ''&'' # s) = (rev acc @ w) # query_parts [] s" if "set w \<inter> set ''&;'' = {}" for acc w s
    using that by (induction w arbitrary: acc) auto
  show ?thesis using assms
  proof (induction "''&''" ws rule: join.induct)
    case (3 w v ws)
    then show ?case using sep [of w "[]"] by simp
  qed (simp_all add: word)
qed

text \<open>A query of pairs with different keys is read back as the map from each key to its value.\<close>

definition format_query :: "(string, string) gomap \<Rightarrow> string" where
  "format_query m = join ''&'' (map (\<lambda>(k, v). k @ CHR ''='' # v) m)"

lemma Query_format:
  assumes "gomap_ok m" "\<forall>(k, v) \<in> set m. set k \<inter> set ''&;=%+'' = {} \<and> set v \<inter> set ''&;=%+'' = {}"
  shows "url_Query (format_query m) = map (\<lambda>(k, v). (k, [v])) m"
proof (cases "m = []")
  case True
  then show ?thesis by (simp add: url_Query_def format_query_def add_part_def)
next
  case False
  let ?ws = "map (\<lambda>(k, v). k @ CHR ''='' # v) m"
  have "query_parts [] (format_query m) = ?ws"
    unfolding format_query_def by (rule query_parts_join) (use assms(2) False in auto)
  moreover have "fold add_part (map (\<lambda>(k, v). k @ CHR ''='' # v) ps) acc = acc @ map (\<lambda>(k, v). (k, [v])) ps"
    if "distinct (map fst acc @ map fst ps)" "\<forall>(k, v) \<in> set ps. set k \<inter> set ''&;=%+'' = {} \<and> set v \<inter> set ''&;=%+'' = {}" for ps acc
    using that
  proof (induction ps arbitrary: acc)
    case (Cons kv ps)
    obtain k v where kv: "kv = (k, v)" by force
    have "unescape encodeQueryComponent k = Inr k" "unescape encodeQueryComponent v = Inr v"
      using Cons.prems(2) kv by (auto intro!: unescape_id)
    moreover have "map_of acc k = None" using Cons.prems(1) kv by (auto simp: map_of_eq_None_iff)
    moreover have "CHR ''='' \<notin> set k" using Cons.prems(2) kv by auto
    ultimately have "add_part (k @ CHR ''='' # v) acc = acc @ [(k, [v])]" by (simp add: add_part_def add_value_def update_fresh)
    moreover have "fold add_part (map (\<lambda>(k, v). k @ CHR ''='' # v) ps) (acc @ [(k, [v])]) =
        (acc @ [(k, [v])]) @ map (\<lambda>(k, v). (k, [v])) ps"
      by (rule Cons.IH) (use Cons.prems kv in simp_all)
    ultimately show ?case by (simp add: kv)
  qed simp
  ultimately show ?thesis using assms by (simp add: url_Query_def gomap_ok_def)
qed

end
