(* ===== verification/Annotation.thy ===== *)
theory Annotation
  imports GoUrl Sdk
begin

text \<open>
  Annotations of pods: the network services a pod asks for (\<open>pkg/tools\<close>), the list of clients that is made of them
  (\<open>sdk/client/clientlist.go\<close>) and the admission webhook that hands the annotation to a container it adds to the pod
  (\<open>k8s/cmd/admission-webhook\<close>). The decoders of Kubernetes objects are arguments; a JSON text is the value it denotes.
\<close>

subsection \<open>Network service URLs\<close>

record NsUrl =
  NsName :: string
  Intf :: string
  Params :: url_Values

definition parseNsUrl :: "string \<Rightarrow> NsUrl result" where
  "parseNsUrl urlString =
     (case url_Parse urlString of
        Inl e \<Rightarrow> Inl e
      | Inr url \<Rightarrow>
          (let path = Split (u_Path url) ''/'' in
           if length path > 2 then Inl (Errorf ''Invalid nsurl format'')
           else if length path = 2 \<and> length (path ! 1) > 15 then
             Inl (Errorf ''Interface part cannot exceed 15 characters'')
           else Inr \<lparr>NsName = path ! 0, Intf = (if length path = 2 then path ! 1 else ''''), Params = url_Query (u_RawQuery url)\<rparr>))"

fun parse_urls :: "string list \<Rightarrow> NsUrl list result" where
  "parse_urls [] = Inr []"
| "parse_urls (u # us) =
     (case parseNsUrl u of
        Inl e \<Rightarrow> Inl e
      | Inr nsurl \<Rightarrow> (case parse_urls us of Inl e \<Rightarrow> Inl e | Inr nsurls \<Rightarrow> Inr (nsurl # nsurls)))"

definition ParseAnnotationValue :: "string \<Rightarrow> NsUrl list result" where
  "ParseAnnotationValue value = parse_urls (Split value '','')"

subsection \<open>Lists of clients\<close>

definition annotationEnv :: string where
  "annotationEnv = ''NS_NETWORKSERVICEMESH_IO''"

type_synonym params_range = "(string \<times> string list) list \<Rightarrow> (string \<times> string list) list"

definition configFromUrl :: "params_range \<Rightarrow> NSConfiguration option \<Rightarrow> NsUrl \<Rightarrow> NSConfiguration result" where
  "configFromUrl ord configuration url =
     (let conf = (case configuration of None \<Rightarrow> empty_configuration | Some c \<Rightarrow> c); params = ord (Params url) in
      if list_ex (\<lambda>(k, vs). vs = []) params then Inl (Panic ''index out of range'')
      else Inr (conf\<lparr>cfg_OutgoingNscName := NsName url,
        cfg_OutgoingNscLabels := join '','' (map (\<lambda>(k, vs). k @ CHR ''='' # hd vs) params)\<rparr>))"

fun clients_of :: "(string \<Rightarrow> string option) \<Rightarrow> (nat \<Rightarrow> nat \<Rightarrow> string \<Rightarrow> error option) \<Rightarrow> (nat \<Rightarrow> params_range) \<Rightarrow>
    NSConfiguration option \<Rightarrow> nat \<Rightarrow> NsUrl list \<Rightarrow> NsmClient list result" where
  "clients_of LookupEnv access ord configuration i [] = Inr []"
| "clients_of LookupEnv access ord configuration i (url # urls) =
     andThen (configFromUrl (ord i) configuration url) (\<lambda>conf.
     andThen (NewNSMClient LookupEnv (access i) (Some conf)) (\<lambda>nsmClient.
     andThen (clients_of LookupEnv access ord configuration (Suc i) urls) (\<lambda>clients.
     Inr (nsmClient # clients))))"

definition NewNSMClientList :: "(string \<Rightarrow> string option) \<Rightarrow> (nat \<Rightarrow> nat \<Rightarrow> string \<Rightarrow> error option) \<Rightarrow> (nat \<Rightarrow> params_range) \<Rightarrow>
    NSConfiguration option \<Rightarrow> NsmClient list result" where
  "NewNSMClientList LookupEnv access ord configuration =
     (let annotationValue = (case LookupEnv annotationEnv of None \<Rightarrow> '''' | Some v \<Rightarrow> v) in
      if annotationValue = '''' then
        andThen (NewNSMClient LookupEnv (access 0) configuration) (\<lambda>nsmClient. Inr [nsmClient])
      else
        andThen (ParseAnnotationValue annotationValue) (\<lambda>urls. clients_of LookupEnv access ord configuration 0 urls))"

subsection \<open>The admission webhook\<close>

datatype json = JString string | JNumber int | JArray "json list" | JObject "(string \<times> json) list"

record patchOperation =
  Op :: string
  Path :: string
  PatchValue :: json

record ObjectMeta =
  om_Name :: string
  om_Namespace :: string
  om_Annotations :: "(string, string) gomap option"

record AdmissionRequest =
  ar_Kind :: string
  ar_Object :: string
  ar_UID :: string

record AdmissionResponse =
  Allowed :: bool
  Message :: "string option"
  Patch :: "patchOperation list option"
  UID :: string

record webhook_env =
  h_repo :: string
  h_initContainer :: string
  h_tag :: string
  h_ignoredNamespaces :: "string list"
  h_Unmarshal :: "string \<Rightarrow> string \<Rightarrow> ObjectMeta result"

definition nsmAnnotationKey :: string where
  "nsmAnnotationKey = ''ns.networkservicemesh.io''"

text \<open>What \<open>main\<close> reads from the environment.\<close>

definition env_or :: "(string \<Rightarrow> string option) \<Rightarrow> string \<Rightarrow> string \<Rightarrow> string" where
  "env_or LookupEnv key dflt =
     (case LookupEnv key of None \<Rightarrow> dflt | Some v \<Rightarrow> if v = '''' then dflt else v)"

definition webhook_main :: "(string \<Rightarrow> string option) \<Rightarrow> string list \<Rightarrow> (string \<Rightarrow> string \<Rightarrow> ObjectMeta result) \<Rightarrow> webhook_env" where
  "webhook_main LookupEnv ignored unmarshal =
     \<lparr>h_repo = env_or LookupEnv ''REPO'' ''networkservicemesh'', h_initContainer = env_or LookupEnv ''INITCONTAINER'' ''nsc'',
      h_tag = env_or LookupEnv ''TAG'' ''latest'', h_ignoredNamespaces = ignored, h_Unmarshal = unmarshal\<rparr>"

definition getAnnotationValue :: "string list \<Rightarrow> ObjectMeta \<Rightarrow> string option" where
  "getAnnotationValue ignoredList metadata =
     (if om_Namespace metadata \<in> set ignoredList then None
      else case om_Annotations metadata of
        None \<Rightarrow> None
      | Some annotations \<Rightarrow> map_of annotations nsmAnnotationKey)"

definition validateAnnotationValue :: "string \<Rightarrow> error option" where
  "validateAnnotationValue value = (case ParseAnnotationValue value of Inl e \<Rightarrow> Some e | Inr _ \<Rightarrow> None)"

definition init_container :: "webhook_env \<Rightarrow> string \<Rightarrow> json" where
  "init_container env annotationValue =
     JObject [(''name'', JString ''nsc''),
       (''image'', JString (h_repo env @ ''/'' @ h_initContainer env @ '':'' @ h_tag env)),
       (''imagePullPolicy'', JString ''IfNotPresent''),
       (''env'', JArray [JObject [(''name'', JString ''NS_NETWORKSERVICEMESH_IO''), (''value'', JString annotationValue)]]),
       (''resources'', JObject [(''limits'', JObject [(''networkservicemesh.io/socket'', JNumber 1)])])]"

definition createPatch :: "webhook_env \<Rightarrow> string \<Rightarrow> string \<Rightarrow> patchOperation list" where
  "createPatch env annotationValue path = [\<lparr>Op = ''add'', Path = path, PatchValue = JArray [init_container env annotationValue]\<rparr>]"

fun error_text :: "error \<Rightarrow> string" where
  "error_text (Errorf s) = s"
| "error_text (Panic s) = s"

definition refuse :: "error \<Rightarrow> AdmissionResponse" where
  "refuse e = \<lparr>Allowed = False, Message = Some (error_text e), Patch = None, UID = ''''\<rparr>"

definition allow :: "patchOperation list option \<Rightarrow> AdmissionResponse" where
  "allow patch = \<lparr>Allowed = True, Message = None, Patch = patch, UID = ''''\<rparr>"

definition patch_path :: "string \<Rightarrow> string option" where
  "patch_path kind =
     (if kind = ''Deployment'' then Some ''/spec/template/spec/initContainers''
      else if kind = ''Pod'' then Some ''/spec/initContainers''
      else None)"

definition mutate :: "webhook_env \<Rightarrow> AdmissionRequest \<Rightarrow> AdmissionResponse" where
  "mutate env req =
     (case patch_path (ar_Kind req) of
        None \<Rightarrow> allow None
      | Some path \<Rightarrow>
          (case h_Unmarshal env (ar_Kind req) (ar_Object req) of
             Inl e \<Rightarrow> refuse e
           | Inr meta \<Rightarrow>
               (case getAnnotationValue (h_ignoredNamespaces env) meta of
                  None \<Rightarrow> allow None
                | Some value \<Rightarrow>
                    (case validateAnnotationValue value of
                       Some e \<Rightarrow> refuse e
                     | None \<Rightarrow> allow (Some (createPatch env value path))))))"

text \<open>
  \<open>serve\<close>. Decoding gives an error and the request of the review as far as it was read; a request that is nil is
  dereferenced.
\<close>

datatype http_reply = HttpError nat string | Review AdmissionResponse

definition serve :: "webhook_env \<Rightarrow> (string \<Rightarrow> error option \<times> AdmissionRequest option) \<Rightarrow> string \<Rightarrow> string \<Rightarrow> http_reply result" where
  "serve env decode body contentType =
     (if body = '''' then Inr (HttpError 400 ''empty body'')
      else if contentType \<noteq> ''application/json'' then
        Inr (HttpError 415 ''invalid Content-Type, expect `application/json`'')
      else
        (let uid = (\<lambda>r req. r\<lparr>UID := (case req of None \<Rightarrow> '''' | Some q \<Rightarrow> ar_UID q)\<rparr>) in
         case decode body of
           (Some e, req) \<Rightarrow> Inr (Review (uid (refuse e) req))
         | (None, None) \<Rightarrow> Inl nil_deref
         | (None, Some req) \<Rightarrow> Inr (Review (uid (mutate env req) (Some req)))))"

subsection \<open>What is asked for\<close>

text \<open>A service with an interface and labels, as words of letters, digits, dashes, underscores and dots.\<close>

definition word_char :: "char \<Rightarrow> bool" where
  "word_char c \<longleftrightarrow> is_alpha c \<or> is_digit c \<or> c \<in> set ''-_.''"

definition word :: "string \<Rightarrow> bool" where
  "word s \<longleftrightarrow> list_all word_char s"

record service =
  s_name :: string
  s_intf :: string
  s_labels :: "(string, string) gomap"

definition service_ok :: "service \<Rightarrow> bool" where
  "service_ok s \<longleftrightarrow> s_name s \<noteq> '''' \<and> word (s_name s) \<and> word (s_intf s) \<and> length (s_intf s) \<le> 15 \<and> gomap_ok (s_labels s) \<and>
     (\<forall>(k, v) \<in> set (s_labels s). word k \<and> word v)"

definition service_text :: "service \<Rightarrow> string" where
  "service_text s =
     with_query (if s_intf s = '''' then s_name s else s_name s @ CHR ''/'' # s_intf s) (format_query (s_labels s))"

definition annotation_text :: "service list \<Rightarrow> string" where
  "annotation_text ss = join '','' (map service_text ss)"

lemma word_no_specials: "word s \<Longrightarrow> set s \<inter> set '':?#%*/,&;=+ '' = {}"
proof -
  have "list_all (\<lambda>c. \<not> word_char c) '':?#%*/,&;=+ ''" by code_simp
  then show "word s \<Longrightarrow> set s \<inter> set '':?#%*/,&;=+ '' = {}" by (auto simp: word_def list_all_iff)
qed

lemma word_char_not: "word s \<Longrightarrow> c \<in> set '':?#%*/,&;=+ '' \<Longrightarrow> c \<notin> set s"
  using word_no_specials by blast

lemma format_query_chars:
  assumes "c \<in> set (format_query m)" "\<forall>(k, v) \<in> set m. word k \<and> word v"
  shows "word_char c \<or> c = CHR ''='' \<or> c = CHR ''&''"
proof -
  have join: "c \<in> set (join ''&'' ws) \<Longrightarrow> c = CHR ''&'' \<or> (\<exists>w \<in> set ws. c \<in> set w)" for ws
    by (induction "''&''" ws rule: join.induct) auto
  from join [OF assms(1) [unfolded format_query_def]]
  consider "c = CHR ''&''" | k v where "(k, v) \<in> set m" "c \<in> set (k @ CHR ''='' # v)" by auto
  then show ?thesis
  proof cases
    case 2
    then have "word k" "word v" using assms(2) by auto
    with 2(2) show ?thesis by (auto simp: word_def list_all_iff)
  qed simp
qed

lemma specials: "\<not> word_char CHR '':''" "\<not> word_char CHR ''#''" "\<not> word_char CHR ''*''" "\<not> word_char CHR '',''"
  by code_simp+

lemma parseNsUrl_service:
  assumes "service_ok s"
  shows "parseNsUrl (service_text s) = Inr \<lparr>NsName = s_name s, Intf = s_intf s, Params = map (\<lambda>(k, v). (k, [v])) (s_labels s)\<rparr>"
proof -
  let ?path = "if s_intf s = '''' then s_name s else s_name s @ CHR ''/'' # s_intf s"
  have w: "word (s_name s)" "word (s_intf s)" "s_name s \<noteq> ''''" "gomap_ok (s_labels s)" "\<forall>(k, v) \<in> set (s_labels s). word k \<and> word v"
    using assms by (simp_all add: service_ok_def)
  have p: "set ?path \<inter> set '':?#%*'' = {}" using word_no_specials [OF w(1)] word_no_specials [OF w(2)] by auto
  have "hd (s_name s) \<noteq> CHR ''/''" using word_char_not [OF w(1), of "CHR ''/''"] hd_in_set [OF w(3)] by auto
  then have h: "\<not> HasPrefix ?path ''/''" using w(3) by (cases "s_name s") (auto simp: HasPrefix_def)
  have q: "set (format_query (s_labels s)) \<inter> set '':#*'' = {}" using format_query_chars [OF _ w(5)] specials by fastforce
  have params: "url_Query (format_query (s_labels s)) = map (\<lambda>(k, v). (k, [v])) (s_labels s)"
    using w(4,5) word_char_not by (intro Query_format) fastforce+
  have "Split ?path ''/'' = (if s_intf s = '''' then [s_name s] else [s_name s, s_intf s])"
    using word_char_not [OF w(1), of "CHR ''/''"] word_char_not [OF w(2), of "CHR ''/''"]
      split_from_word [of "CHR ''/''" "s_name s" "[]"] split_from_word [of "CHR ''/''" "s_intf s" "[]"]
      split_from_sep [of "CHR ''/''" "s_name s" "[]" "s_intf s"]
    by (simp add: Split_def)
  then show ?thesis
    using parse_with_query [OF p h q] params assms by (simp add: parseNsUrl_def service_text_def service_ok_def empty_URL_def)
qed

lemma service_text_comma: "service_ok s \<Longrightarrow> CHR '','' \<notin> set (service_text s)"
  using word_char_not [of "s_name s" "CHR '',''"] word_char_not [of "s_intf s" "CHR '',''"]
    format_query_chars [of "CHR '',''" "s_labels s"] specials
  by (auto simp: service_ok_def service_text_def with_query_def)

lemma parse_urls_services:
  "\<forall>s \<in> set ss. service_ok s \<Longrightarrow> parse_urls (map service_text ss) =
     Inr (map (\<lambda>s. \<lparr>NsName = s_name s, Intf = s_intf s, Params = map (\<lambda>(k, v). (k, [v])) (s_labels s)\<rparr>) ss)"
  by (induction ss) (simp_all add: parseNsUrl_service)

lemma annotation_parsed:
  assumes "ss \<noteq> []" "\<forall>s \<in> set ss. service_ok s"
  shows "ParseAnnotationValue (annotation_text ss) =
    Inr (map (\<lambda>s. \<lparr>NsName = s_name s, Intf = s_intf s, Params = map (\<lambda>(k, v). (k, [v])) (s_labels s)\<rparr>) ss)"
proof -
  have "Split (annotation_text ss) '','' = map service_text ss"
    unfolding annotation_text_def using assms service_text_comma by (intro Split_join) auto
  then show ?thesis by (simp add: ParseAnnotationValue_def parse_urls_services [OF assms(2)])
qed

subsection \<open>What clients request\<close>

definition env_ready :: "(string \<Rightarrow> string option) \<Rightarrow> bool" where
  "env_ready LookupEnv \<longleftrightarrow>
     LookupEnv ''NSM_SERVER_SOCKET'' \<noteq> None \<and> LookupEnv ''NSM_CLIENT_SOCKET'' \<noteq> None \<and> LookupEnv ''WORKSPACE'' \<noteq> None"

lemma complete_option_ok:
  assumes "mandatory \<longrightarrow> LookupEnv key \<noteq> None"
  shows "\<exists>x. complete_option LookupEnv key mandatory v = Inr x \<and> (v \<noteq> '''' \<longrightarrow> x = v)"
  using assms by (auto simp: complete_option_def getEnv_def split: option.splits)

lemma complete_keeps:
  assumes "env_ready LookupEnv"
  shows "\<exists>c'. CompleteNSConfiguration LookupEnv c = Inr c' \<and>
    (cfg_OutgoingNscName c \<noteq> '''' \<longrightarrow> cfg_OutgoingNscName c' = cfg_OutgoingNscName c) \<and>
    (cfg_OutgoingNscLabels c \<noteq> '''' \<longrightarrow> cfg_OutgoingNscLabels c' = cfg_OutgoingNscLabels c)"
proof -
  note e = assms [unfolded env_ready_def]
  have opt: "\<exists>x. complete_option LookupEnv key False v = Inr x \<and> (v \<noteq> '''' \<longrightarrow> x = v)" for key v by (rule complete_option_ok) simp
  obtain server where "complete_option LookupEnv ''NSM_SERVER_SOCKET'' True (NsmServerSocket c) = Inr server"
    using complete_option_ok [of True LookupEnv "''NSM_SERVER_SOCKET''" "NsmServerSocket c"] e by auto
  moreover obtain client where "complete_option LookupEnv ''NSM_CLIENT_SOCKET'' True (NsmClientSocket c) = Inr client"
    using complete_option_ok [of True LookupEnv "''NSM_CLIENT_SOCKET''" "NsmClientSocket c"] e by auto
  moreover obtain workspace where "complete_option LookupEnv ''WORKSPACE'' True (cfg_Workspace c) = Inr workspace"
    using complete_option_ok [of True LookupEnv "''WORKSPACE''" "cfg_Workspace c"] e by auto
  moreover obtain name where "complete_option LookupEnv ''ADVERTISE_NSE_NAME'' False (AdvertiseNseName c) = Inr name"
    using opt [of "''ADVERTISE_NSE_NAME''" "AdvertiseNseName c"] by auto
  moreover obtain labels where "complete_option LookupEnv ''ADVERTISE_NSE_LABELS'' False (AdvertiseNseLabels c) = Inr labels"
    using opt [of "''ADVERTISE_NSE_LABELS''" "AdvertiseNseLabels c"] by auto
  moreover obtain mechanism where "complete_option LookupEnv ''MECHANISM_TYPE'' False (MechanismType c) = Inr mechanism"
    using opt [of "''MECHANISM_TYPE''" "MechanismType c"] by auto
  moreover obtain ip where "complete_option LookupEnv ''IP_ADDRESS'' False (IPAddress c) = Inr ip"
    using opt [of "''IP_ADDRESS''" "IPAddress c"] by auto
  moreover obtain nsc where "complete_option LookupEnv ''OUTGOING_NSC_NAME'' False (cfg_OutgoingNscName c) = Inr nsc"
      "cfg_OutgoingNscName c \<noteq> '''' \<longrightarrow> nsc = cfg_OutgoingNscName c"
    using opt [of "''OUTGOING_NSC_NAME''" "cfg_OutgoingNscName c"] by blast
  moreover obtain nsc_labels where "complete_option LookupEnv ''OUTGOING_NSC_LABELS'' False (cfg_OutgoingNscLabels c) = Inr nsc_labels"
      "cfg_OutgoingNscLabels c \<noteq> '''' \<longrightarrow> nsc_labels = cfg_OutgoingNscLabels c"
    using opt [of "''OUTGOING_NSC_LABELS''" "cfg_OutgoingNscLabels c"] by blast
  moreover have "\<exists>t. getEnv LookupEnv ''TRACER_ENABLED'' False = Inr t" by (auto simp: getEnv_def split: option.splits)
  ultimately show ?thesis by (auto simp: CompleteNSConfiguration_def andThen_def)
qed

lemma client_made:
  assumes "env_ready LookupEnv" "\<And>k s. access k s = None"
  shows "\<exists>nc. NewNSMClient LookupEnv access (Some c) = Inr nc \<and>
    (cfg_OutgoingNscName c \<noteq> '''' \<longrightarrow> cfg_OutgoingNscName (Configuration nc) = cfg_OutgoingNscName c) \<and>
    (cfg_OutgoingNscLabels c \<noteq> '''' \<longrightarrow> OutgoingNscLabels nc = ParseKVStringToMap (cfg_OutgoingNscLabels c) '','' ''='')"
  using complete_keeps [OF assms(1), of c] assms(2) by (auto simp: NewNSMClient_def completed_def NewNSMConnection_def andThen_def)

text \<open>The client of a service asks for it, with its labels.\<close>

definition client_for :: "service \<Rightarrow> NsmClient \<Rightarrow> bool" where
  "client_for s nc \<longleftrightarrow> cfg_OutgoingNscName (Configuration nc) = s_name s \<and>
     (s_labels s \<noteq> [] \<longrightarrow> map_of (OutgoingNscLabels nc) = map_of (s_labels s))"

lemma config_labels:
  assumes "service_ok s" "is_order ord"
  shows "\<exists>m. configFromUrl ord c \<lparr>NsName = s_name s, Intf = i, Params = map (\<lambda>(k, v). (k, [v])) (s_labels s)\<rparr> =
      Inr ((case c of None \<Rightarrow> empty_configuration | Some c \<Rightarrow> c)\<lparr>cfg_OutgoingNscName := s_name s,
        cfg_OutgoingNscLabels := format_kv CHR '','' CHR ''='' m\<rparr>) \<and> gomap_ok m \<and> set m = set (s_labels s)"
proof -
  let ?ps = "map (\<lambda>(k, v). (k, [v])) (s_labels s)" and ?m = "map (\<lambda>(k, vs). (k, hd vs)) (ord (map (\<lambda>(k, v). (k, [v])) (s_labels s)))"
  have ok: "gomap_ok (s_labels s)" using assms(1) by (simp add: service_ok_def)
  have "set ?m = (\<lambda>(k, vs). (k, hd vs)) ` set ?ps" by (simp add: is_order_set [OF assms(2)])
  also have "\<dots> = set (s_labels s)" by (force simp: image_iff)
  finally have set: "set ?m = set (s_labels s)" .
  have "mset (map fst ?m) = mset (map fst (ord ?ps))" by (simp add: case_prod_beta o_def)
  also have "\<dots> = mset (map fst (s_labels s))"
    by (simp add: is_order_mset [OF assms(2)] image_mset.compositionality case_prod_beta o_def)
  finally have "gomap_ok ?m" using ok by (metis gomap_ok_def mset_eq_imp_distinct_iff)
  moreover have "\<not> list_ex (\<lambda>(k, vs). vs = []) (ord ?ps)" by (auto simp: list_ex_iff is_order_set [OF assms(2)])
  moreover have "join '','' (map (\<lambda>(k, vs). k @ CHR ''='' # hd vs) (ord ?ps)) = format_kv CHR '','' CHR ''='' ?m"
    by (simp add: format_kv_def case_prod_unfold o_def)
  ultimately show ?thesis using set by (intro exI [of _ ?m]) (simp add: configFromUrl_def Let_def)
qed

lemma word_plain: "word w \<Longrightarrow> plain '',='' w"
  using word_char_not [of w "CHR '',''"] word_char_not [of w "CHR ''=''"] word_char_not [of w "CHR '' ''"]
  by (cases "w = []") (auto simp: plain_def dest: hd_in_set last_in_set)

lemma service_client:
  assumes "service_ok s" "is_order ord" "env_ready LookupEnv" "\<And>k s. access k s = None"
  shows "\<exists>conf nc. configFromUrl ord c \<lparr>NsName = s_name s, Intf = i, Params = map (\<lambda>(k, v). (k, [v])) (s_labels s)\<rparr> = Inr conf \<and>
    NewNSMClient LookupEnv access (Some conf) = Inr nc \<and> client_for s nc"
proof -
  obtain m where m: "configFromUrl ord c \<lparr>NsName = s_name s, Intf = i, Params = map (\<lambda>(k, v). (k, [v])) (s_labels s)\<rparr> =
      Inr ((case c of None \<Rightarrow> empty_configuration | Some c \<Rightarrow> c)\<lparr>cfg_OutgoingNscName := s_name s,
        cfg_OutgoingNscLabels := format_kv CHR '','' CHR ''='' m\<rparr>)" (is "_ = Inr ?conf") "gomap_ok m" "set m = set (s_labels s)"
    using config_labels [OF assms(1,2)] by blast
  obtain nc where nc: "NewNSMClient LookupEnv access (Some ?conf) = Inr nc"
      "cfg_OutgoingNscName (Configuration nc) = s_name s"
      "format_kv CHR '','' CHR ''='' m \<noteq> '''' \<longrightarrow> OutgoingNscLabels nc = ParseKVStringToMap (format_kv CHR '','' CHR ''='' m) '','' ''=''"
    using client_made [of LookupEnv access ?conf, OF assms(3,4)] assms(1) by (auto simp: service_ok_def)
  have "map_of (OutgoingNscLabels nc) = map_of (s_labels s)" if "s_labels s \<noteq> []"
  proof -
    from that m(3) have n: "m \<noteq> []" by auto
    then have "format_kv CHR '','' CHR ''='' m \<noteq> ''''" by (cases m; cases "tl m") (auto simp: format_kv_def)
    moreover have "\<forall>(k, v) \<in> set m. plain '',='' k \<and> plain '',='' v" using assms(1) m(3) word_plain by (fastforce simp: service_ok_def)
    ultimately have "OutgoingNscLabels nc = m" using nc(3) parse_format_kv [of "CHR '',''" "CHR ''=''" m] m(2) n by simp
    then show ?thesis using m(2,3) assms(1) by (simp add: service_ok_def gomap_ok_def map_of_inject_set)
  qed
  with m(1) nc(1,2) show ?thesis by (auto simp: client_for_def)
qed

lemma clients_made:
  assumes "\<forall>s \<in> set ss. service_ok s" "\<And>i. is_order (ord i)" "env_ready LookupEnv" "\<And>i k s. access i k s = None"
  shows "\<exists>clients. clients_of LookupEnv access ord c i
      (map (\<lambda>s. \<lparr>NsName = s_name s, Intf = s_intf s, Params = map (\<lambda>(k, v). (k, [v])) (s_labels s)\<rparr>) ss) = Inr clients \<and>
    list_all2 client_for ss clients"
  using assms(1)
proof (induction ss arbitrary: i)
  case (Cons s ss)
  have "service_ok s" using Cons.prems by simp
  from service_client [of s "ord i" LookupEnv "access i", OF this assms(2,3,4), where c = c and i = "s_intf s"]
  obtain conf nc where "configFromUrl (ord i) c \<lparr>NsName = s_name s, Intf = s_intf s, Params = map (\<lambda>(k, v). (k, [v])) (s_labels s)\<rparr> = Inr conf"
      "NewNSMClient LookupEnv (access i) (Some conf) = Inr nc" "client_for s nc" by blast
  with Cons.IH [of "Suc i"] Cons.prems show ?case by (auto simp: andThen_def)
qed simp

subsection \<open>From the annotation to the clients\<close>

text \<open>The value of an environment variable of the container in a patch.\<close>

fun jfield :: "string \<Rightarrow> json \<Rightarrow> json option" where
  "jfield k (JObject fs) = map_of fs k"
| "jfield k _ = None"

fun container_env :: "string \<Rightarrow> json \<Rightarrow> json option" where
  "container_env k (JArray [container]) =
     (case jfield ''env'' container of
        Some (JArray vars) \<Rightarrow> Option.bind (find (\<lambda>v. jfield ''name'' v = Some (JString k)) vars) (jfield ''value'')
      | _ \<Rightarrow> None)"
| "container_env k _ = None"

text \<open>
  C40: A pod gets the network services it asks for. Let a pod or a deployment outside the ignored namespaces be annotated with a
  list of services, written as words, each with an interface of at most 15 bytes and labels, or without them. The webhook admits
  it with a patch that adds one container, at the path for its kind. In every environment that has
  the variables of the device plugin and the variable that this container is given, and where the manager can be reached, the client library makes
  one client for each service, in the order of the annotation; it requests that service, with exactly the labels
  of the annotation if there are some.
\<close>

theorem annotated_services_requested:
  assumes "patch_path (ar_Kind req) = Some path" "h_Unmarshal env (ar_Kind req) (ar_Object req) = Inr meta"
    "om_Namespace meta \<notin> set (h_ignoredNamespaces env)" "om_Annotations meta = Some annotations"
    "map_of annotations nsmAnnotationKey = Some (annotation_text ss)" "ss \<noteq> []" "\<forall>s \<in> set ss. service_ok s"
  shows "\<exists>patch v. mutate env req = allow (Some [patch]) \<and> Op patch = ''add'' \<and> Path patch = path \<and>
    container_env annotationEnv (PatchValue patch) = Some (JString v) \<and>
    (\<forall>LookupEnv access ord configuration. LookupEnv annotationEnv = Some v \<and> env_ready LookupEnv \<and>
       (\<forall>i k s. access i k s = None) \<and> (\<forall>i. is_order (ord i)) \<longrightarrow>
       (\<exists>clients. NewNSMClientList LookupEnv access ord configuration = Inr clients \<and> list_all2 client_for ss clients))"
proof -
  let ?v = "annotation_text ss"
  note parsed = annotation_parsed [OF assms(6,7)]
  have m: "mutate env req = allow (Some [\<lparr>Op = ''add'', Path = path, PatchValue = JArray [init_container env ?v]\<rparr>])"
    using assms(1-5) parsed by (simp add: mutate_def getAnnotationValue_def validateAnnotationValue_def createPatch_def)
  have c: "container_env annotationEnv (JArray [init_container env ?v]) = Some (JString ?v)"
    by (simp add: init_container_def annotationEnv_def)
  have "service_text (hd ss) \<noteq> ''''" using assms(6,7) by (auto simp: service_text_def with_query_def service_ok_def)
  then have n: "?v \<noteq> ''''" using assms(6) by (cases ss; cases "tl ss") (auto simp: annotation_text_def)
  have "\<exists>clients. NewNSMClientList LookupEnv access ord configuration = Inr clients \<and> list_all2 client_for ss clients"
    if "LookupEnv annotationEnv = Some ?v" "env_ready LookupEnv" "\<forall>i k s. access i k s = None" "\<forall>i. is_order (ord i)"
    for LookupEnv access ord configuration
    using clients_made [OF assms(7), of ord LookupEnv access configuration 0] that parsed n
    by (simp add: NewNSMClientList_def andThen_def)
  with m c show ?thesis by auto
qed

definition ex_services :: "service list" where
  "ex_services = [\<lparr>s_name = ''vpn'', s_intf = ''nsm0'', s_labels = [(''app'', ''gw'')]\<rparr>, \<lparr>s_name = ''web'', s_intf = '''', s_labels = []\<rparr>]"

definition ex_webhook :: webhook_env where
  "ex_webhook = webhook_main (\<lambda>_. None) [''kube-system'', ''kube-public'']
     (\<lambda>_ _. Inr \<lparr>om_Name = ''p'', om_Namespace = ''default'', om_Annotations = Some [(nsmAnnotationKey, annotation_text ex_services)]\<rparr>)"

lemma ex_services_ok: "\<forall>s \<in> set ex_services. service_ok s"
proof -
  have "word ''vpn''" "word ''nsm0''" "word ''app''" "word ''gw''" "word ''web''" "word ''''" by code_simp+
  then show ?thesis by (simp add: ex_services_def service_ok_def gomap_ok_def)
qed

theorem annotated_services_requested_witness:
  "\<exists>patch v clients. mutate ex_webhook \<lparr>ar_Kind = ''Pod'', ar_Object = ''{}'', ar_UID = ''u''\<rparr> = allow (Some [patch]) \<and>
     Path patch = ''/spec/initContainers'' \<and>
     NewNSMClientList (\<lambda>k. if k = annotationEnv then Some v else Some ''x'') (\<lambda>_ _ _. None) (\<lambda>_. rev) None = Inr clients \<and>
     map (\<lambda>c. cfg_OutgoingNscName (Configuration c)) clients = [''vpn'', ''web'']"
proof -
  let ?req = "\<lparr>ar_Kind = ''Pod'', ar_Object = ''{}'', ar_UID = ''u''\<rparr>"
  let ?env = "\<lambda>v k. if k = annotationEnv then Some v else Some ''x''"
  let ?meta = "\<lparr>om_Name = ''p'', om_Namespace = ''default'', om_Annotations = Some [(nsmAnnotationKey, annotation_text ex_services)]\<rparr>"
  have "patch_path (ar_Kind ?req) = Some ''/spec/initContainers''" "h_Unmarshal ex_webhook (ar_Kind ?req) (ar_Object ?req) = Inr ?meta"
      "om_Namespace ?meta \<notin> set (h_ignoredNamespaces ex_webhook)"
      "om_Annotations ?meta = Some [(nsmAnnotationKey, annotation_text ex_services)]"
      "map_of [(nsmAnnotationKey, annotation_text ex_services)] nsmAnnotationKey = Some (annotation_text ex_services)" "ex_services \<noteq> []"
    by (simp_all add: patch_path_def ex_webhook_def webhook_main_def ex_services_def)
  from annotated_services_requested [OF this ex_services_ok]
  obtain patch v where p: "mutate ex_webhook ?req = allow (Some [patch])" "Path patch = ''/spec/initContainers''"
    and r: "\<forall>LookupEnv access ord configuration. LookupEnv annotationEnv = Some v \<and> env_ready LookupEnv \<and>
       (\<forall>i k s. access i k s = None) \<and> (\<forall>i. is_order (ord i)) \<longrightarrow>
       (\<exists>clients. NewNSMClientList LookupEnv access ord configuration = Inr clients \<and> list_all2 client_for ex_services clients)"
    by blast
  have "env_ready (?env v)" by (simp add: env_ready_def)
  with r [THEN spec [of _ "?env v"], THEN spec [of _ "\<lambda>_ _ _. None"], THEN spec [of _ "\<lambda>_. rev"], THEN spec [of _ None]] obtain clients where
      "NewNSMClientList (?env v) (\<lambda>_ _ _. None) (\<lambda>_. rev) None = Inr clients" "list_all2 client_for ex_services clients" by auto
  moreover from this(2) have "map (\<lambda>c. cfg_OutgoingNscName (Configuration c)) clients = [''vpn'', ''web'']"
    by (auto simp: ex_services_def list_all2_Cons1 client_for_def)
  ultimately show ?thesis using p by (intro exI [of _ patch] exI [of _ v] exI [of _ clients]) simp
qed

subsection \<open>Flaws\<close>

text \<open>The interface of a service is checked but not used: the clients of all services ask for the same one.\<close>

lemma interface_ignored: "configFromUrl ord c (u\<lparr>Intf := i\<rparr>) = configFromUrl ord c u"
  by (simp add: configFromUrl_def Let_def)

text \<open>A review without a request crashes the handler.\<close>

lemma empty_review_crashes:
  "body \<noteq> '''' \<Longrightarrow> decode body = (None, None) \<Longrightarrow> serve env decode body ''application/json'' = Inl nil_deref"
  by (simp add: serve_def)

text \<open>A client without labels asks for the empty label with the empty value.\<close>

lemma no_labels_is_a_label:
  assumes "NewNSMClient LookupEnv access c = Inr nc" "cfg_OutgoingNscLabels (Configuration nc) = ''''"
  shows "OutgoingNscLabels nc = [('''', '''')]"
  using assms by (auto simp: NewNSMClient_def andThen_def ParseKVStringToMap_def Split_def parseKV_def split: sum.splits)

end
