(* ===== verification/Spec2Isabelle.thy ===== *)
theory Spec2Isabelle
  imports PoolProps ModelProps ManagerExample NetNsLoop XconClient NsmdProps Acl VppAgent RegistryServer SdkProps SriovProps DevicePlugin Lifecycle Firewall SriovGen Annotation
begin

text \<open>Network Service Mesh.\<close>

end
